(* ===== verification/RS_Prelude.thy ===== *)
theory RS_Prelude
  imports Main "HOL-Library.Char_ord" "HOL-Library.List_Lexorder"
begin

text \<open>
  Shared vocabulary of the development: the exceptions of the program as values
  (\<^verbatim>\<open>src/src/receipts/Errors.h\<close> and the standard exceptions the code lets escape),
  the result type \<open>error + 'a\<close> with its bind, loops that may throw, the C-locale
  character classes and the string functions of the C++ library that the sources call
  (\<open>std::stoi\<close>, \<open>std::to_string\<close>, \<open>std::string::find\<close>), and the generic lemmas on
  them that the component theories share.
\<close>

named_theorems res_simps \<open>unfolding of computations that may throw\<close>

section \<open>Exceptions as values\<close>

datatype error =
    NotFoundError string
  | ReceiptNotFoundError
  | ValidationError string
  | ConflictError string
  | TooManyImagesError
  | ImageDecodeError string
  | ScanError string
  | DuplicateEmailError
  | RuntimeError string
  | LogicError string
  | InvalidArgument string
  | OutOfRange string
  | JsonException string
  | DbError string

text \<open>\<open>std::exception::what()\<close>.\<close>

fun what_of :: "error \<Rightarrow> string" where
  "what_of (NotFoundError m) = m"
| "what_of ReceiptNotFoundError = ''receipt not found''"
| "what_of (ValidationError m) = m"
| "what_of (ConflictError m) = m"
| "what_of TooManyImagesError = ''image cap exceeded''"
| "what_of (ImageDecodeError m) = m"
| "what_of (ScanError m) = m"
| "what_of DuplicateEmailError = ''email already registered''"
| "what_of (RuntimeError m) = m"
| "what_of (LogicError m) = m"
| "what_of (InvalidArgument m) = m"
| "what_of (OutOfRange m) = m"
| "what_of (JsonException m) = m"
| "what_of (DbError m) = m"

section \<open>Results\<close>

definition rbind :: "'e + 'a \<Rightarrow> ('a \<Rightarrow> 'e + 'b) \<Rightarrow> 'e + 'b" where
  "rbind m f = (case m of Inl e \<Rightarrow> Inl e | Inr x \<Rightarrow> f x)"

lemma rbind_Inr [simp]: "rbind (Inr x) f = f x"
  and rbind_Inl [simp]: "rbind (Inl e) f = Inl e"
  by (simp_all add: rbind_def)

lemma rbind_eq_Inr [res_simps]:
  "rbind m f = Inr y \<longleftrightarrow> (\<exists>x. m = Inr x \<and> f x = Inr y)"
  by (cases m) auto

lemma rbind_eq_Inl [res_simps]:
  "rbind m f = Inl e \<longleftrightarrow> m = Inl e \<or> (\<exists>x. m = Inr x \<and> f x = Inl e)"
  by (cases m) auto

lemma rbind_cong [fundef_cong]:
  assumes "m = m'" and "\<And>x. m' = Inr x \<Longrightarrow> f x = f' x"
  shows "rbind m f = rbind m' f'"
  using assms by (cases m') auto

text \<open>A loop that collects one result per element and stops at the first throw.\<close>

fun rmap :: "('a \<Rightarrow> 'e + 'b) \<Rightarrow> 'a list \<Rightarrow> 'e + 'b list" where
  "rmap f [] = Inr []"
| "rmap f (x # xs) = rbind (f x) (\<lambda>y. rbind (rmap f xs) (\<lambda>ys. Inr (y # ys)))"

lemma rmap_eq_Inr:
  "rmap f xs = Inr ys \<longleftrightarrow> list_all2 (\<lambda>x y. f x = Inr y) xs ys"
  by (induction xs arbitrary: ys) (auto simp: res_simps list_all2_Cons1)

lemma rmap_cong [fundef_cong]:
  assumes "xs = ys" and "\<And>x. x \<in> set ys \<Longrightarrow> f x = g x"
  shows "rmap f xs = rmap g ys"
  unfolding assms(1) using assms(2) by (induction ys) (simp_all cong: rbind_cong)

section \<open>C-locale characters\<close>

definition isspace :: "char \<Rightarrow> bool" where
  "isspace c \<longleftrightarrow> c = CHR '' '' \<or> c = CHR 0x09 \<or> c = CHR 0x0A \<or> c = CHR 0x0B \<or> c = CHR 0x0C \<or> c = CHR 0x0D"

definition isdigit :: "char \<Rightarrow> bool" where
  "isdigit c \<longleftrightarrow> CHR ''0'' \<le> c \<and> c \<le> CHR ''9''"

definition isupper :: "char \<Rightarrow> bool" where
  "isupper c \<longleftrightarrow> CHR ''A'' \<le> c \<and> c \<le> CHR ''Z''"

definition islower :: "char \<Rightarrow> bool" where
  "islower c \<longleftrightarrow> CHR ''a'' \<le> c \<and> c \<le> CHR ''z''"

definition isalpha :: "char \<Rightarrow> bool" where
  "isalpha c \<longleftrightarrow> isupper c \<or> islower c"

definition to_upper :: "char \<Rightarrow> char" where
  "to_upper c = (if islower c then char_of (of_char c - (32::nat)) else c)"

definition to_lower :: "char \<Rightarrow> char" where
  "to_lower c = (if isupper c then char_of (of_char c + (32::nat)) else c)"

definition lower :: "string \<Rightarrow> string" where
  "lower s = map to_lower s"

lemma isupper_to_upper: "isalpha c \<Longrightarrow> isupper (to_upper c)"
  by (auto simp: isalpha_def isupper_def islower_def to_upper_def less_eq_char_def)

lemma lower_idem [simp]: "lower (lower s) = lower s"
  by (auto simp: lower_def to_lower_def isupper_def less_eq_char_def)

section \<open>Strings\<close>

definition trim :: "string \<Rightarrow> string" where
  "trim s = rev (dropWhile isspace (rev (dropWhile isspace s)))"

definition substr :: "string \<Rightarrow> nat \<Rightarrow> nat \<Rightarrow> string" where
  "substr s p n = take n (drop p s)"

fun has_substr :: "string \<Rightarrow> string \<Rightarrow> bool" where
  "has_substr p [] = (p = [])"
| "has_substr p (c # s) = (take (length p) (c # s) = p \<or> has_substr p s)"

definition digit_val :: "char \<Rightarrow> int" where
  "digit_val c = int (of_char c) - 48"

definition digits_val :: "string \<Rightarrow> int" where
  "digits_val s = foldl (\<lambda>n c. 10 * n + digit_val c) 0 s"

text \<open>\<open>std::stoi\<close>: leading white space, an optional sign, then the longest run of digits;
  what follows them is ignored.\<close>

definition stoi_body :: "string \<Rightarrow> (int \<times> string)" where
  "stoi_body s =
     (case dropWhile isspace s of
        [] \<Rightarrow> (1, [])
      | c # r \<Rightarrow> if c = CHR ''-'' then (-1, r) else if c = CHR ''+'' then (1, r) else (1, c # r))"

definition stoi :: "string \<Rightarrow> error + int" where
  "stoi s =
     (let (sg, r) = stoi_body s; ds = takeWhile isdigit r; n = sg * digits_val ds in
      if ds = [] then Inl (InvalidArgument ''stoi'')
      else if n < - (2 ^ 31) \<or> 2 ^ 31 \<le> n then Inl (OutOfRange ''stoi'')
      else Inr n)"

definition stoll :: "string \<Rightarrow> error + int" where
  "stoll s =
     (let (sg, r) = stoi_body s; ds = takeWhile isdigit r; n = sg * digits_val ds in
      if ds = [] then Inl (InvalidArgument ''stoll'')
      else if n < - (2 ^ 63) \<or> 2 ^ 63 \<le> n then Inl (OutOfRange ''stoll'')
      else Inr n)"

definition digit_char :: "nat \<Rightarrow> char" where
  "digit_char n = char_of (48 + n mod 10)"

fun nat_to_string :: "nat \<Rightarrow> string" where
  "nat_to_string n = (if n < 10 then [digit_char n] else nat_to_string (n div 10) @ [digit_char n])"

declare nat_to_string.simps [simp del]

definition to_string :: "int \<Rightarrow> string" where
  "to_string n = (if n < 0 then CHR ''-'' # nat_to_string (nat (- n)) else nat_to_string (nat n))"

lemma trim_last_first:
  "trim s \<noteq> [] \<Longrightarrow> \<not> isspace (hd (trim s)) \<and> \<not> isspace (last (trim s))"
proof -
  assume ne: "trim s \<noteq> []"
  let ?t = "dropWhile isspace s"
  have "rev (trim s) = dropWhile isspace (rev ?t)" by (simp add: trim_def)
  then have last: "\<not> isspace (last (trim s))"
    using ne hd_dropWhile by (metis hd_rev rev_is_Nil_conv)
  obtain u where u: "rev ?t = u @ rev (trim s)"
    by (metis \<open>rev (trim s) = dropWhile isspace (rev ?t)\<close> takeWhile_dropWhile_id)
  then have "?t = trim s @ rev u" by (metis rev_append rev_rev_ident)
  then have "hd ?t = hd (trim s)" "?t \<noteq> []" using ne by auto
  then show ?thesis using last hd_dropWhile by metis
qed

lemma trim_idem: "trim (trim s) = trim s"
proof (cases "trim s = []")
  case True
  then show ?thesis by (simp only: True) (simp add: trim_def)
next
  case False
  then obtain c t d u where "trim s = c # t" "trim s = u @ [d]" "\<not> isspace c" "\<not> isspace d"
    using trim_last_first [OF False] by (metis append_butlast_last_id list.exhaust_sel)
  then show ?thesis by (metis dropWhile.simps(2) rev.simps(2) rev_eq_Cons_iff rev_rev_ident trim_def)
qed

lemma nat_to_string_digits: "set (nat_to_string n) \<subseteq> {c. isdigit c}"
proof (induction n rule: nat_to_string.induct)
  case (1 n)
  have d: "isdigit (digit_char n)"
    by (simp add: isdigit_def digit_char_def less_eq_char_def)
  show ?case
    by (subst nat_to_string.simps) (use 1 d in auto)
qed

lemma nat_to_string_nonempty [simp]: "nat_to_string n \<noteq> []"
  by (subst nat_to_string.simps) simp

lemma digits_val_snoc [simp]: "digits_val (s @ [c]) = 10 * digits_val s + digit_val c"
  by (simp add: digits_val_def)

lemma digits_val_nat_to_string [simp]: "digits_val (nat_to_string n) = int n"
proof (induction n rule: nat_to_string.induct)
  case (1 n)
  have d: "digit_val (digit_char n) = int (n mod 10)"
    by (simp add: digit_val_def digit_char_def of_char_of)
  show ?case
  proof (cases "n < 10")
    case True
    then show ?thesis using d by (subst nat_to_string.simps) (simp add: digits_val_def)
  next
    case False
    with 1 have "digits_val (nat_to_string (n div 10)) = int (n div 10)" by simp
    moreover have "10 * int (n div 10) + int (n mod 10) = int n" by presburger
    ultimately show ?thesis using False d by (subst nat_to_string.simps) simp
  qed
qed

lemma nat_to_string_inj: "nat_to_string m = nat_to_string n \<Longrightarrow> m = n"
  by (metis digits_val_nat_to_string of_nat_eq_iff)

end
