(* ===== verification/Double.thy ===== *)
theory Double
  imports RS_Prelude
begin

text \<open>
  The C++ type \<open>double\<close> (IEEE 754 binary64) as far as the sources use it: reading an integer
  as a double, multiplying, comparing and \<open>std::llround\<close>. A finite double is \<open>Fin m e\<close>,
  standing for \<open>m * 2 ^ e\<close>; every arithmetic result is rounded to 53 bits, ties to even, with
  gradual underflow at \<open>2 ^ -1074\<close> and overflow to an infinity. Signed zeros are not
  distinguished: no comparison or conversion of the sources does.
\<close>

datatype double = Fin int int | Infinite bool | NaN

fun bits :: "nat \<Rightarrow> nat" where
  "bits n = (if n = 0 then 0 else Suc (bits (n div 2)))"

declare bits.simps [simp del]

text \<open>\<open>m / 2 ^ s\<close> rounded to the nearest integer, ties to even.\<close>

definition round_shift :: "int \<Rightarrow> nat \<Rightarrow> int" where
  "round_shift m s =
     (let q = m div 2 ^ s; r = m mod 2 ^ s in
      if 2 * r < 2 ^ s then q else if 2 ^ s < 2 * r then q + 1 else if even q then q else q + 1)"

definition double_of :: "int \<Rightarrow> int \<Rightarrow> double" where
  "double_of m e =
     (let s = max (int (bits (nat \<bar>m\<bar>)) - 53) (- 1074 - e);
          m' = (if s \<le> 0 then m else round_shift m (nat s));
          e' = (if s \<le> 0 then e else e + s) in
      if m' \<noteq> 0 \<and> 1024 < int (bits (nat \<bar>m'\<bar>)) + e' then Infinite (m' < 0) else Fin m' e')"

definition double_of_int :: "int \<Rightarrow> double" where
  "double_of_int n = double_of n 0"

fun dneg :: "double \<Rightarrow> bool" where
  "dneg (Fin m e) = (m < 0)"
| "dneg (Infinite s) = s"
| "dneg NaN = False"

fun dmul :: "double \<Rightarrow> double \<Rightarrow> double" where
  "dmul (Fin a e) (Fin b f) = double_of (a * b) (e + f)"
| "dmul NaN y = NaN"
| "dmul x NaN = NaN"
| "dmul (Infinite s) (Fin b f) = (if b = 0 then NaN else Infinite (s \<noteq> (b < 0)))"
| "dmul (Fin a e) (Infinite s) = (if a = 0 then NaN else Infinite (s \<noteq> (a < 0)))"
| "dmul (Infinite s) (Infinite t) = Infinite (s \<noteq> t)"

text \<open>The comparison \<open>x < y\<close>; false when either side is a NaN.\<close>

fun dless :: "double \<Rightarrow> double \<Rightarrow> bool" where
  "dless (Fin a e) (Fin b f) = (a * 2 ^ nat (e - min e f) < b * 2 ^ nat (f - min e f))"
| "dless (Infinite s) (Fin b f) = s"
| "dless (Fin a e) (Infinite s) = (\<not> s)"
| "dless (Infinite s) (Infinite t) = (s \<and> \<not> t)"
| "dless NaN y = False"
| "dless x NaN = False"

definition dzero :: double where
  "dzero = Fin 0 0"

fun isfinite :: "double \<Rightarrow> bool" where
  "isfinite (Fin m e) = True"
| "isfinite (Infinite s) = False"
| "isfinite NaN = False"

text \<open>\<open>std::max (x, y)\<close> is \<open>x < y ? y : x\<close>.\<close>

definition dmax :: "double \<Rightarrow> double \<Rightarrow> double" where
  "dmax x y = (if dless x y then y else x)"

text \<open>Nearest integer, halfway cases away from zero.\<close>

definition round_half_away :: "int \<Rightarrow> int \<Rightarrow> int" where
  "round_half_away m e =
     (if 0 \<le> e then m * 2 ^ nat e
      else sgn m * ((2 * \<bar>m\<bar> + 2 ^ nat (- e)) div (2 * 2 ^ nat (- e))))"

definition in_int64 :: "int \<Rightarrow> bool" where
  "in_int64 n \<longleftrightarrow> - (2 ^ 63) \<le> n \<and> n < 2 ^ 63"

text \<open>
  \<open>std::llround\<close>. The C++ standard leaves the result unspecified when the argument is not
  finite or the rounded value does not fit; that value is the parameter \<open>unspec\<close>.
\<close>

fun llround :: "(double \<Rightarrow> int) \<Rightarrow> double \<Rightarrow> int" where
  "llround unspec (Fin m e) =
     (if in_int64 (round_half_away m e) then round_half_away m e else unspec (Fin m e))"
| "llround unspec x = unspec x"

section \<open>Bit lengths and rounding\<close>

lemma bits_0 [simp]: "bits 0 = 0"
  by (simp add: bits.simps)

lemma less_two_power_bits: "n < 2 ^ bits n"
proof (induction n rule: bits.induct)
  case (1 n)
  show ?case
  proof (cases "n = 0")
    case False
    with 1 have "n div 2 < 2 ^ bits (n div 2)" by simp
    then have "n < 2 * 2 ^ bits (n div 2)" by linarith
    with False show ?thesis by (simp add: bits.simps [of n])
  qed simp
qed

lemma two_power_bits_le: "n \<noteq> 0 \<Longrightarrow> 2 ^ bits n \<le> 2 * n"
proof (induction n rule: bits.induct)
  case (1 n)
  show ?case
  proof (cases "n div 2 = 0")
    case True
    with 1 have "n = 1" by simp
    then show ?thesis by (simp add: bits.simps)
  next
    case False
    with 1 have "2 ^ bits (n div 2) \<le> 2 * (n div 2)" by simp
    with 1 show ?thesis by (simp add: bits.simps [of n])
  qed
qed

lemma bits_le_iff: "bits n \<le> k \<longleftrightarrow> n < 2 ^ k"
proof
  assume "bits n \<le> k"
  then have "(2::nat) ^ bits n \<le> 2 ^ k" by simp
  then show "n < 2 ^ k" using less_two_power_bits [of n] by linarith
next
  assume "n < 2 ^ k"
  show "bits n \<le> k"
  proof (rule ccontr)
    assume "\<not> bits n \<le> k"
    then have "Suc k \<le> bits n" by simp
    then have "(2::nat) ^ Suc k \<le> 2 ^ bits n" by (rule power_increasing) simp
    moreover have "n \<noteq> 0" using \<open>\<not> bits n \<le> k\<close> by (cases "n = 0") auto
    ultimately show False using two_power_bits_le [of n] \<open>n < 2 ^ k\<close> by simp
  qed
qed

text \<open>An integer of at most 53 bits is represented exactly.\<close>

lemma double_of_exact:
  assumes "\<bar>m\<bar> < 2 ^ 53" and "- 1074 \<le> e" and "e \<le> 971"
  shows "double_of m e = Fin m e"
proof -
  have "nat \<bar>m\<bar> < 2 ^ 53" using assms(1) by (simp add: nat_less_iff)
  then have "bits (nat \<bar>m\<bar>) \<le> 53" by (simp only: bits_le_iff)
  then show ?thesis using assms(2,3) by (simp add: double_of_def Let_def)
qed

lemma llround_int [simp]:
  "in_int64 n \<Longrightarrow> llround unspec (Fin n 0) = n"
  by (simp add: round_half_away_def)

lemma round_half_away_nonneg: "0 \<le> m \<Longrightarrow> 0 \<le> round_half_away m e"
  by (auto simp: round_half_away_def sgn_if pos_imp_zdiv_nonneg_iff)

end
