(* ===== verification/Chrono.thy ===== *)
theory Chrono
  imports RS_Prelude
begin

text \<open>
  The calendar part of the C++20 library \<open>std::chrono\<close> that the sources call:
  \<open>year_month_day::ok\<close> and the conversion to \<open>sys_days\<close>. The constructors
  \<open>month{unsigned}\<close> and \<open>day{unsigned}\<close> keep the value's low eight bits. The lemmas show
  that \<open>sys_days\<close> counts days: one more for the next calendar day, and strictly
  increasing in the calendar order.
\<close>

definition is_leap :: "int \<Rightarrow> bool" where
  "is_leap y \<longleftrightarrow> y mod 4 = 0 \<and> (y mod 100 \<noteq> 0 \<or> y mod 400 = 0)"

definition last_day :: "int \<Rightarrow> int \<Rightarrow> int" where
  "last_day y m =
     (if m = 2 then (if is_leap y then 29 else 28)
      else if m = 4 \<or> m = 6 \<or> m = 9 \<or> m = 11 then 30 else 31)"

type_synonym ymd = "int \<times> int \<times> int"

text \<open>\<open>month{static_cast<unsigned>(n)}\<close> and \<open>day{static_cast<unsigned>(n)}\<close>.\<close>

definition to_uchar :: "int \<Rightarrow> int" where
  "to_uchar n = (n mod 2 ^ 32) mod 2 ^ 8"

fun ymd_ok :: "ymd \<Rightarrow> bool" where
  "ymd_ok (y, m, d) = (- 32767 \<le> y \<and> y \<le> 32767 \<and> 1 \<le> m \<and> m \<le> 12 \<and> 1 \<le> d \<and> d \<le> last_day y m)"

text \<open>Leap days up to a year, and the days before the first of a month counted from 1970-01-01.\<close>

definition leaps :: "int \<Rightarrow> int" where
  "leaps y = y div 4 - y div 100 + y div 400"

definition month_start :: "int \<Rightarrow> int \<Rightarrow> int" where
  "month_start y m =
     (let y' = (if m \<le> 2 then y - 1 else y); mp = (if m \<le> 2 then m + 9 else m - 3) in
      365 * y' + leaps y' + (153 * mp + 2) div 5 - 719468)"

fun sys_days :: "ymd \<Rightarrow> int" where
  "sys_days (y, m, d) = month_start y m + (d - 1)"

fun next_day :: "ymd \<Rightarrow> ymd" where
  "next_day (y, m, d) =
     (if d < last_day y m then (y, m, d + 1)
      else if m < 12 then (y, m + 1, 1) else (y + 1, 1, 1))"

lemma sys_days_epoch: "sys_days (1970, 1, 1) = 0"
  by (simp add: month_start_def leaps_def)

lemma month_cases:
  assumes "1 \<le> m" "m \<le> (12::int)"
  shows "m = 1 \<or> m = 2 \<or> m = 3 \<or> m = 4 \<or> m = 5 \<or> m = 6 \<or> m = 7 \<or> m = 8 \<or> m = 9 \<or> m = 10 \<or> m = 11 \<or> m = 12"
  using assms by presburger

lemma div_pred:
  assumes "1 < (k::int)"
  shows "(y - 1) div k = y div k - (if y mod k = 0 then 1 else 0)"
proof (cases "y mod k = 0")
  case True
  have "y - 1 = k * (y div k - 1) + (k - 1)"
    using True by (simp add: algebra_simps) (metis add.right_neutral mult.commute mult_div_mod_eq)
  then have "(y - 1) div k = y div k - 1"
    by (rule int_div_pos_eq) (use assms in auto)
  with True show ?thesis by simp
next
  case False
  have "0 \<le> y mod k" "y mod k < k" using assms by auto
  then have r: "0 \<le> y mod k - 1" "y mod k - 1 < k" using False by linarith+
  have "y - 1 = k * (y div k) + (y mod k - 1)" by (simp add: algebra_simps)
  then have "(y - 1) div k = y div k" using r by (rule int_div_pos_eq)
  with False show ?thesis by simp
qed

lemma leap_arith:
  fixes d4 d100 d400 e4 e100 e400 :: int
  assumes "c \<longrightarrow> f" "q \<longrightarrow> c"
    and "e4 = d4 - (if f then 1 else 0)" "e100 = d100 - (if c then 1 else 0)"
    and "e400 = d400 - (if q then 1 else 0)"
  shows "d4 - d100 + d400 - (e4 - e100 + e400) = (if f \<and> (\<not> c \<or> q) then 1 else 0)"
  using assms by (cases f; cases c; cases q) simp_all

lemma leap_days:
  fixes y :: int
  shows "leaps y - leaps (y - 1) = (if is_leap y then 1 else 0)"
proof -
  have a: "y mod 4 = 0" if "y mod 100 = 0"
    using that dvd_trans [of 4 100 y] by (simp add: mod_eq_0_iff_dvd)
  have b: "y mod 100 = 0" if "y mod 400 = 0"
    using that dvd_trans [of 100 400 y] by (simp add: mod_eq_0_iff_dvd)
  have "(y - 1) div 4 = y div 4 - (if y mod 4 = 0 then 1 else 0)"
    "(y - 1) div 100 = y div 100 - (if y mod 100 = 0 then 1 else 0)"
    "(y - 1) div 400 = y div 400 - (if y mod 400 = 0 then 1 else 0)"
    by (rule div_pred, simp)+
  then show ?thesis
    unfolding is_leap_def leaps_def by (intro leap_arith) (use a b in blast)+
qed

lemma month_start_Suc:
  assumes "1 \<le> m" "m < 12"
  shows "month_start y (m + 1) = month_start y m + last_day y m"
proof -
  have "m = 1 \<or> m = 2 \<or> m = 3 \<or> m = 4 \<or> m = 5 \<or> m = 6 \<or> m = 7 \<or> m = 8 \<or> m = 9 \<or> m = 10 \<or> m = 11"
    using month_cases [of m] assms by auto
  then show ?thesis
    using leap_days [of y]
    by (elim disjE) (simp_all add: month_start_def last_day_def Let_def split: if_splits)
qed

lemma month_start_year: "month_start (y + 1) 1 = month_start y 12 + 31"
  by (simp add: month_start_def Let_def)

lemma next_day_counts:
  assumes "1 \<le> m" "m \<le> 12" "1 \<le> d" "d \<le> last_day y m"
  shows "sys_days (next_day (y, m, d)) = sys_days (y, m, d) + 1"
  using assms month_start_Suc [of m y] month_start_year [of y]
  by (auto simp: last_day_def [of y 12])

lemma next_day_valid:
  assumes "1 \<le> m" "m \<le> 12" "1 \<le> d" "d \<le> last_day y m" "next_day (y, m, d) = (y', m', d')"
  shows "1 \<le> m' \<and> m' \<le> 12 \<and> 1 \<le> d' \<and> d' \<le> last_day y' m' \<and> y \<le> y'"
  using assms by (auto simp: last_day_def split: if_splits)

text \<open>C0: \<open>std::chrono::sys_days\<close> counts calendar days: the day after a calendar date has the next number.\<close>

theorem sys_days_next_day:
  "ymd_ok x \<Longrightarrow> sys_days (next_day x) = sys_days x + 1"
  by (cases x) (auto simp del: sys_days.simps next_day.simps intro: next_day_counts)

theorem sys_days_next_day_witness: "sys_days (next_day (2024, 2, 28)) = sys_days (2024, 2, 28) + 1"
  by (rule sys_days_next_day) code_simp

lemma last_day_bounds: "28 \<le> last_day y m \<and> last_day y m \<le> 31"
  by (auto simp: last_day_def)

end
