(* ===== verification/JsonInput.thy ===== *)
theory JsonInput
  imports RS_Prelude Double Chrono "HOL-Library.Word"
begin

text \<open>
  JSON values as \<open>nlohmann::json\<close> holds them, and the typed field readers of request bodies
  (\<^verbatim>\<open>src/src/receipts/JsonInput.h\<close>, \<^verbatim>\<open>JsonInput.cpp\<close>). An object is the list of its
  members in the iteration order of the library's \<open>std::map\<close>; a non-negative integer literal
  is a \<open>number_unsigned\<close> of 64 bits, a negative one a \<open>number_integer\<close> of 64 bits, as the
  parser of the library stores them, and \<open>JDiscarded\<close> is the value of a body that does not
  parse. The lemmas say what each reader accepts and what it returns.
\<close>

datatype json =
    JNull
  | JBool bool
  | JInteger "64 word"
  | JUnsigned "64 word"
  | JFloat double
  | JString string
  | JArray "json list"
  | JObject "(string \<times> json) list"
  | JDiscarded

fun is_null :: "json \<Rightarrow> bool" where
  "is_null JNull = True"
| "is_null _ = False"

fun is_object :: "json \<Rightarrow> bool" where
  "is_object (JObject _) = True"
| "is_object _ = False"

fun members :: "json \<Rightarrow> (string \<times> json) list" where
  "members (JObject ms) = ms"
| "members _ = []"

definition jfind :: "json \<Rightarrow> string \<Rightarrow> json option" where
  "jfind body key = map_of (members body) key"

definition jcontains :: "json \<Rightarrow> string \<Rightarrow> bool" where
  "jcontains body key \<longleftrightarrow> jfind body key \<noteq> None"

text \<open>\<open>get<double>()\<close> on a number; \<open>None\<close> when the value is not one.\<close>

fun get_number :: "json \<Rightarrow> double option" where
  "get_number (JInteger i) = Some (double_of_int (sint i))"
| "get_number (JUnsigned u) = Some (double_of_int (uint u))"
| "get_number (JFloat d) = Some d"
| "get_number _ = None"

section \<open>Readers\<close>

definition fail :: "string \<Rightarrow> string \<Rightarrow> error + 'a" where
  "fail field problem = Inl (ValidationError (field @ '' '' @ problem))"

fun asInt64 :: "json \<Rightarrow> int option" where
  "asInt64 (JUnsigned u) = (if uint u > 2 ^ 63 - 1 then None else Some (uint u))"
| "asInt64 (JInteger i) = Some (sint i)"
| "asInt64 _ = None"

definition requireObject :: "json \<Rightarrow> error + unit" where
  "requireObject body =
     (if is_object body then Inr () else Inl (ValidationError ''request body must be a JSON object''))"

fun rejectKeys :: "(string \<times> json) list \<Rightarrow> string list \<Rightarrow> error + unit" where
  "rejectKeys [] allowed = Inr ()"
| "rejectKeys ((key, v) # ms) allowed =
     (if key \<in> set allowed then rejectKeys ms allowed else fail key ''is not a recognized field'')"

definition rejectUnknownKeys :: "json \<Rightarrow> string list \<Rightarrow> error + unit" where
  "rejectUnknownKeys body allowed = rejectKeys (members body) allowed"

fun requiredString :: "json \<Rightarrow> string \<Rightarrow> error + string" where
  "requiredString (JString v) field =
     (let s = trim v in if s = [] then fail field ''must not be empty'' else Inr s)"
| "requiredString _ field = fail field ''must be a string''"

fun nullableString :: "json \<Rightarrow> string \<Rightarrow> error + string option" where
  "nullableString JNull field = Inr None"
| "nullableString (JString v) field = (let s = trim v in Inr (if s = [] then None else Some s))"
| "nullableString _ field = fail field ''must be a string or null''"

definition cents :: "json \<Rightarrow> string \<Rightarrow> error + int" where
  "cents value field =
     (case asInt64 value of
        None \<Rightarrow> fail field ''must be a non-negative integer (cents)''
      | Some n \<Rightarrow> if n < 0 then fail field ''must be a non-negative integer (cents)'' else Inr n)"

definition nullableCents :: "json \<Rightarrow> string \<Rightarrow> error + int option" where
  "nullableCents value field =
     (if is_null value then Inr None else rbind (cents value field) (\<lambda>n. Inr (Some n)))"

definition nullableId :: "json \<Rightarrow> string \<Rightarrow> error + int option" where
  "nullableId value field =
     (if is_null value then Inr None
      else case asInt64 value of
        None \<Rightarrow> fail field ''must be a positive integer id or null''
      | Some n \<Rightarrow> if n \<le> 0 then fail field ''must be a positive integer id or null'' else Inr (Some n))"

fun boolean :: "json \<Rightarrow> string \<Rightarrow> error + bool" where
  "boolean (JBool b) field = Inr b"
| "boolean _ field = fail field ''must be true or false''"

definition date_shaped :: "string \<Rightarrow> bool" where
  "date_shaped s \<longleftrightarrow> length s = 10 \<and> s ! 4 = CHR ''-'' \<and> s ! 7 = CHR ''-'' \<and>
     list_all (\<lambda>c. c = CHR ''-'' \<or> isdigit c) s"

text \<open>The \<open>year_month_day\<close> that both \<open>date\<close> and \<open>daysBetween\<close> build from a date string.\<close>

definition parse_ymd :: "string \<Rightarrow> error + ymd" where
  "parse_ymd s =
     rbind (stoi (substr s 0 4)) (\<lambda>y.
     rbind (stoi (substr s 5 2)) (\<lambda>m.
     rbind (stoi (substr s 8 2)) (\<lambda>d.
     Inr (y, to_uchar m, to_uchar d))))"

fun date :: "json \<Rightarrow> string \<Rightarrow> error + string" where
  "date (JString s) field =
     (if \<not> date_shaped s then fail field ''must be a YYYY-MM-DD string''
      else rbind (parse_ymd s) (\<lambda>ymd.
        if \<not> ymd_ok ymd then fail field ''is not a real calendar date'' else Inr s))"
| "date _ field = fail field ''must be a YYYY-MM-DD string''"

definition nullableDate :: "json \<Rightarrow> string \<Rightarrow> error + string option" where
  "nullableDate value field =
     (if is_null value then Inr None else rbind (date value field) (\<lambda>s. Inr (Some s)))"

fun currency :: "json \<Rightarrow> string \<Rightarrow> error + string" where
  "currency (JString s) field =
     (if length s \<noteq> 3 \<or> \<not> list_all isalpha s then fail field ''must be a 3-letter currency code''
      else Inr (map to_upper s))"
| "currency _ field = fail field ''must be a 3-letter currency code''"

definition nullablePositiveNumber :: "json \<Rightarrow> string \<Rightarrow> error + double option" where
  "nullablePositiveNumber value field =
     (if is_null value then Inr None
      else case get_number value of
        None \<Rightarrow> fail field ''must be a positive number or null''
      | Some x \<Rightarrow>
          if \<not> isfinite x \<or> \<not> dless dzero x then fail field ''must be a positive number or null''
          else Inr (Some x))"

fun idList_loop :: "json list \<Rightarrow> string \<Rightarrow> int list \<Rightarrow> error + int list" where
  "idList_loop [] field ids = Inr ids"
| "idList_loop (element # rest) field ids =
     (case asInt64 element of
        None \<Rightarrow> fail field ''must be an array of positive integer ids''
      | Some n \<Rightarrow>
          if n \<le> 0 then fail field ''must be an array of positive integer ids''
          else idList_loop rest field (if n \<in> set ids then ids else ids @ [n]))"

fun idList :: "json \<Rightarrow> string \<Rightarrow> error + int list" where
  "idList (JArray elements) field = idList_loop elements field []"
| "idList _ field = fail field ''must be an array of ids''"

definition setIfPresent :: "json \<Rightarrow> string \<Rightarrow> 'a \<Rightarrow> (json \<Rightarrow> string \<Rightarrow> error + 'a) \<Rightarrow> error + 'a" where
  "setIfPresent body key target read =
     (case jfind body key of None \<Rightarrow> Inr target | Some v \<Rightarrow> read v key)"

section \<open>What the readers accept\<close>

named_theorems reader_ok \<open>what a successful reader returned\<close>
named_theorems reader_err \<open>what a failing reader threw\<close>

text \<open>The exceptions a request parser may let out: a \<open>ValidationError\<close>, which the controllers
  turn into a 400, or the \<open>std::invalid_argument\<close> of \<open>std::stoi\<close>, which becomes a 500.\<close>

fun input_error :: "error \<Rightarrow> bool" where
  "input_error (ValidationError m) = True"
| "input_error (InvalidArgument m) = True"
| "input_error _ = False"

fun is_validation :: "error \<Rightarrow> bool" where
  "is_validation (ValidationError m) = True"
| "is_validation _ = False"

lemma is_validation_input [simp]: "is_validation e \<Longrightarrow> input_error e"
  by (cases e) auto

lemma fail_eq [simp]:
  "fail field problem = Inl e \<longleftrightarrow> e = ValidationError (field @ '' '' @ problem)"
  "Inl e = fail field problem \<longleftrightarrow> e = ValidationError (field @ '' '' @ problem)"
  "fail field problem = Inr x \<longleftrightarrow> False"
  by (auto simp: fail_def)

lemma jcontains_iff [simp]: "jcontains body key \<longleftrightarrow> (\<exists>v. jfind body key = Some v)"
  by (auto simp: jcontains_def)

lemma jfind_members: "jfind body key = Some v \<Longrightarrow> (key, v) \<in> set (members body)"
  by (auto simp: jfind_def dest: map_of_SomeD)

lemma asInt64_range: "asInt64 v = Some n \<Longrightarrow> in_int64 n"
proof (induction v rule: asInt64.induct)
  case (2 i)
  then show ?case using sint_range_size [of i] by (auto simp: in_int64_def word_size)
qed (auto simp: in_int64_def split: if_splits intro: order_trans [OF _ uint_ge_0])

lemma requireObject_ok [res_simps]: "requireObject body = Inr u \<longleftrightarrow> is_object body"
  by (simp add: requireObject_def)

lemma rejectKeys_ok: "rejectKeys ms allowed = Inr u \<longleftrightarrow> fst ` set ms \<subseteq> set allowed"
  by (induction ms allowed rule: rejectKeys.induct) auto

lemma rejectUnknownKeys_ok [res_simps]:
  "rejectUnknownKeys body allowed = Inr u \<longleftrightarrow> fst ` set (members body) \<subseteq> set allowed"
  by (simp add: rejectUnknownKeys_def rejectKeys_ok)

lemma cents_ok [reader_ok]: "cents v field = Inr n \<Longrightarrow> 0 \<le> n \<and> in_int64 n"
  by (auto simp: cents_def asInt64_range split: option.splits if_splits)

lemma nullableCents_ok [reader_ok]: "nullableCents v field = Inr (Some n) \<Longrightarrow> 0 \<le> n \<and> in_int64 n"
  by (auto simp: nullableCents_def res_simps dest: cents_ok split: if_splits)

lemma nullableId_ok [reader_ok]: "nullableId v field = Inr (Some n) \<Longrightarrow> 0 < n \<and> in_int64 n"
  by (auto simp: nullableId_def asInt64_range split: option.splits if_splits)

lemma requiredString_ok [reader_ok]:
  "requiredString v field = Inr s \<Longrightarrow> s \<noteq> [] \<and> trim s = s"
  by (cases v) (auto simp: Let_def trim_idem split: if_splits)

lemma nullableString_ok [reader_ok]:
  "nullableString v field = Inr (Some s) \<Longrightarrow> s \<noteq> [] \<and> trim s = s"
  by (cases v) (auto simp: Let_def trim_idem split: if_splits)

definition currency_code :: "string \<Rightarrow> bool" where
  "currency_code s \<longleftrightarrow> length s = 3 \<and> list_all isupper s"

lemma currency_ok [reader_ok]: "currency v field = Inr s \<Longrightarrow> currency_code s"
  by (cases v) (auto simp: currency_code_def list_all_iff isupper_to_upper split: if_splits)

lemma isupper_not_islower: "isupper c \<Longrightarrow> \<not> islower c"
  by (auto simp: isupper_def islower_def less_eq_char_def)

lemma currency_fix: "currency_code s \<Longrightarrow> currency (JString s) field = Inr s"
  by (auto simp: currency_code_def list_all_iff isalpha_def to_upper_def isupper_not_islower
      intro!: map_idI)

lemma nullablePositiveNumber_ok [reader_ok]:
  "nullablePositiveNumber v field = Inr (Some x) \<Longrightarrow> isfinite x \<and> dless dzero x"
  by (auto simp: nullablePositiveNumber_def split: option.splits if_splits)

definition date_string :: "string \<Rightarrow> bool" where
  "date_string s \<longleftrightarrow> date_shaped s \<and> (\<exists>ymd. parse_ymd s = Inr ymd \<and> ymd_ok ymd)"

lemma date_eq_Inr [res_simps]: "date v field = Inr s \<longleftrightarrow> v = JString s \<and> date_string s"
  by (cases v) (auto simp: date_string_def res_simps split: if_splits)

lemma nullableDate_ok [reader_ok]: "nullableDate v field = Inr (Some s) \<Longrightarrow> date_string s"
  by (auto simp: nullableDate_def res_simps split: if_splits)

lemma setIfPresent_ok:
  assumes "setIfPresent body key target read = Inr x"
    and "\<And>v. read v key = Inr x \<Longrightarrow> P x" and "P target"
  shows "P x"
  using assms by (auto simp: setIfPresent_def split: option.splits)

lemma setIfPresent_absent: "jfind body key = None \<Longrightarrow> setIfPresent body key target read = Inr target"
  by (simp add: setIfPresent_def)

section \<open>What the readers throw\<close>

lemma digits_val_bounds:
  "list_all isdigit ds \<Longrightarrow> 0 \<le> digits_val ds \<and> digits_val ds < 10 ^ length ds"
proof (induction ds rule: rev_induct)
  case Nil
  then show ?case by (simp add: digits_val_def)
next
  case (snoc c ds)
  then have "0 \<le> digit_val c" "digit_val c \<le> 9"
    by (auto simp: isdigit_def digit_val_def less_eq_char_def)
  with snoc show ?case by auto
qed

lemma stoi_body_length:
  assumes "stoi_body s = (sg, r)"
  shows "length r \<le> length s \<and> (sg = 1 \<or> sg = - 1)"
proof -
  define t where "t = dropWhile isspace s"
  have "length t \<le> length s" by (simp add: t_def length_dropWhile_le)
  then show ?thesis
    using assms unfolding stoi_body_def t_def [symmetric] by (cases t) (auto split: if_splits)
qed

lemma stoi_err:
  assumes "stoi s = Inl e" and "length s \<le> 4"
  shows "e = InvalidArgument ''stoi''"
proof (rule ccontr)
  assume ne: "e \<noteq> InvalidArgument ''stoi''"
  obtain sg r where b: "stoi_body s = (sg, r)" by (cases "stoi_body s") auto
  define ds where "ds = takeWhile isdigit r"
  then have "length r \<le> 4" and sg: "sg = 1 \<or> sg = - 1"
    using stoi_body_length [OF b] assms(2) by auto
  then have "length ds \<le> 4"
    using length_takeWhile_le [of isdigit r] by (simp add: ds_def)
  moreover have ds: "0 \<le> digits_val ds" "digits_val ds < 10 ^ length ds"
    using digits_val_bounds [of ds] by (auto simp: ds_def list_all_iff dest: set_takeWhileD)
  ultimately have "digits_val ds < 10 ^ 4"
    using power_increasing [of "length ds" 4 "10::int"] by linarith
  with ds sg assms(1) ne b show False
    by (auto simp: stoi_def Let_def ds_def split: if_splits)
qed

lemma parse_ymd_err: "parse_ymd s = Inl e \<Longrightarrow> e = InvalidArgument ''stoi''"
  by (auto simp: parse_ymd_def res_simps substr_def intro: stoi_err)

lemma reader_errors [reader_err]:
  "requireObject v = Inl e \<Longrightarrow> is_validation e"
  "requiredString v field = Inl e \<Longrightarrow> is_validation e"
  "nullableString v field = Inl e \<Longrightarrow> is_validation e"
  "cents v field = Inl e \<Longrightarrow> is_validation e"
  "nullableCents v field = Inl e \<Longrightarrow> is_validation e"
  "nullableId v field = Inl e \<Longrightarrow> is_validation e"
  "boolean v field = Inl e \<Longrightarrow> is_validation e"
  "currency v field = Inl e \<Longrightarrow> is_validation e"
  "nullablePositiveNumber v field = Inl e \<Longrightarrow> is_validation e"
  by (auto simp: requireObject_def cents_def nullableCents_def nullableId_def
      nullablePositiveNumber_def Let_def res_simps
      elim!: requiredString.elims nullableString.elims boolean.elims currency.elims
      split: if_splits option.splits)

lemma rejectKeys_err [reader_err]: "rejectKeys ms allowed = Inl e \<Longrightarrow> is_validation e"
  by (induction ms allowed rule: rejectKeys.induct) (auto split: if_splits)

lemma rejectUnknownKeys_err [reader_err]: "rejectUnknownKeys v allowed = Inl e \<Longrightarrow> is_validation e"
  by (simp add: rejectUnknownKeys_def reader_err)

lemma date_err [reader_err]: "date v field = Inl e \<Longrightarrow> input_error e"
  by (cases v) (auto simp: res_simps dest!: parse_ymd_err split: if_splits)

lemma nullableDate_err [reader_err]: "nullableDate v field = Inl e \<Longrightarrow> input_error e"
  by (auto simp: nullableDate_def res_simps dest: date_err split: if_splits)

lemma setIfPresent_err:
  assumes "setIfPresent body key target read = Inl e"
    and "\<And>v. read v key = Inl e \<Longrightarrow> P e"
  shows "P e"
  using assms by (auto simp: setIfPresent_def split: option.splits)

section \<open>Id lists\<close>

lemma idList_loop_spec:
  "idList_loop es field ids = Inr out \<longleftrightarrow>
     (\<exists>ns. map asInt64 es = map Some ns \<and> list_all (\<lambda>n. 0 < n) ns \<and>
           out = ids @ filter (\<lambda>n. n \<notin> set ids) (rev (remdups (rev ns))))"
proof (induction es arbitrary: ids)
  case Nil
  then show ?case by auto
next
  case (Cons e es)
  show ?case
  proof (cases "asInt64 e")
    case None
    then show ?thesis by auto
  next
    case (Some n)
    have remdups_Cons: "rev (remdups (rev (n # ns))) = n # filter (\<lambda>x. x \<noteq> n) (rev (remdups (rev ns)))"
      for ns :: "int list"
    proof (induction ns rule: rev_induct)
      case (snoc x ns)
      then show ?case by auto
    qed simp
    show ?thesis
    proof (cases "0 < n")
      case False
      with Some show ?thesis by (auto simp: Cons_eq_map_conv)
    next
      case True
      let ?ids' = "if n \<in> set ids then ids else ids @ [n]"
      have key: "?ids' @ filter (\<lambda>x. x \<notin> set ?ids') (rev (remdups (rev ns))) =
          ids @ filter (\<lambda>x. x \<notin> set ids) (rev (remdups (rev (n # ns))))" for ns
        unfolding remdups_Cons by (auto intro!: filter_cong)
      have "idList_loop (e # es) field ids = Inr out \<longleftrightarrow>
          (\<exists>ns. map asInt64 es = map Some ns \<and> list_all (\<lambda>n. 0 < n) ns \<and>
             out = ids @ filter (\<lambda>x. x \<notin> set ids) (rev (remdups (rev (n # ns)))))"
        using Some True by (simp only: idList_loop.simps option.case if_not_P not_le Cons key refl)
      also have "\<dots> \<longleftrightarrow> (\<exists>ns. map asInt64 (e # es) = map Some ns \<and> list_all (\<lambda>n. 0 < n) ns \<and>
             out = ids @ filter (\<lambda>x. x \<notin> set ids) (rev (remdups (rev ns))))"
        using Some True by (auto simp: Cons_eq_map_conv simp del: rev.simps remdups.simps)
      finally show ?thesis .
    qed
  qed
qed

lemma idList_ok [reader_ok]:
  "idList v field = Inr ids \<Longrightarrow> distinct ids \<and> list_all (\<lambda>n. 0 < n) ids"
  by (cases v) (auto simp: idList_loop_spec list_all_iff)

lemma idList_err [reader_err]: "idList v field = Inl e \<Longrightarrow> is_validation e"
proof -
  have "idList_loop es field ids = Inl e \<Longrightarrow> is_validation e" for es ids
    by (induction es field ids rule: idList_loop.induct) (auto split: option.splits if_splits)
  then show "idList v field = Inl e \<Longrightarrow> is_validation e"
    by (cases v) auto
qed

section \<open>Dates\<close>

text \<open>The canonical text of a calendar date.\<close>

definition pad2 :: "nat \<Rightarrow> string" where
  "pad2 n = [digit_char (n div 10), digit_char n]"

definition pad4 :: "nat \<Rightarrow> string" where
  "pad4 n = [digit_char (n div 1000), digit_char (n div 100), digit_char (n div 10), digit_char n]"

definition fmt_date :: "nat \<Rightarrow> nat \<Rightarrow> nat \<Rightarrow> string" where
  "fmt_date y m d = pad4 y @ ''-'' @ pad2 m @ ''-'' @ pad2 d"

lemma digit_char_isdigit [simp]: "isdigit (digit_char n)"
  by (simp add: isdigit_def digit_char_def less_eq_char_def)

lemma digit_val_digit_char [simp]: "digit_val (digit_char n) = int (n mod 10)"
  by (simp add: digit_val_def digit_char_def of_char_of)

lemma isdigit_not [simp]:
  "isdigit c \<Longrightarrow> \<not> isspace c" "isdigit c \<Longrightarrow> c \<noteq> CHR ''-''" "isdigit c \<Longrightarrow> c \<noteq> CHR ''+''"
  by (auto simp: isdigit_def isspace_def less_eq_char_def)

lemma stoi_digits:
  assumes "ds \<noteq> []" and "list_all isdigit ds" and "length ds \<le> 4"
  shows "stoi ds = Inr (digits_val ds)"
proof -
  obtain c t where ds: "ds = c # t" using assms(1) by (cases ds) auto
  then have "isdigit c" using assms(2) by simp
  then have b: "stoi_body ds = (1, ds)" by (simp add: ds stoi_body_def)
  have t: "takeWhile isdigit ds = ds" using assms(2) by (simp add: takeWhile_eq_all_conv list_all_iff)
  have "0 \<le> digits_val ds" "digits_val ds < 10 ^ 4"
    using digits_val_bounds [OF assms(2)] power_increasing [OF assms(3), of "10::int"] by auto
  then show ?thesis unfolding stoi_def b Let_def prod.case t using assms(1) by simp
qed

lemma stoi_pad2: "n < 100 \<Longrightarrow> stoi (pad2 n) = Inr (int n)"
proof -
  assume "n < 100"
  then have "digits_val (pad2 n) = int n"
    by (simp add: pad2_def digits_val_def) presburger
  then show ?thesis by (subst stoi_digits) (auto simp: pad2_def)
qed

lemma four_digits:
  fixes n :: nat
  assumes "n < 10000"
  shows "10 * (10 * (10 * int (n div 1000 mod 10) + int (n div 100 mod 10)) + int (n div 10 mod 10)) +
    int (n mod 10) = int n"
proof -
  have split: "int k = 10 * int (k div 10) + int (k mod 10)" for k :: nat by presburger
  have "n div 100 = n div 10 div 10" "n div 1000 = n div 10 div 10 div 10"
    by (simp_all flip: div_mult2_eq)
  moreover have "n div 10 div 10 div 10 mod 10 = n div 10 div 10 div 10"
    using assms by (simp flip: div_mult2_eq)
  ultimately show ?thesis
    using split [of n] split [of "n div 10"] split [of "n div 10 div 10"] by simp
qed

lemma stoi_pad4: "n < 10000 \<Longrightarrow> stoi (pad4 n) = Inr (int n)"
proof -
  assume "n < 10000"
  then have "digits_val (pad4 n) = int n"
    using four_digits [of n] unfolding pad4_def digits_val_def foldl.simps digit_val_digit_char
    by (simp only: mult_zero_right add_0)
  then show ?thesis by (subst stoi_digits) (auto simp: pad4_def)
qed

lemma to_uchar_small: "0 \<le> n \<Longrightarrow> n < 256 \<Longrightarrow> to_uchar n = n"
  by (simp add: to_uchar_def)

lemma parse_ymd_fmt:
  assumes "y < 10000" "m < 100" "d < 100"
  shows "parse_ymd (fmt_date y m d) = Inr (int y, int m, int d)"
proof -
  have "substr (fmt_date y m d) 0 4 = pad4 y" "substr (fmt_date y m d) 5 2 = pad2 m"
    "substr (fmt_date y m d) 8 2 = pad2 d"
    by (simp_all add: substr_def fmt_date_def pad4_def pad2_def)
  then show ?thesis
    using assms by (simp add: parse_ymd_def stoi_pad2 stoi_pad4 to_uchar_small)
qed

lemma date_shaped_fmt: "date_shaped (fmt_date y m d)"
  by (simp add: date_shaped_def fmt_date_def pad4_def pad2_def)

section \<open>Properties\<close>

text \<open>C38: a well-formed date text round-trips: for a four-digit year, two-digit month and two-digit
  day, \<open>date\<close> returns the text unchanged exactly when it names a day of the proleptic Gregorian
  calendar, and rejects it as \<open>not a real calendar date\<close> otherwise.\<close>

theorem date_accepts_calendar_dates:
  assumes "y < 10000" "m < 100" "d < 100"
  shows "date (JString (fmt_date y m d)) field =
     (if 1 \<le> m \<and> m \<le> 12 \<and> 1 \<le> d \<and> int d \<le> last_day (int y) (int m) then Inr (fmt_date y m d)
      else Inl (ValidationError (field @ '' '' @ ''is not a real calendar date'')))"
  using assms by (auto simp: parse_ymd_fmt date_shaped_fmt fail_def)

theorem date_accepts_calendar_dates_witness:
  "date (JString (fmt_date 2024 2 29)) ''d'' = Inr ''2024-02-29'' \<and>
   date (JString (fmt_date 2023 2 29)) ''d'' = Inl (ValidationError ''d is not a real calendar date'')"
proof -
  have days: "last_day (int 2024) (int 2) = 29" "last_day (int 2023) (int 2) = 28" by code_simp+
  have txt2024: "fmt_date 2024 2 29 = ''2024-02-29''" by code_simp
  show ?thesis
    using date_accepts_calendar_dates [of 2024 2 29 "''d''"] date_accepts_calendar_dates [of 2023 2 29 "''d''"]
    unfolding days txt2024 by simp
qed


text \<open>\<open>idList\<close> accepts exactly the arrays of positive 64-bit integers and returns their values
  without repetitions, each at the position of its first occurrence.\<close>

theorem idList_first_occurrences:
  "idList (JArray elements) field = Inr ids \<longleftrightarrow>
     (\<exists>ns. map asInt64 elements = map Some ns \<and> list_all (\<lambda>n. 0 < n) ns \<and> ids = rev (remdups (rev ns)))"
  by (simp add: idList_loop_spec)

text \<open>money fields accept exactly the integers of [0, 2^63): an unsigned literal up to the largest
  \<open>int64\<close>, a negative literal never, and never a float, string or null.\<close>

theorem cents_range:
  "(\<exists>n. cents v field = Inr n) \<longleftrightarrow>
     (case v of JUnsigned u \<Rightarrow> uint u < 2 ^ 63 | JInteger i \<Rightarrow> 0 \<le> sint i | _ \<Rightarrow> False)"
  by (cases v) (auto simp: cents_def)

end
