(* ===== verification/Kinds.thy ===== *)
theory Kinds
  imports RS_Prelude
begin

text \<open>
  The transaction-kind and direction tables (\<^verbatim>\<open>src/src/receipts/Kinds.h\<close>,
  \<^verbatim>\<open>Kinds.cpp\<close>) and the scan-state and source domains
  (\<^verbatim>\<open>ReceiptStates.h\<close>). Kinds stay strings, as in the code: every function that takes a
  kind looks it up in \<open>kKinds\<close>. The lemmas list the whole table behind each lookup, state the
  agreement of the table with the CHECK constraints of the schema, and characterise the two
  generated strings.
\<close>

section \<open>The kind table\<close>

record KindRules =
  kr_name :: string
  kr_canonicalDirection :: "string option"
  kr_allowsTaxDeductible :: bool
  kr_canOffset :: bool
  kr_isOffsetTarget :: bool
  kr_usesIncomeCategories :: bool
  kr_scanDocuments :: string
  kr_scanTotal :: string
  kr_scanRules :: string

definition scannable :: "KindRules \<Rightarrow> bool" where
  "scannable r \<longleftrightarrow> kr_scanDocuments r \<noteq> []"

definition purchase_scanDocuments :: string where
  "purchase_scanDocuments =
   ''a receipt, tax invoice or order confirmation for something bought''"

definition purchase_scanTotal :: string where
  "purchase_scanTotal =
   ''the final amount paid, after discounts and including tax, surcharges and tips that are printed''"

definition refund_scanDocuments :: string where
  "refund_scanDocuments =
   ''a return or refund docket from the business that sold something: money back for a return''"

definition refund_scanTotal :: string where
  "refund_scanTotal =
   ''the amount refunded''"

definition reimbursement_scanDocuments :: string where
  "reimbursement_scanDocuments =
   ''proof that someone (an employer, a friend) paid the user back for an expense: an expense app '' @
   ''or claim marked reimbursed or paid, a remittance advice, a payment notification''"

definition reimbursement_scanTotal :: string where
  "reimbursement_scanTotal =
   ''the amount actually paid back to the user for the expense shown, in the currency it was paid '' @
   ''in, which may differ from the expense's own amount (e.g. after currency conversion); if a '' @
   ''deposit covers several expenses, only this expense's share''"

definition reimbursement_scanRules :: string where
  "reimbursement_scanRules =
   ''merchant is whoever paid the user back (an employer, a friend, a perks program), or null if '' @
   ''the documents don't name them; not the business where the expense was made. purchase_date '' @
   ''is the date the money was paid back (null if only the expense date is shown).'' @
   [CHR 0x0A] @
   ''- The items say what the money was paid back for, in the total's currency, and add up to the '' @
   ''total. When the documents say what each part of the payment was for (a payment note such as '' @
   [CHR 0x22] @
   ''pho'' @
   [CHR 0x22] @
   '', an expense claim that lists its lines), list one item per part, with the category that fits '' @
   ''it. Otherwise (a lump sum, a vague note such as '' @
   [CHR 0x22] @
   ''dinner'' @
   [CHR 0x22] @
   '', or expense lines that don't add up to the amount paid back), list exactly one item: name '' @
   [CHR 0x22] @
   ''Reimbursement'' @
   [CHR 0x22] @
   '', amount equal to the total, category the one that best fits the expense.''"

definition income_scanDocuments :: string where
  "income_scanDocuments =
   ''a payslip, pay advice or paycheck''"

definition income_scanTotal :: string where
  "income_scanTotal =
   ''the NET pay (the take-home amount paid into the bank), never the gross''"

definition income_scanRules :: string where
  "income_scanRules =
   ''merchant and store_name_raw are the employer, and purchase_date is the pay date.'' @
   [CHR 0x0A] @
   ''- Exactly one item with informational=false: name '' @
   [CHR 0x22] @
   ''Net pay'' @
   [CHR 0x22] @
   '', amount equal to the total.'' @
   [CHR 0x0A] @
   ''- Optionally, gross pay, tax withheld, superannuation and other deductions as separate items '' @
   ''with informational=true and category null.''"

definition kKinds :: "KindRules list" where
  "kKinds =
     [\<lparr>kr_name = ''purchase'', kr_canonicalDirection = Some ''outflow'', kr_allowsTaxDeductible = True,
       kr_canOffset = False, kr_isOffsetTarget = True, kr_usesIncomeCategories = False,
       kr_scanDocuments = purchase_scanDocuments, kr_scanTotal = purchase_scanTotal,
       kr_scanRules = []\<rparr>,
      \<lparr>kr_name = ''refund'', kr_canonicalDirection = Some ''inflow'', kr_allowsTaxDeductible = False,
       kr_canOffset = True, kr_isOffsetTarget = False, kr_usesIncomeCategories = False,
       kr_scanDocuments = refund_scanDocuments, kr_scanTotal = refund_scanTotal,
       kr_scanRules = []\<rparr>,
      \<lparr>kr_name = ''reimbursement'', kr_canonicalDirection = Some ''inflow'', kr_allowsTaxDeductible = False,
       kr_canOffset = True, kr_isOffsetTarget = False, kr_usesIncomeCategories = False,
       kr_scanDocuments = reimbursement_scanDocuments, kr_scanTotal = reimbursement_scanTotal,
       kr_scanRules = reimbursement_scanRules\<rparr>,
      \<lparr>kr_name = ''income'', kr_canonicalDirection = Some ''inflow'', kr_allowsTaxDeductible = False,
       kr_canOffset = False, kr_isOffsetTarget = False, kr_usesIncomeCategories = True,
       kr_scanDocuments = income_scanDocuments, kr_scanTotal = income_scanTotal,
       kr_scanRules = income_scanRules\<rparr>,
      \<lparr>kr_name = ''transfer'', kr_canonicalDirection = None, kr_allowsTaxDeductible = False,
       kr_canOffset = False, kr_isOffsetTarget = False, kr_usesIncomeCategories = False,
       kr_scanDocuments = [], kr_scanTotal = [],
       kr_scanRules = []\<rparr>]"

definition kDirections :: "string list" where
  "kDirections = [''inflow'', ''outflow'']"

definition kDefaultKind :: string where
  "kDefaultKind = ''purchase''"

text \<open>The loops of \<open>findKind\<close>, \<open>isKnownDirection\<close>, \<open>kindNames\<close> and \<open>incomeKindsSqlList\<close>.\<close>

fun findKind_in :: "KindRules list \<Rightarrow> string \<Rightarrow> KindRules option" where
  "findKind_in [] kind = None"
| "findKind_in (rules # rest) kind = (if kr_name rules = kind then Some rules else findKind_in rest kind)"

definition findKind :: "string \<Rightarrow> KindRules option" where
  "findKind kind = findKind_in kKinds kind"

definition rulesFor :: "string \<Rightarrow> error + KindRules" where
  "rulesFor kind =
     (case findKind kind of
        None \<Rightarrow> Inl (LogicError (''unknown kind: '' @ kind))
      | Some rules \<Rightarrow> Inr rules)"

definition isKnownDirection :: "string \<Rightarrow> bool" where
  "isKnownDirection direction \<longleftrightarrow> direction \<in> set kDirections"

definition kindNames :: string where
  "kindNames =
     foldl (\<lambda>names rules. names @ (if names = [] then [] else '', '') @ kr_name rules) [] kKinds"

definition incomeKindsSqlList :: string where
  "incomeKindsSqlList =
     ''('' @
     foldl (\<lambda>list rules. if kr_usesIncomeCategories rules
        then list @ (if list = [] then [CHR 0x27] else '', '' @ [CHR 0x27]) @ kr_name rules @ [CHR 0x27]
        else list) [] kKinds @ '')''"

section \<open>Scan states and sources\<close>

definition kIdle :: string where "kIdle = ''idle''"
definition kUploaded :: string where "kUploaded = ''uploaded''"
definition kScanning :: string where "kScanning = ''scanning''"
definition kScanFailed :: string where "kScanFailed = ''scan_failed''"
definition scan_states :: "string list" where "scan_states = [kIdle, kUploaded, kScanning, kScanFailed]"

definition kScanned :: string where "kScanned = ''scanned''"
definition kManual :: string where "kManual = ''manual''"
definition kRecurring :: string where "kRecurring = ''recurring''"
definition sources :: "string list" where "sources = [kScanned, kManual, kRecurring]"

lemmas state_defs = kIdle_def kUploaded_def kScanning_def kScanFailed_def
lemmas source_defs = kScanned_def kManual_def kRecurring_def

section \<open>Lookups in the table\<close>

lemma scan_texts_nonempty [simp]:
  "purchase_scanDocuments \<noteq> []" "refund_scanDocuments \<noteq> []"
  "reimbursement_scanDocuments \<noteq> []" "income_scanDocuments \<noteq> []"
  by (simp_all add: purchase_scanDocuments_def refund_scanDocuments_def
      reimbursement_scanDocuments_def income_scanDocuments_def)

lemma findKind_in_Some:
  "findKind_in ks kind = Some r \<Longrightarrow> r \<in> set ks \<and> kr_name r = kind"
  by (induction ks) (auto split: if_splits)

lemma findKind_in_None:
  "findKind_in ks kind = None \<longleftrightarrow> kind \<notin> kr_name ` set ks"
  by (induction ks) auto

lemma findKind_name: "findKind kind = Some r \<Longrightarrow> kr_name r = kind"
  by (auto simp: findKind_def dest: findKind_in_Some)

lemma findKind_known:
  "findKind kind \<noteq> None \<longleftrightarrow>
     kind \<in> {''purchase'', ''refund'', ''reimbursement'', ''income'', ''transfer''}"
  by (simp add: findKind_def findKind_in_None kKinds_def)

lemma kind_cases [consumes 1, case_names purchase refund reimbursement income transfer]:
  assumes "findKind kind = Some r"
    and "kind = ''purchase'' \<Longrightarrow> kr_canonicalDirection r = Some ''outflow'' \<Longrightarrow> kr_allowsTaxDeductible r \<Longrightarrow>
      \<not> kr_canOffset r \<Longrightarrow> kr_isOffsetTarget r \<Longrightarrow> \<not> kr_usesIncomeCategories r \<Longrightarrow> scannable r \<Longrightarrow> P"
    and "kind = ''refund'' \<Longrightarrow> kr_canonicalDirection r = Some ''inflow'' \<Longrightarrow> \<not> kr_allowsTaxDeductible r \<Longrightarrow>
      kr_canOffset r \<Longrightarrow> \<not> kr_isOffsetTarget r \<Longrightarrow> \<not> kr_usesIncomeCategories r \<Longrightarrow> scannable r \<Longrightarrow> P"
    and "kind = ''reimbursement'' \<Longrightarrow> kr_canonicalDirection r = Some ''inflow'' \<Longrightarrow> \<not> kr_allowsTaxDeductible r \<Longrightarrow>
      kr_canOffset r \<Longrightarrow> \<not> kr_isOffsetTarget r \<Longrightarrow> \<not> kr_usesIncomeCategories r \<Longrightarrow> scannable r \<Longrightarrow> P"
    and "kind = ''income'' \<Longrightarrow> kr_canonicalDirection r = Some ''inflow'' \<Longrightarrow> \<not> kr_allowsTaxDeductible r \<Longrightarrow>
      \<not> kr_canOffset r \<Longrightarrow> \<not> kr_isOffsetTarget r \<Longrightarrow> kr_usesIncomeCategories r \<Longrightarrow> scannable r \<Longrightarrow> P"
    and "kind = ''transfer'' \<Longrightarrow> kr_canonicalDirection r = None \<Longrightarrow> \<not> kr_allowsTaxDeductible r \<Longrightarrow>
      \<not> kr_canOffset r \<Longrightarrow> \<not> kr_isOffsetTarget r \<Longrightarrow> \<not> kr_usesIncomeCategories r \<Longrightarrow> \<not> scannable r \<Longrightarrow> P"
  shows P
proof -
  have r: "r \<in> set kKinds" "kr_name r = kind"
    using assms(1) by (auto simp: findKind_def dest: findKind_in_Some)
  show P
    using r assms(2-6) unfolding kKinds_def by (auto simp: scannable_def)
qed

lemma rulesFor_eq_Inr [res_simps]: "rulesFor kind = Inr r \<longleftrightarrow> findKind kind = Some r"
  by (simp add: rulesFor_def split: option.splits)

text \<open>The \<open>static_assert\<close> of the header: extraction reads the direction of a scannable kind.\<close>

lemma scannable_has_direction:
  "findKind kind = Some r \<Longrightarrow> scannable r \<Longrightarrow> kr_canonicalDirection r \<noteq> None"
  by (erule kind_cases) auto

lemma canonicalDirection_known:
  "findKind kind = Some r \<Longrightarrow> kr_canonicalDirection r = Some d \<Longrightarrow> isKnownDirection d"
  by (erule kind_cases) (auto simp: isKnownDirection_def kDirections_def)

lemma kindNames_eq: "kindNames = ''purchase, refund, reimbursement, income, transfer''"
  by (simp add: kindNames_def kKinds_def)

lemma incomeKindsSqlList_eq: "incomeKindsSqlList = ''('' @ [CHR 0x27] @ ''income'' @ [CHR 0x27] @ '')''"
  by (simp add: incomeKindsSqlList_def kKinds_def)

end
