(* ===== verification/LedgerInput.thy ===== *)
theory LedgerInput
  imports JsonInput Kinds
begin

text \<open>
  Request bodies to validated structs for manual entry, receipt PATCH and item create/patch
  (\<^verbatim>\<open>src/src/receipts/LedgerInput.h\<close>, \<^verbatim>\<open>LedgerInput.cpp\<close>), with the transaction-kind rules
  that need no database. Reference parameters become results: \<open>applyReceiptPatch\<close> returns the
  patched receipt and \<open>markReviewed\<close>, \<open>applyItemPatch\<close> the patched item and \<open>tagsGiven\<close>.
  The lemmas give the shape of every accepted body, the errors of every rejected one, and
  the PATCH frame: absent keys keep their values.
\<close>

section \<open>Structs\<close>

record EditableReceipt =
  er_kind :: string
  er_direction :: string
  er_totalCents :: int
  er_currency :: string
  er_merchant :: "string option"
  er_storeNameRaw :: "string option"
  er_purchaseDate :: "string option"
  er_paymentMethodId :: "int option"
  er_taxDeductible :: bool
  er_note :: "string option"
  er_offsetsReceiptId :: "int option"
  er_fxRateToAud :: "double option"

definition default_direction :: string where
  "default_direction =
     (case findKind kDefaultKind of
        None \<Rightarrow> []
      | Some rules \<Rightarrow> (case kr_canonicalDirection rules of None \<Rightarrow> [] | Some d \<Rightarrow> d))"

definition EditableReceipt_init :: EditableReceipt where
  "EditableReceipt_init =
     \<lparr>er_kind = kDefaultKind, er_direction = default_direction, er_totalCents = 0,
      er_currency = ''AUD'', er_merchant = None, er_storeNameRaw = None, er_purchaseDate = None,
      er_paymentMethodId = None, er_taxDeductible = False, er_note = None,
      er_offsetsReceiptId = None, er_fxRateToAud = None\<rparr>"

record ItemInput =
  ii_name :: "string option"
  ii_quantity :: "double option"
  ii_unitPriceCents :: "int option"
  ii_amountCents :: int
  ii_categoryId :: "int option"
  ii_informational :: bool
  ii_tagIds :: "int list"

definition ItemInput_init :: ItemInput where
  "ItemInput_init =
     \<lparr>ii_name = None, ii_quantity = None, ii_unitPriceCents = None, ii_amountCents = 0,
      ii_categoryId = None, ii_informational = False, ii_tagIds = []\<rparr>"

record ManualEntryInput =
  me_receipt :: EditableReceipt
  me_categoryId :: "int option"
  me_items :: "ItemInput list"

section \<open>Parsing\<close>

definition parseKind :: "json \<Rightarrow> error + string" where
  "parseKind value =
     rbind (requiredString value ''kind'') (\<lambda>kind.
     if findKind kind = None then Inl (ValidationError (''kind must be one of '' @ kindNames))
     else Inr kind)"

definition parseDirection :: "json \<Rightarrow> error + string" where
  "parseDirection value =
     rbind (requiredString value ''direction'') (\<lambda>direction.
     if \<not> isKnownDirection direction then Inl (ValidationError ''direction must be inflow or outflow'')
     else Inr direction)"

definition applyCommonReceiptFields :: "EditableReceipt \<Rightarrow> json \<Rightarrow> error + EditableReceipt" where
  "applyCommonReceiptFields r body =
     rbind (setIfPresent body ''total_cents'' (er_totalCents r) cents) (\<lambda>total.
     rbind (setIfPresent body ''currency'' (er_currency r) currency) (\<lambda>cur.
     rbind (setIfPresent body ''merchant'' (er_merchant r) nullableString) (\<lambda>merchant.
     rbind (setIfPresent body ''purchase_date'' (er_purchaseDate r) nullableDate) (\<lambda>pdate.
     rbind (setIfPresent body ''payment_method_id'' (er_paymentMethodId r) nullableId) (\<lambda>pm.
     rbind (setIfPresent body ''tax_deductible'' (er_taxDeductible r) boolean) (\<lambda>tax.
     rbind (setIfPresent body ''note'' (er_note r) nullableString) (\<lambda>note.
     rbind (setIfPresent body ''offsets_receipt_id'' (er_offsetsReceiptId r) nullableId) (\<lambda>offs.
     rbind (setIfPresent body ''fx_rate_to_aud'' (er_fxRateToAud r) nullablePositiveNumber) (\<lambda>fx.
     Inr (r\<lparr>er_totalCents := total, er_currency := cur, er_merchant := merchant,
            er_purchaseDate := pdate, er_paymentMethodId := pm, er_taxDeductible := tax,
            er_note := note, er_offsetsReceiptId := offs, er_fxRateToAud := fx\<rparr>))))))))))"

definition applyItemFields :: "ItemInput \<Rightarrow> json \<Rightarrow> error + ItemInput" where
  "applyItemFields item body =
     rbind (setIfPresent body ''name'' (ii_name item) nullableString) (\<lambda>name.
     rbind (setIfPresent body ''quantity'' (ii_quantity item) nullablePositiveNumber) (\<lambda>quantity.
     rbind (setIfPresent body ''unit_price_cents'' (ii_unitPriceCents item) nullableCents) (\<lambda>unitPrice.
     rbind (setIfPresent body ''amount_cents'' (ii_amountCents item) cents) (\<lambda>amount.
     rbind (setIfPresent body ''category_id'' (ii_categoryId item) nullableId) (\<lambda>cat.
     rbind (setIfPresent body ''informational'' (ii_informational item) boolean) (\<lambda>info.
     rbind (setIfPresent body ''tag_ids'' (ii_tagIds item) idList) (\<lambda>tags.
     Inr (item\<lparr>ii_name := name, ii_quantity := quantity, ii_unitPriceCents := unitPrice,
               ii_amountCents := amount, ii_categoryId := cat, ii_informational := info,
               ii_tagIds := tags\<rparr>))))))))"

definition rejectUnknownItemKeys :: "json \<Rightarrow> error + unit" where
  "rejectUnknownItemKeys body =
     rejectUnknownKeys body [''name'', ''quantity'', ''unit_price_cents'', ''amount_cents'',
       ''category_id'', ''informational'', ''tag_ids'']"

definition validateReceipt :: "EditableReceipt \<Rightarrow> error + unit" where
  "validateReceipt r =
     rbind (rulesFor (er_kind r)) (\<lambda>rules.
     if kr_canonicalDirection rules \<noteq> None \<and> kr_canonicalDirection rules \<noteq> Some (er_direction r)
     then Inl (ValidationError (''direction must be '' @ the (kr_canonicalDirection rules) @
                                '' when kind is '' @ er_kind r))
     else if er_taxDeductible r \<and> \<not> kr_allowsTaxDeductible rules
     then Inl (ValidationError (''tax_deductible is not allowed when kind is '' @ er_kind r))
     else if er_offsetsReceiptId r \<noteq> None \<and> \<not> kr_canOffset rules
     then Inl (ValidationError (''offsets_receipt_id is not allowed when kind is '' @ er_kind r))
     else if er_fxRateToAud r \<noteq> None \<and> er_currency r = ''AUD''
     then Inl (ValidationError ''fx_rate_to_aud only applies to non-AUD currencies'')
     else Inr ())"

definition parseNewItem :: "json \<Rightarrow> error + ItemInput" where
  "parseNewItem body =
     rbind (requireObject body) (\<lambda>_.
     rbind (rejectUnknownItemKeys body) (\<lambda>_.
     if \<not> jcontains body ''amount_cents'' then Inl (ValidationError ''amount_cents is required'')
     else applyItemFields ItemInput_init body))"

definition manual_keys :: "string list" where
  "manual_keys =
     [''kind'', ''direction'', ''total_cents'', ''currency'', ''merchant'', ''purchase_date'',
      ''payment_method_id'', ''tax_deductible'', ''note'', ''offsets_receipt_id'',
      ''fx_rate_to_aud'', ''category_id'', ''items'']"

text \<open>\<open>if (body.contains("kind")) r.kind = parseKind(body["kind"]);\<close>\<close>

definition kind_or :: "json \<Rightarrow> string \<Rightarrow> error + string" where
  "kind_or body kind = (case jfind body ''kind'' of None \<Rightarrow> Inr kind | Some v \<Rightarrow> parseKind v)"

definition manual_direction :: "json \<Rightarrow> string \<Rightarrow> error + string" where
  "manual_direction body kind =
     (case jfind body ''direction'' of
        Some v \<Rightarrow> parseDirection v
      | None \<Rightarrow> rbind (rulesFor kind) (\<lambda>rules.
          case kr_canonicalDirection rules of
            Some canonical \<Rightarrow> Inr canonical
          | None \<Rightarrow> Inl (ValidationError (''direction is required when kind is '' @ kind))))"

definition manual_items :: "json \<Rightarrow> int option \<Rightarrow> error + ItemInput list" where
  "manual_items body categoryId =
     (case jfind body ''items'' of
        None \<Rightarrow> Inr []
      | Some (JArray elements) \<Rightarrow>
          if categoryId \<noteq> None
          then Inl (ValidationError ''send either category_id (one implicit item) or items, not both'')
          else rmap parseNewItem elements
      | Some _ \<Rightarrow> Inl (ValidationError ''items must be an array''))"

definition parseManualEntry :: "json \<Rightarrow> error + ManualEntryInput" where
  "parseManualEntry body =
     rbind (requireObject body) (\<lambda>_.
     rbind (rejectUnknownKeys body manual_keys) (\<lambda>_.
     if \<not> jcontains body ''total_cents'' then Inl (ValidationError ''total_cents is required'')
     else
     rbind (kind_or body (er_kind EditableReceipt_init)) (\<lambda>kind.
     rbind (applyCommonReceiptFields (EditableReceipt_init\<lparr>er_kind := kind\<rparr>) body) (\<lambda>r.
     rbind (manual_direction body (er_kind r)) (\<lambda>direction.
     rbind (setIfPresent body ''category_id'' None nullableId) (\<lambda>categoryId.
     rbind (manual_items body categoryId) (\<lambda>items.
     rbind (validateReceipt (r\<lparr>er_direction := direction\<rparr>)) (\<lambda>_.
     Inr \<lparr>me_receipt = r\<lparr>er_direction := direction\<rparr>, me_categoryId = categoryId, me_items = items\<rparr>))))))))"

definition patch_keys :: "string list" where
  "patch_keys =
     [''kind'', ''direction'', ''total_cents'', ''currency'', ''merchant'', ''store_name_raw'',
      ''purchase_date'', ''payment_method_id'', ''tax_deductible'', ''note'',
      ''offsets_receipt_id'', ''fx_rate_to_aud'', ''reviewed'']"

text \<open>The direction a patched kind implies when the body sends no direction.\<close>

definition patch_kind :: "EditableReceipt \<Rightarrow> json \<Rightarrow> error + EditableReceipt" where
  "patch_kind r body =
     (case jfind body ''kind'' of
        None \<Rightarrow> Inr r
      | Some v \<Rightarrow>
          rbind (parseKind v) (\<lambda>kind.
          if jcontains body ''direction'' then Inr (r\<lparr>er_kind := kind\<rparr>)
          else rbind (rulesFor kind) (\<lambda>rules.
            case kr_canonicalDirection rules of
              Some canonical \<Rightarrow> Inr (r\<lparr>er_kind := kind, er_direction := canonical\<rparr>)
            | None \<Rightarrow> Inr (r\<lparr>er_kind := kind\<rparr>))))"

definition patch_direction :: "EditableReceipt \<Rightarrow> json \<Rightarrow> error + EditableReceipt" where
  "patch_direction r body =
     (case jfind body ''direction'' of
        None \<Rightarrow> Inr r
      | Some v \<Rightarrow> rbind (parseDirection v) (\<lambda>direction. Inr (r\<lparr>er_direction := direction\<rparr>)))"

definition patch_reviewed :: "json \<Rightarrow> error + bool" where
  "patch_reviewed body =
     (case jfind body ''reviewed'' of
        None \<Rightarrow> Inr False
      | Some v \<Rightarrow>
          rbind (boolean v ''reviewed'') (\<lambda>b.
          if \<not> b then Inl (ValidationError ''reviewed only accepts true'') else Inr True))"

definition applyReceiptPatch :: "EditableReceipt \<Rightarrow> json \<Rightarrow> error + (EditableReceipt \<times> bool)" where
  "applyReceiptPatch r body =
     rbind (requireObject body) (\<lambda>_.
     rbind (rejectUnknownKeys body patch_keys) (\<lambda>_.
     rbind (patch_kind r body) (\<lambda>r1.
     rbind (patch_direction r1 body) (\<lambda>r2.
     rbind (setIfPresent body ''store_name_raw'' (er_storeNameRaw r2) nullableString) (\<lambda>store.
     rbind (applyCommonReceiptFields (r2\<lparr>er_storeNameRaw := store\<rparr>) body) (\<lambda>r3.
     rbind (patch_reviewed body) (\<lambda>markReviewed.
     rbind (validateReceipt r3) (\<lambda>_.
     Inr (r3, markReviewed)))))))))"

definition applyItemPatch :: "ItemInput \<Rightarrow> json \<Rightarrow> error + (ItemInput \<times> bool)" where
  "applyItemPatch item body =
     rbind (requireObject body) (\<lambda>_.
     rbind (rejectUnknownItemKeys body) (\<lambda>_.
     rbind (applyItemFields item body) (\<lambda>item'.
     Inr (item', jcontains body ''tag_ids''))))"

definition categoryFitsKind :: "bool \<Rightarrow> string \<Rightarrow> error + bool" where
  "categoryFitsKind categoryIsIncome kind =
     rbind (rulesFor kind) (\<lambda>rules. Inr (categoryIsIncome = kr_usesIncomeCategories rules))"

definition audEquivalentCents :: "(double \<Rightarrow> int) \<Rightarrow> int \<Rightarrow> double option \<Rightarrow> int option" where
  "audEquivalentCents unspec totalCents fxRateToAud =
     (case fxRateToAud of
        None \<Rightarrow> None
      | Some rate \<Rightarrow> Some (llround unspec (dmul (double_of_int totalCents) rate)))"

section \<open>Well-formed inputs\<close>

text \<open>The rules of \<open>validateReceipt\<close> as a predicate, and the shape of every receipt that a parsed
  body can produce.\<close>

definition kind_rules_hold :: "EditableReceipt \<Rightarrow> bool" where
  "kind_rules_hold r \<longleftrightarrow>
     (case findKind (er_kind r) of
        None \<Rightarrow> False
      | Some rules \<Rightarrow>
          (kr_canonicalDirection rules = None \<or> kr_canonicalDirection rules = Some (er_direction r)) \<and>
          (er_taxDeductible r \<longrightarrow> kr_allowsTaxDeductible rules) \<and>
          (er_offsetsReceiptId r \<noteq> None \<longrightarrow> kr_canOffset rules) \<and>
          (er_fxRateToAud r \<noteq> None \<longrightarrow> er_currency r \<noteq> ''AUD''))"

fun opt_all :: "('a \<Rightarrow> bool) \<Rightarrow> 'a option \<Rightarrow> bool" where
  "opt_all P None = True"
| "opt_all P (Some x) = P x"

definition wf_editable :: "EditableReceipt \<Rightarrow> bool" where
  "wf_editable r \<longleftrightarrow> kind_rules_hold r \<and> isKnownDirection (er_direction r) \<and>
     0 \<le> er_totalCents r \<and> in_int64 (er_totalCents r) \<and> currency_code (er_currency r) \<and>
     opt_all (\<lambda>n. 0 < n) (er_paymentMethodId r) \<and> opt_all (\<lambda>n. 0 < n) (er_offsetsReceiptId r) \<and>
     opt_all (\<lambda>x. isfinite x \<and> dless dzero x) (er_fxRateToAud r)"

definition wf_item :: "ItemInput \<Rightarrow> bool" where
  "wf_item i \<longleftrightarrow> 0 \<le> ii_amountCents i \<and> in_int64 (ii_amountCents i) \<and>
     opt_all (\<lambda>n. 0 \<le> n \<and> in_int64 n) (ii_unitPriceCents i) \<and>
     opt_all (\<lambda>x. isfinite x \<and> dless dzero x) (ii_quantity i) \<and>
     opt_all (\<lambda>n. 0 < n) (ii_categoryId i) \<and> distinct (ii_tagIds i)"

lemma opt_all_Inr:
  "(\<And>x. y = Some x \<Longrightarrow> P x) \<Longrightarrow> opt_all P y"
  by (cases y) auto

lemma guard_chain:
  "(if a then Inl e else x) = Inr u \<longleftrightarrow> \<not> a \<and> x = Inr u"
  by simp

lemma Inr_unit_True: "Inr () = Inr u \<longleftrightarrow> True"
  by simp

lemma validateReceipt_iff [res_simps]: "validateReceipt r = Inr u \<longleftrightarrow> kind_rules_hold r"
proof (cases "findKind (er_kind r)")
  case None
  then show ?thesis by (simp (no_asm_simp) add: validateReceipt_def kind_rules_hold_def rulesFor_def)
next
  case (Some rules)
  then show ?thesis
    unfolding validateReceipt_def kind_rules_hold_def rulesFor_def
    by (simp (no_asm_simp) only: rbind_Inr option.simps guard_chain Inr_unit_True
          de_Morgan_conj not_not imp_conv_disj simp_thms)
qed

lemma default_direction_eq: "default_direction = ''outflow''"
  by (simp add: default_direction_def kDefaultKind_def findKind_def kKinds_def)

lemma parseKind_ok [reader_ok]: "parseKind v = Inr k \<Longrightarrow> \<exists>r. findKind k = Some r"
  by (auto simp: parseKind_def res_simps split: if_splits)

lemma parseDirection_ok [reader_ok]: "parseDirection v = Inr d \<Longrightarrow> isKnownDirection d"
  by (auto simp: parseDirection_def res_simps split: if_splits)

lemma applyCommonReceiptFields_fields:
  assumes "applyCommonReceiptFields r body = Inr r'"
  shows "er_kind r' = er_kind r" "er_direction r' = er_direction r"
    "er_storeNameRaw r' = er_storeNameRaw r"
    "setIfPresent body ''total_cents'' (er_totalCents r) cents = Inr (er_totalCents r')"
    "setIfPresent body ''currency'' (er_currency r) currency = Inr (er_currency r')"
    "setIfPresent body ''merchant'' (er_merchant r) nullableString = Inr (er_merchant r')"
    "setIfPresent body ''purchase_date'' (er_purchaseDate r) nullableDate = Inr (er_purchaseDate r')"
    "setIfPresent body ''payment_method_id'' (er_paymentMethodId r) nullableId = Inr (er_paymentMethodId r')"
    "setIfPresent body ''tax_deductible'' (er_taxDeductible r) boolean = Inr (er_taxDeductible r')"
    "setIfPresent body ''note'' (er_note r) nullableString = Inr (er_note r')"
    "setIfPresent body ''offsets_receipt_id'' (er_offsetsReceiptId r) nullableId = Inr (er_offsetsReceiptId r')"
    "setIfPresent body ''fx_rate_to_aud'' (er_fxRateToAud r) nullablePositiveNumber = Inr (er_fxRateToAud r')"
  using assms unfolding applyCommonReceiptFields_def rbind_eq_Inr
  by - (elim exE conjE, drule Inr_inject, hypsubst, (simp (no_asm); fail | simp (no_asm), assumption))+

lemma applyItemFields_fields:
  assumes "applyItemFields i body = Inr i'"
  shows "setIfPresent body ''name'' (ii_name i) nullableString = Inr (ii_name i')"
    "setIfPresent body ''quantity'' (ii_quantity i) nullablePositiveNumber = Inr (ii_quantity i')"
    "setIfPresent body ''unit_price_cents'' (ii_unitPriceCents i) nullableCents = Inr (ii_unitPriceCents i')"
    "setIfPresent body ''amount_cents'' (ii_amountCents i) cents = Inr (ii_amountCents i')"
    "setIfPresent body ''category_id'' (ii_categoryId i) nullableId = Inr (ii_categoryId i')"
    "setIfPresent body ''informational'' (ii_informational i) boolean = Inr (ii_informational i')"
    "setIfPresent body ''tag_ids'' (ii_tagIds i) idList = Inr (ii_tagIds i')"
  using assms unfolding applyItemFields_def rbind_eq_Inr
  by - (elim exE conjE, drule Inr_inject, hypsubst, (simp (no_asm); fail | simp (no_asm), assumption))+

lemma present_cents:
  "setIfPresent body key t cents = Inr x \<Longrightarrow> 0 \<le> t \<and> in_int64 t \<Longrightarrow> 0 \<le> x \<and> in_int64 x"
  by (erule setIfPresent_ok [where P = "\<lambda>x. 0 \<le> x \<and> in_int64 x"]) (auto dest: cents_ok)

lemma present_opt:
  assumes "setIfPresent body key t read = Inr x" and "opt_all P t"
    and "\<And>v y. read v key = Inr (Some y) \<Longrightarrow> P y"
  shows "opt_all P x"
  by (rule setIfPresent_ok [OF assms(1), where P = "opt_all P"])
     (auto intro: opt_all_Inr assms(2,3))

lemma applyCommonReceiptFields_wf:
  assumes ok: "applyCommonReceiptFields r body = Inr r'"
    and total: "0 \<le> er_totalCents r \<and> in_int64 (er_totalCents r)"
    and cur: "currency_code (er_currency r)"
    and pm: "opt_all (\<lambda>n. 0 < n) (er_paymentMethodId r)"
    and offs: "opt_all (\<lambda>n. 0 < n) (er_offsetsReceiptId r)"
    and fx: "opt_all (\<lambda>x. isfinite x \<and> dless dzero x) (er_fxRateToAud r)"
    and rules: "kind_rules_hold r'" and dir: "isKnownDirection (er_direction r)"
  shows "wf_editable r'"
proof -
  note f = applyCommonReceiptFields_fields [OF ok]
  have "0 \<le> er_totalCents r' \<and> in_int64 (er_totalCents r')" by (rule present_cents [OF f(4) total])
  moreover have "currency_code (er_currency r')"
    by (rule setIfPresent_ok [OF f(5), where P = currency_code]) (auto intro: currency_ok cur)
  moreover have "opt_all (\<lambda>n. 0 < n) (er_paymentMethodId r')"
    by (rule present_opt [OF f(8) pm]) (auto dest: nullableId_ok)
  moreover have "opt_all (\<lambda>n. 0 < n) (er_offsetsReceiptId r')"
    by (rule present_opt [OF f(11) offs]) (auto dest: nullableId_ok)
  moreover have "opt_all (\<lambda>x. isfinite x \<and> dless dzero x) (er_fxRateToAud r')"
    by (rule present_opt [OF f(12) fx]) (auto dest: nullablePositiveNumber_ok)
  ultimately show ?thesis using rules dir f(2) by (simp add: wf_editable_def)
qed

lemma applyItemFields_wf:
  assumes ok: "applyItemFields i body = Inr i'" and wf: "wf_item i"
  shows "wf_item i'"
proof -
  note f = applyItemFields_fields [OF ok]
  have "0 \<le> ii_amountCents i' \<and> in_int64 (ii_amountCents i')"
    by (rule present_cents [OF f(4)]) (use wf in \<open>simp add: wf_item_def\<close>)
  moreover have "opt_all (\<lambda>n. 0 \<le> n \<and> in_int64 n) (ii_unitPriceCents i')"
    by (rule present_opt [OF f(3)]) (use wf in \<open>auto simp: wf_item_def dest: nullableCents_ok\<close>)
  moreover have "opt_all (\<lambda>x. isfinite x \<and> dless dzero x) (ii_quantity i')"
    by (rule present_opt [OF f(2)]) (use wf in \<open>auto simp: wf_item_def dest: nullablePositiveNumber_ok\<close>)
  moreover have "opt_all (\<lambda>n. 0 < n) (ii_categoryId i')"
    by (rule present_opt [OF f(5)]) (use wf in \<open>auto simp: wf_item_def dest: nullableId_ok\<close>)
  moreover have "distinct (ii_tagIds i')"
    by (rule setIfPresent_ok [OF f(7), where P = distinct])
       (use wf in \<open>auto simp: wf_item_def dest: idList_ok\<close>)
  ultimately show ?thesis by (simp add: wf_item_def)
qed

lemma wf_item_init: "wf_item ItemInput_init"
  by (simp add: wf_item_def ItemInput_init_def in_int64_def)

lemma parseNewItem_wf: "parseNewItem body = Inr i \<Longrightarrow> wf_item i"
  by (auto simp: parseNewItem_def res_simps split: if_splits intro: applyItemFields_wf wf_item_init)

lemma applyItemPatch_wf: "applyItemPatch i body = Inr (i', g) \<Longrightarrow> wf_item i \<Longrightarrow> wf_item i'"
  by (auto simp: applyItemPatch_def res_simps intro: applyItemFields_wf)

section \<open>Errors of the parsers\<close>

lemma parse_errors [reader_err]:
  "parseKind v = Inl e \<Longrightarrow> is_validation e"
  "parseDirection v = Inl e \<Longrightarrow> is_validation e"
  by (auto simp: parseKind_def parseDirection_def res_simps split: if_splits dest: reader_errors)

lemma present_err:
  assumes "setIfPresent body key t read = Inl e" and "\<And>v. read v key = Inl e \<Longrightarrow> is_validation e"
  shows "is_validation e"
  using assms by (auto simp: setIfPresent_def split: option.splits)

lemma applyItemFields_err [reader_err]: "applyItemFields i body = Inl e \<Longrightarrow> is_validation e"
  unfolding applyItemFields_def rbind_eq_Inl
  by (elim disjE exE conjE present_err [of body _ _ _ e] reader_errors idList_err; simp)

lemma applyCommonReceiptFields_err [reader_err]:
  "applyCommonReceiptFields r body = Inl e \<Longrightarrow> input_error e"
  unfolding applyCommonReceiptFields_def rbind_eq_Inl
  by (elim disjE exE conjE setIfPresent_err [of body _ _ _ e]; (drule reader_err; simp | simp))

section \<open>Manual entries and patches\<close>

lemma EditableReceipt_init_fields [simp]:
  "er_kind EditableReceipt_init = kDefaultKind"
  "er_totalCents EditableReceipt_init = 0" "er_currency EditableReceipt_init = ''AUD''"
  "er_paymentMethodId EditableReceipt_init = None" "er_offsetsReceiptId EditableReceipt_init = None"
  "er_fxRateToAud EditableReceipt_init = None"
  by (simp_all add: EditableReceipt_init_def)

lemma currency_code_AUD: "currency_code ''AUD''"
  by (simp add: currency_code_def isupper_def less_eq_char_def)

lemma default_direction_known: "isKnownDirection default_direction"
  by (simp add: default_direction_eq isKnownDirection_def kDirections_def)

lemma manual_direction_ok: "manual_direction body kind = Inr d \<Longrightarrow> isKnownDirection d"
  by (auto simp: manual_direction_def res_simps split: option.splits
      dest: parseDirection_ok canonicalDirection_known)

lemma manual_items_ok:
  "manual_items body c = Inr items \<Longrightarrow>
     list_all wf_item items \<and> (c \<noteq> None \<longrightarrow> items = [])"
  by (auto simp: manual_items_def rmap_eq_Inr list_all2_conv_all_nth list_all_length
      split: option.splits json.splits if_splits intro: parseNewItem_wf)

lemma parseManualEntry_eq_Inr:
  assumes "parseManualEntry body = Inr m"
  obtains kind r d c where
    "kind_or body kDefaultKind = Inr kind"
    "applyCommonReceiptFields (EditableReceipt_init\<lparr>er_kind := kind\<rparr>) body = Inr r"
    "manual_direction body (er_kind r) = Inr d"
    "setIfPresent body ''category_id'' None nullableId = Inr c"
    "manual_items body c = Inr (me_items m)"
    "kind_rules_hold (r\<lparr>er_direction := d\<rparr>)"
    "m = \<lparr>me_receipt = r\<lparr>er_direction := d\<rparr>, me_categoryId = c, me_items = me_items m\<rparr>"
  using assms unfolding parseManualEntry_def rbind_eq_Inr guard_chain validateReceipt_iff
    EditableReceipt_init_fields
  by - (elim exE conjE, drule Inr_inject, hypsubst, simp only: ManualEntryInput.simps)

lemma parseManualEntry_wf:
  assumes "parseManualEntry body = Inr m"
  shows "wf_editable (me_receipt m) \<and> list_all wf_item (me_items m) \<and>
     opt_all (\<lambda>n. 0 < n) (me_categoryId m) \<and> (me_categoryId m \<noteq> None \<longrightarrow> me_items m = [])"
  using assms
proof (rule parseManualEntry_eq_Inr)
  fix kind r d c
  assume r: "applyCommonReceiptFields (EditableReceipt_init\<lparr>er_kind := kind\<rparr>) body = Inr r"
    and d: "manual_direction body (er_kind r) = Inr d"
    and c: "setIfPresent body ''category_id'' None nullableId = Inr c"
    and items: "manual_items body c = Inr (me_items m)"
    and rules: "kind_rules_hold (r\<lparr>er_direction := d\<rparr>)"
    and m: "m = \<lparr>me_receipt = r\<lparr>er_direction := d\<rparr>, me_categoryId = c, me_items = me_items m\<rparr>"
  have fields: "applyCommonReceiptFields (EditableReceipt_init\<lparr>er_kind := kind, er_direction := d\<rparr>) body
      = Inr (r\<lparr>er_direction := d\<rparr>)"
    using r unfolding applyCommonReceiptFields_def rbind_eq_Inr
    by - (elim exE conjE, drule Inr_inject, hypsubst, simp)
  have "wf_editable (r\<lparr>er_direction := d\<rparr>)"
    by (rule applyCommonReceiptFields_wf [OF fields])
       (use rules manual_direction_ok [OF d] in \<open>simp_all add: currency_code_AUD in_int64_def\<close>)
  moreover have "opt_all (\<lambda>n. 0 < n) c"
    by (rule present_opt [OF c]) (auto dest: nullableId_ok)
  moreover have "wf_editable (me_receipt m) = wf_editable (r\<lparr>er_direction := d\<rparr>)" "me_categoryId m = c"
    by (subst m, simp)+
  ultimately show ?thesis using manual_items_ok [OF items] by simp
qed

lemma manual_direction_err: "manual_direction body kind = Inl e \<Longrightarrow> findKind kind \<noteq> None \<Longrightarrow> is_validation e"
  unfolding manual_direction_def rulesFor_def
  by (auto split: option.splits dest: parse_errors)

lemma rmap_err: "rmap f xs = Inl e \<Longrightarrow> \<exists>x \<in> set xs. f x = Inl e"
  by (induction xs) (auto simp: res_simps)

lemma parseNewItem_err [reader_err]: "parseNewItem body = Inl e \<Longrightarrow> is_validation e"
  unfolding parseNewItem_def rejectUnknownItemKeys_def
  by (auto simp: res_simps simp del: jcontains_iff dest: reader_err split: if_splits)

lemma manual_items_err: "manual_items body c = Inl e \<Longrightarrow> is_validation e"
  unfolding manual_items_def
  by (auto split: option.splits json.splits if_splits dest!: rmap_err dest: parseNewItem_err)

lemma guard_validation:
  "(if a then Inl (ValidationError m) else x) = Inl e \<Longrightarrow> (x = Inl e \<Longrightarrow> is_validation e) \<Longrightarrow> is_validation e"
  by (auto split: if_splits)

lemma validateReceipt_err: "validateReceipt r = Inl e \<Longrightarrow> findKind (er_kind r) \<noteq> None \<Longrightarrow> is_validation e"
  unfolding validateReceipt_def rulesFor_def
  by (cases "findKind (er_kind r)"; simp only: option.simps rbind_Inr simp_thms)
     (elim guard_validation, simp)

lemma kind_or_ok: "kind_or body k = Inr kind \<Longrightarrow> findKind k \<noteq> None \<Longrightarrow> findKind kind \<noteq> None"
  by (auto simp: kind_or_def split: option.splits dest: parseKind_ok)

lemma kind_or_err: "kind_or body k = Inl e \<Longrightarrow> is_validation e"
  by (auto simp: kind_or_def split: option.splits dest: parse_errors)

lemma default_kind_known: "findKind kDefaultKind \<noteq> None"
  unfolding findKind_known by (simp add: kDefaultKind_def)

lemma parseManualEntry_err:
  assumes "parseManualEntry body = Inl e"
  shows "input_error e"
proof -
  have known: "findKind (er_kind r) \<noteq> None"
    if "kind_or body kDefaultKind = Inr kind"
      "applyCommonReceiptFields (EditableReceipt_init\<lparr>er_kind := kind\<rparr>) body = Inr r" for kind r
    using kind_or_ok [OF that(1) default_kind_known] applyCommonReceiptFields_fields(1) [OF that(2)]
    by simp
  have rules: "is_validation e"
    if "kind_or body kDefaultKind = Inr kind"
      "applyCommonReceiptFields (EditableReceipt_init\<lparr>er_kind := kind\<rparr>) body = Inr r"
      "validateReceipt (r\<lparr>er_direction := d\<rparr>) = Inl e" for kind r d
    by (rule validateReceipt_err [OF that(3)]) (use known [OF that(1,2)] in simp)
  have cat: "is_validation e" if "setIfPresent body ''category_id'' None nullableId = Inl e"
    by (rule present_err [OF that]) (rule reader_errors)
  show ?thesis
    using assms unfolding parseManualEntry_def rbind_eq_Inl EditableReceipt_init_fields
    by (auto simp: res_simps simp del: jcontains_iff dest: reader_err kind_or_err cat manual_items_err
        manual_direction_err [OF _ known] rules split: if_splits)
qed

text \<open>The direction a PATCH leaves: the body's, else the canonical one of a kind the body sends,
  else the current one.\<close>

definition implied_direction :: "EditableReceipt \<Rightarrow> json \<Rightarrow> string \<Rightarrow> string" where
  "implied_direction r body kind =
     (if jcontains body ''direction'' \<or> \<not> jcontains body ''kind'' then er_direction r
      else case findKind kind of None \<Rightarrow> er_direction r
         | Some rules \<Rightarrow> (case kr_canonicalDirection rules of None \<Rightarrow> er_direction r | Some d \<Rightarrow> d))"

lemma er_kind_direction_id: "r\<lparr>er_kind := er_kind r, er_direction := er_direction r\<rparr> = r"
  by (cases r) simp

lemma er_direction_id: "r\<lparr>er_direction := er_direction r\<rparr> = r"
  by (cases r) simp

lemma patch_kind_eq:
  "patch_kind r body =
     rbind (kind_or body (er_kind r)) (\<lambda>k. Inr (r\<lparr>er_kind := k, er_direction := implied_direction r body k\<rparr>))"
proof (cases "jfind body ''kind''")
  case None
  then show ?thesis by (simp add: patch_kind_def kind_or_def implied_direction_def er_kind_direction_id)
next
  case (Some v)
  have "rbind (rulesFor k) (\<lambda>rules. case kr_canonicalDirection rules of
            Some canonical \<Rightarrow> Inr (r\<lparr>er_kind := k, er_direction := canonical\<rparr>)
          | None \<Rightarrow> Inr (r\<lparr>er_kind := k\<rparr>)) =
        Inr (r\<lparr>er_kind := k, er_direction := case findKind k of None \<Rightarrow> er_direction r
         | Some rules \<Rightarrow> (case kr_canonicalDirection rules of None \<Rightarrow> er_direction r | Some d \<Rightarrow> d)\<rparr>)"
    if "parseKind v = Inr k" for k
    using parseKind_ok [OF that] by (cases r) (auto simp: rulesFor_def split: option.splits)
  moreover have "r\<lparr>er_kind := k, er_direction := er_direction r\<rparr> = r\<lparr>er_kind := k\<rparr>" for k
    by (cases r) simp
  ultimately show ?thesis
    using Some by (cases "parseKind v") (auto simp: patch_kind_def kind_or_def implied_direction_def)
qed

lemma patch_direction_eq:
  "patch_direction r body =
     rbind (setIfPresent body ''direction'' (er_direction r) (\<lambda>v _. parseDirection v))
       (\<lambda>d. Inr (r\<lparr>er_direction := d\<rparr>))"
  by (simp add: patch_direction_def setIfPresent_def er_direction_id split: option.splits)

lemma boolean_eq_Inr: "boolean v field = Inr b \<longleftrightarrow> v = JBool b"
  by (cases v) auto

lemma patch_reviewed_eq_Inr: "patch_reviewed body = Inr b \<Longrightarrow> b = (jfind body ''reviewed'' = Some (JBool True))"
  unfolding patch_reviewed_def
  by (auto simp: res_simps boolean_eq_Inr split: option.splits if_splits)

lemma applyReceiptPatch_eq_Inr:
  assumes "applyReceiptPatch r body = Inr (r', mark)"
  shows "kind_or body (er_kind r) = Inr (er_kind r')"
    and "setIfPresent body ''direction'' (implied_direction r body (er_kind r')) (\<lambda>v _. parseDirection v)
       = Inr (er_direction r')"
    and "setIfPresent body ''store_name_raw'' (er_storeNameRaw r) nullableString = Inr (er_storeNameRaw r')"
    and "applyCommonReceiptFields (r\<lparr>er_kind := er_kind r', er_direction := er_direction r',
       er_storeNameRaw := er_storeNameRaw r'\<rparr>) body = Inr r'"
    and "mark = (jfind body ''reviewed'' = Some (JBool True))" and "kind_rules_hold r'"
proof -
  from assms obtain k d store where
    1: "kind_or body (er_kind r) = Inr k"
    and 2: "setIfPresent body ''direction'' (implied_direction r body k) (\<lambda>v _. parseDirection v) = Inr d"
    and 3: "setIfPresent body ''store_name_raw'' (er_storeNameRaw r) nullableString = Inr store"
    and 4: "applyCommonReceiptFields (r\<lparr>er_kind := k, er_direction := d, er_storeNameRaw := store\<rparr>) body
       = Inr r'"
    and 5: "patch_reviewed body = Inr mark" and 6: "kind_rules_hold r'"
    unfolding applyReceiptPatch_def patch_kind_eq patch_direction_eq rbind_eq_Inr validateReceipt_iff
      sum.inject prod.inject
    by - (elim exE conjE, hypsubst, simp)
  note f = applyCommonReceiptFields_fields(1-3) [OF 4]
  then have eqs: "er_kind r' = k" "er_direction r' = d" "er_storeNameRaw r' = store" by simp_all
  show "kind_or body (er_kind r) = Inr (er_kind r')"
    "setIfPresent body ''direction'' (implied_direction r body (er_kind r')) (\<lambda>v _. parseDirection v)
       = Inr (er_direction r')"
    "setIfPresent body ''store_name_raw'' (er_storeNameRaw r) nullableString = Inr (er_storeNameRaw r')"
    "applyCommonReceiptFields (r\<lparr>er_kind := er_kind r', er_direction := er_direction r',
       er_storeNameRaw := er_storeNameRaw r'\<rparr>) body = Inr r'"
    unfolding eqs by (rule 1 2 3 4)+
  show "mark = (jfind body ''reviewed'' = Some (JBool True))" by (rule patch_reviewed_eq_Inr [OF 5])
  show "kind_rules_hold r'" by (rule 6)
qed

lemma applyReceiptPatch_wf:
  assumes wf: "wf_editable r" and ok: "applyReceiptPatch r body = Inr (r', mark)"
  shows "wf_editable r'"
proof -
  note p = applyReceiptPatch_eq_Inr [OF ok]
  have known: "isKnownDirection (implied_direction r body k)" for k
    using wf canonicalDirection_known by (auto simp: implied_direction_def wf_editable_def split: option.splits)
  have "isKnownDirection (er_direction r')"
    by (rule setIfPresent_ok [OF p(2), where P = isKnownDirection]) (auto intro: parseDirection_ok known)
  then show ?thesis
    by (intro applyCommonReceiptFields_wf [OF p(4) _ _ _ _ _ p(6)])
       (use wf in \<open>simp_all add: wf_editable_def\<close>)
qed

lemma applyReceiptPatch_err:
  assumes wf: "findKind (er_kind r) \<noteq> None" and fails: "applyReceiptPatch r body = Inl e"
  shows "input_error e"
proof -
  have rules: "is_validation e"
    if "kind_or body (er_kind r) = Inr k" "validateReceipt r2 = Inl e"
      "applyCommonReceiptFields (r\<lparr>er_kind := k, er_direction := d, er_storeNameRaw := st\<rparr>) body = Inr r2"
    for k d st r2
    by (rule validateReceipt_err [OF that(2)])
       (use kind_or_ok [OF that(1) wf] applyCommonReceiptFields_fields(1) [OF that(3)] in simp)
  have reviewed: "is_validation e" if "patch_reviewed body = Inl e"
    using that unfolding patch_reviewed_def
    by (auto simp: res_simps split: option.splits if_splits dest: reader_errors)
  have dir: "is_validation e" if "setIfPresent body ''direction'' t (\<lambda>v _. parseDirection v) = Inl e" for t
    by (rule present_err [OF that]) (rule parse_errors)
  have store: "is_validation e" if "setIfPresent body ''store_name_raw'' t nullableString = Inl e" for t
    by (rule present_err [OF that]) (rule reader_errors)
  show ?thesis
    using fails unfolding applyReceiptPatch_def patch_kind_eq patch_direction_eq rbind_eq_Inl rbind_eq_Inr
      sum.inject
    by (auto dest: reader_err kind_or_err dir store reviewed rules)
qed

section \<open>Applying a body twice\<close>

lemma setIfPresent_idem: "setIfPresent body key t read = Inr x \<Longrightarrow> setIfPresent body key x read = Inr x"
  by (auto simp: setIfPresent_def split: option.splits)

lemma kind_or_setIfPresent: "kind_or body k = setIfPresent body ''kind'' k (\<lambda>v _. parseKind v)"
  by (simp add: kind_or_def setIfPresent_def)

lemma applyCommonReceiptFields_idem:
  assumes "applyCommonReceiptFields r body = Inr r'"
  shows "applyCommonReceiptFields r' body = Inr r'"
proof -
  note f = applyCommonReceiptFields_fields(4-12) [OF assms, THEN setIfPresent_idem]
  show ?thesis unfolding applyCommonReceiptFields_def f rbind_Inr by (cases r') simp
qed

lemma applyItemFields_idem:
  assumes "applyItemFields i body = Inr i'"
  shows "applyItemFields i' body = Inr i'"
proof -
  note f = applyItemFields_fields [OF assms, THEN setIfPresent_idem]
  show ?thesis unfolding applyItemFields_def f rbind_Inr by (cases i') simp
qed

lemma implied_direction_idem:
  assumes "setIfPresent body ''direction'' (implied_direction r body k) (\<lambda>v _. parseDirection v) = Inr d"
    and "er_direction r' = d"
  shows "implied_direction r' body k = d"
proof (cases "jfind body ''direction''")
  case None
  then have "implied_direction r body k = d" using assms(1) by (simp add: setIfPresent_def)
  then show ?thesis using assms(2) None by (auto simp: implied_direction_def split: if_splits option.splits)
next
  case (Some v)
  then show ?thesis using assms(2) by (simp add: implied_direction_def)
qed

lemma applyReceiptPatch_idem:
  assumes ok: "applyReceiptPatch r body = Inr (r', mark)"
  shows "applyReceiptPatch r' body = Inr (r', mark)"
proof -
  note p = applyReceiptPatch_eq_Inr [OF ok]
  have k: "kind_or body (er_kind r') = Inr (er_kind r')"
    using p(1) unfolding kind_or_setIfPresent by (rule setIfPresent_idem)
  have d: "setIfPresent body ''direction'' (implied_direction r' body (er_kind r')) (\<lambda>v _. parseDirection v)
      = Inr (er_direction r')"
    unfolding implied_direction_idem [OF p(2) refl] using p(2) by (rule setIfPresent_idem)
  have same: "r'\<lparr>er_kind := er_kind r', er_direction := er_direction r',
      er_storeNameRaw := er_storeNameRaw r'\<rparr> = r'" by (cases r') simp
  have rest: "requireObject body = Inr ()" "rejectUnknownKeys body patch_keys = Inr ()"
    "patch_reviewed body = Inr mark" "validateReceipt r' = Inr ()"
    using ok unfolding applyReceiptPatch_def rbind_eq_Inr by - (elim exE conjE, simp)+
  show ?thesis
    unfolding applyReceiptPatch_def patch_kind_eq patch_direction_eq rest k rbind_Inr
    by (simp add: d setIfPresent_idem [OF p(3)] same applyCommonReceiptFields_idem [OF p(4)] rest)
qed

section \<open>Properties\<close>


text \<open>C28: \<open>PATCH /receipts/:id\<close> keeps a valid receipt valid: the patched receipt again satisfies the
  kind rules and ranges, the receipt is marked reviewed exactly when the body says
  \<open>reviewed: true\<close>, and a rejected body throws an input error only.\<close>

theorem receipt_patch_keeps_wf:
  "wf_editable r \<Longrightarrow>
   case applyReceiptPatch r body of
     Inl e \<Rightarrow> input_error e
   | Inr (r', mark) \<Rightarrow> wf_editable r' \<and> mark = (jfind body ''reviewed'' = Some (JBool True))"
  using applyReceiptPatch_wf [of r body] applyReceiptPatch_err [of r body]
    applyReceiptPatch_eq_Inr(5) [of r body]
  by (cases "applyReceiptPatch r body")
     (auto simp: wf_editable_def kind_rules_hold_def split: option.splits)

lemma EditableReceipt_init_wf: "wf_editable EditableReceipt_init"
  by code_simp

theorem receipt_patch_keeps_wf_witness:
  "wf_editable EditableReceipt_init \<and>
   (case applyReceiptPatch EditableReceipt_init
      (JObject [(''kind'', JString ''refund''), (''reviewed'', JBool True)]) of
      Inl e \<Rightarrow> False | Inr (r', mark) \<Rightarrow> wf_editable r' \<and> mark \<and> er_direction r' = ''inflow'')"
proof -
  define body where "body = JObject [(''kind'', JString ''refund''), (''reviewed'', JBool True)]"
  have "case applyReceiptPatch EditableReceipt_init body of
      Inl e \<Rightarrow> False | Inr (r', mark) \<Rightarrow> mark \<and> er_direction r' = ''inflow''"
    unfolding body_def by code_simp
  then show ?thesis
    using receipt_patch_keeps_wf [OF EditableReceipt_init_wf, of body] EditableReceipt_init_wf
    unfolding body_def [symmetric] by (auto split: sum.splits)
qed

text \<open>C29: what \<open>applyReceiptPatch\<close> leaves in each of the twelve editable fields: a key the body sends
  is replaced by what its reader returns (an explicit null clears a nullable field), an absent key
  keeps its value, and a new kind without a direction takes the kind's canonical direction.\<close>

theorem receipt_patch_fields:
  assumes "applyReceiptPatch r body = Inr (r', mark)"
  shows "setIfPresent body ''kind'' (er_kind r) (\<lambda>v _. parseKind v) = Inr (er_kind r') \<and>
     setIfPresent body ''direction'' (implied_direction r body (er_kind r')) (\<lambda>v _. parseDirection v)
       = Inr (er_direction r') \<and>
     setIfPresent body ''total_cents'' (er_totalCents r) cents = Inr (er_totalCents r') \<and>
     setIfPresent body ''currency'' (er_currency r) currency = Inr (er_currency r') \<and>
     setIfPresent body ''merchant'' (er_merchant r) nullableString = Inr (er_merchant r') \<and>
     setIfPresent body ''store_name_raw'' (er_storeNameRaw r) nullableString = Inr (er_storeNameRaw r') \<and>
     setIfPresent body ''purchase_date'' (er_purchaseDate r) nullableDate = Inr (er_purchaseDate r') \<and>
     setIfPresent body ''payment_method_id'' (er_paymentMethodId r) nullableId = Inr (er_paymentMethodId r') \<and>
     setIfPresent body ''tax_deductible'' (er_taxDeductible r) boolean = Inr (er_taxDeductible r') \<and>
     setIfPresent body ''note'' (er_note r) nullableString = Inr (er_note r') \<and>
     setIfPresent body ''offsets_receipt_id'' (er_offsetsReceiptId r) nullableId = Inr (er_offsetsReceiptId r') \<and>
     setIfPresent body ''fx_rate_to_aud'' (er_fxRateToAud r) nullablePositiveNumber = Inr (er_fxRateToAud r')"
proof -
  note p = applyReceiptPatch_eq_Inr [OF assms]
  have u: "er_totalCents (r\<lparr>er_kind := k, er_direction := d, er_storeNameRaw := st\<rparr>) = er_totalCents r"
    "er_currency (r\<lparr>er_kind := k, er_direction := d, er_storeNameRaw := st\<rparr>) = er_currency r"
    "er_merchant (r\<lparr>er_kind := k, er_direction := d, er_storeNameRaw := st\<rparr>) = er_merchant r"
    "er_purchaseDate (r\<lparr>er_kind := k, er_direction := d, er_storeNameRaw := st\<rparr>) = er_purchaseDate r"
    "er_paymentMethodId (r\<lparr>er_kind := k, er_direction := d, er_storeNameRaw := st\<rparr>) = er_paymentMethodId r"
    "er_taxDeductible (r\<lparr>er_kind := k, er_direction := d, er_storeNameRaw := st\<rparr>) = er_taxDeductible r"
    "er_note (r\<lparr>er_kind := k, er_direction := d, er_storeNameRaw := st\<rparr>) = er_note r"
    "er_offsetsReceiptId (r\<lparr>er_kind := k, er_direction := d, er_storeNameRaw := st\<rparr>) = er_offsetsReceiptId r"
    "er_fxRateToAud (r\<lparr>er_kind := k, er_direction := d, er_storeNameRaw := st\<rparr>) = er_fxRateToAud r"
    for k d st by simp_all
  note f = applyCommonReceiptFields_fields(4-12) [OF p(4), unfolded u]
  show ?thesis using p(1) unfolding kind_or_setIfPresent by (intro conjI p(2,3) f)
qed

definition refund_patch :: json where
  "refund_patch = JObject [(''kind'', JString ''refund''), (''total_cents'', JUnsigned 1250)]"

definition refunded :: EditableReceipt where
  "refunded = EditableReceipt_init\<lparr>er_kind := ''refund'', er_direction := ''inflow'', er_totalCents := 1250\<rparr>"

lemma refund_patch_applies: "applyReceiptPatch EditableReceipt_init refund_patch = Inr (refunded, False)"
  by code_simp

theorem receipt_patch_fields_witness:
  "setIfPresent refund_patch ''direction'' (implied_direction EditableReceipt_init refund_patch ''refund'')
     (\<lambda>v _. parseDirection v) = Inr ''inflow'' \<and>
   setIfPresent refund_patch ''total_cents'' (er_totalCents EditableReceipt_init) cents = Inr 1250"
  using receipt_patch_fields [OF refund_patch_applies] by (simp add: refunded_def)

text \<open>PATCH is idempotent: applying an accepted body again is accepted and changes nothing.\<close>

theorem receipt_patch_idempotent:
  "applyReceiptPatch r body = Inr (r', mark) \<Longrightarrow> applyReceiptPatch r' body = Inr (r', mark)"
  by (rule applyReceiptPatch_idem)

theorem receipt_patch_idempotent_witness:
  "applyReceiptPatch refunded refund_patch = Inr (refunded, False)"
  by (rule receipt_patch_idempotent [OF refund_patch_applies])

end
