(* ===== verification/World.thy ===== *)
theory World
  imports LedgerInput
begin

text \<open>
  The state the server works on: the Postgres tables of
  \<^verbatim>\<open>src/db/migrations\<close>, their CHECK, UNIQUE and FOREIGN KEY constraints and ON DELETE rules,
  the object store, the sequences, the random bytes and the faults of the infrastructure.

  Tables are lists of rows in insertion order. A sequence is not rolled back with a
  transaction, and neither is the object store, so both are outside \<open>db\<close>. An instant is a
  number of microseconds; its text forms are exchanged with Postgres without loss, so a
  \<open>timestamptz\<close> bound as text is the instant. \<open>recurring_transactions\<close> and the two columns that
  refer to it are left out: no code reads or writes them.

  What Postgres, libsodium, libvips and the environment compute is the record \<open>host\<close>, an
  argument of every definition that uses it.
\<close>

section \<open>The host\<close>

type_synonym instant = int

text \<open>libvips as \<^verbatim>\<open>ImageNormalizer.cpp\<close> calls it. A \<open>VImage\<close> is a reference to an image that the library holds;
  a \<open>vips::VError\<close> is the left side of a sum.\<close>

type_synonym VImage = nat

datatype VipsSize = VIPS_SIZE_BOTH | VIPS_SIZE_UP | VIPS_SIZE_DOWN | VIPS_SIZE_FORCE

record vips =
  v_init :: "string option"                                            \<comment> \<open>VIPS_INIT: the error buffer when it fails\<close>
  v_thumbnail_buffer :: "string \<Rightarrow> int \<Rightarrow> int \<Rightarrow> VipsSize \<Rightarrow> string + VImage" \<comment> \<open>bytes, width, height, size\<close>
  v_webpsave_buffer :: "VImage \<Rightarrow> int \<Rightarrow> bool \<Rightarrow> string + string"       \<comment> \<open>Q and strip\<close>
  v_width :: "VImage \<Rightarrow> int"
  v_height :: "VImage \<Rightarrow> int"

record host =
  h_env :: "string \<Rightarrow> string option"                  \<comment> \<open>getenv\<close>
  h_numeric :: "double \<Rightarrow> double"                      \<comment> \<open>a float8 stored as NUMERIC, read back as float8\<close>
  h_date :: "string \<Rightarrow> string option"                 \<comment> \<open>text::date::text, None when rejected\<close>
  h_lower :: "string \<Rightarrow> string"                        \<comment> \<open>lower(), also the folding of CITEXT\<close>
  h_collate :: "string \<Rightarrow> string \<Rightarrow> bool"              \<comment> \<open>the collation order of ORDER BY\<close>
  h_choose :: "nat \<Rightarrow> nat"                             \<comment> \<open>which of n rows LIMIT 1 returns without ORDER BY\<close>
  h_iso_utc :: "instant \<Rightarrow> string"                     \<comment> \<open>to_char(... AT TIME ZONE UTC, ...)\<close>
  h_ts_text :: "instant \<Rightarrow> string"                     \<comment> \<open>timestamptz::text\<close>
  h_sydney :: "instant \<Rightarrow> string"                      \<comment> \<open>the date in Australia/Sydney, as text\<close>
  h_jsonb :: "json \<Rightarrow> error + json"                   \<comment> \<open>dump() and ::jsonb\<close>
  h_similarity :: "string \<Rightarrow> string \<Rightarrow> double"          \<comment> \<open>pg_trgm\<close>
  h_llround :: "double \<Rightarrow> int"                         \<comment> \<open>llround outside its range\<close>
  h_vips :: vips                                     \<comment> \<open>libvips\<close>
  h_sha256 :: "string \<Rightarrow> 8 word list"                 \<comment> \<open>crypto_hash_sha256\<close>
  h_hmac :: "string \<Rightarrow> string \<Rightarrow> 8 word list"       \<comment> \<open>crypto_auth_hmacsha256\<close>
  h_s3_missing :: string                             \<comment> \<open>the body of S3's 404 response\<close>
  h_stod :: "string \<Rightarrow> error + double"             \<comment> \<open>std::stod\<close>
  h_pwhash :: "string \<Rightarrow> nat \<Rightarrow> string option"         \<comment> \<open>crypto_pwhash_str with the salt drawn at a position\<close>
  h_pwverify :: "string \<Rightarrow> string \<Rightarrow> bool"            \<comment> \<open>crypto_pwhash_str_verify\<close>

section \<open>Rows\<close>

record user_row =
  u_id :: int
  u_email :: string
  u_password_hash :: string
  u_email_verified_at :: "instant option"

record session_row =
  s_id :: int
  s_user_id :: int
  s_token_hash :: string
  s_expires_at :: instant

record auth_token_row =
  a_id :: int
  a_user_id :: int
  a_token_hash :: string
  a_purpose :: string
  a_expires_at :: instant

record category_row =
  c_id :: int
  c_user_id :: int
  c_name :: string
  c_is_income :: bool

record tag_row =
  t_id :: int
  t_user_id :: int
  t_name :: string

record payment_method_row =
  p_id :: int
  p_user_id :: int
  p_name :: string
  p_stored_value :: bool

record receipt_row =
  r_id :: int
  r_user_id :: int
  r_store_name_raw :: "string option"
  r_merchant :: "string option"
  r_purchase_date :: "string option"
  r_total_cents :: int
  r_direction :: string
  r_currency :: string
  r_fx_rate_to_aud :: "double option"
  r_aud_equivalent_cents :: "int option"
  r_kind :: string
  r_scan_state :: string
  r_scan_attempts :: int
  r_reclaim_count :: int
  r_scan_started_at :: "instant option"
  r_proposed_at :: "instant option"
  r_reviewed_at :: "instant option"
  r_payment_method_id :: "int option"
  r_tax_deductible :: bool
  r_note :: "string option"
  r_source :: string
  r_offsets_receipt_id :: "int option"
  r_raw_ocr_json :: "json option"
  r_created_at :: instant
  r_updated_at :: instant

record image_row =
  g_id :: int
  g_receipt_id :: int
  g_user_id :: int
  g_image_key :: string
  g_image_sha256 :: string
  g_created_at :: instant

record item_row =
  i_id :: int
  i_receipt_id :: int
  i_name :: "string option"
  i_quantity :: "double option"
  i_unit_price_cents :: "int option"
  i_amount_cents :: int
  i_category_id :: "int option"
  i_informational :: bool

record db =
  d_users :: "user_row list"
  d_sessions :: "session_row list"
  d_auth_tokens :: "auth_token_row list"
  d_categories :: "category_row list"
  d_tags :: "tag_row list"
  d_payment_methods :: "payment_method_row list"
  d_receipts :: "receipt_row list"
  d_images :: "image_row list"
  d_items :: "item_row list"
  d_item_tags :: "(int \<times> int) list"

datatype table = Users | Sessions | AuthTokens | Categories | Tags | PaymentMethods | Receipts | Images | Items

record world =
  w_db :: db
  w_seq :: "table \<Rightarrow> int"                              \<comment> \<open>the next id of each BIGSERIAL\<close>
  w_store :: "string \<Rightarrow> string option"                \<comment> \<open>objects of the image bucket, by key\<close>
  w_now :: instant
  w_random :: "nat \<Rightarrow> 8 word"                          \<comment> \<open>the bytes randombytes_buf returns\<close>
  w_rpos :: nat
  w_faults :: "nat \<Rightarrow> string option"                   \<comment> \<open>which infrastructure calls fail, and how\<close>
  w_step :: nat
  w_notified :: "(int \<times> string \<times> json) list"          \<comment> \<open>notifications handed to the Notifier\<close>

definition empty_db :: db where
  "empty_db = \<lparr>d_users = [], d_sessions = [], d_auth_tokens = [], d_categories = [], d_tags = [],
     d_payment_methods = [], d_receipts = [], d_images = [], d_items = [], d_item_tags = []\<rparr>"

text \<open>A host for evaluating the definitions on concrete inputs.\<close>

definition sample_host :: host where
  "sample_host = \<lparr>h_env = (\<lambda>_. None), h_numeric = (\<lambda>x. x), h_date = (\<lambda>s. Some s), h_lower = lower,
     h_collate = (\<lambda>a b. a \<le> b), h_choose = (\<lambda>_. 0), h_iso_utc = to_string, h_ts_text = to_string,
     h_sydney = (\<lambda>_. ''2026-09-06''), h_jsonb = Inr,
     h_similarity = (\<lambda>a b. if a = b then double_of_int 1 else dzero), h_llround = (\<lambda>_. 0),
     h_vips = \<lparr>v_init = None, v_thumbnail_buffer = (\<lambda>bytes _ _ _. Inr (length bytes)),
       v_webpsave_buffer = (\<lambda>_ _ _. Inr ''webp''), v_width = (\<lambda>_. 640), v_height = (\<lambda>_. 480)\<rparr>,
     h_sha256 = map (\<lambda>c. of_nat (of_char c)), h_hmac = (\<lambda>_ _. []),
     h_s3_missing = [], h_stod = (\<lambda>_. Inr dzero), h_pwhash = (\<lambda>p _. Some p), h_pwverify = (=)\<rparr>"

definition sample_world :: world where
  "sample_world = \<lparr>w_db = empty_db, w_seq = (\<lambda>_. 1), w_store = (\<lambda>_. None), w_now = 1789000000000000,
     w_random = (\<lambda>n. of_nat n), w_rpos = 0, w_faults = (\<lambda>_. None), w_step = 0, w_notified = []\<rparr>"

section \<open>Constraints\<close>

text \<open>The CHECK constraints on a receipt row, in the order of the schema.\<close>

definition chk_direction_by_kind :: "string \<Rightarrow> string \<Rightarrow> bool" where
  "chk_direction_by_kind kind direction \<longleftrightarrow>
     (kind = ''purchase'' \<and> direction = ''outflow'') \<or>
     (kind \<in> {''refund'', ''reimbursement'', ''income''} \<and> direction = ''inflow'') \<or>
     kind = ''transfer''"

definition receipt_checks :: "receipt_row \<Rightarrow> bool" where
  "receipt_checks r \<longleftrightarrow>
     0 \<le> r_total_cents r \<and>
     r_direction r \<in> {''inflow'', ''outflow''} \<and>
     r_kind r \<in> {''purchase'', ''refund'', ''reimbursement'', ''income'', ''transfer''} \<and>
     r_scan_state r \<in> {''idle'', ''uploaded'', ''scanning'', ''scan_failed''} \<and>
     r_source r \<in> {''scanned'', ''manual'', ''recurring''} \<and>
     chk_direction_by_kind (r_kind r) (r_direction r) \<and>
     (\<not> r_tax_deductible r \<or> r_kind r = ''purchase'')"

definition int4 :: "int \<Rightarrow> bool" where
  "int4 n \<longleftrightarrow> - (2 ^ 31) \<le> n \<and> n < 2 ^ 31"

definition receipt_domains :: "receipt_row \<Rightarrow> bool" where
  "receipt_domains r \<longleftrightarrow> int4 (r_scan_attempts r) \<and> int4 (r_reclaim_count r) \<and> length (r_currency r) \<le> 3"

definition check_violation :: "db \<Rightarrow> bool" where
  "check_violation d \<longleftrightarrow>
     \<not> list_all receipt_checks (d_receipts d) \<or> \<not> list_all receipt_domains (d_receipts d) \<or>
     \<not> list_all (\<lambda>t. a_purpose t \<in> {''verify'', ''reset''}) (d_auth_tokens d)"

definition unique_violation :: "host \<Rightarrow> db \<Rightarrow> bool" where
  "unique_violation h d \<longleftrightarrow>
     \<not> (distinct (map (\<lambda>u. h_lower h (u_email u)) (d_users d)) \<and>
        distinct (map s_token_hash (d_sessions d)) \<and>
        distinct (map a_token_hash (d_auth_tokens d)) \<and>
        distinct (map (\<lambda>c. (c_user_id c, c_is_income c, h_lower h (c_name c))) (d_categories d)) \<and>
        distinct (map (\<lambda>t. (t_user_id t, h_lower h (t_name t))) (d_tags d)) \<and>
        distinct (map (\<lambda>p. (p_user_id p, h_lower h (p_name p))) (d_payment_methods d)) \<and>
        distinct (map u_id (d_users d)) \<and> distinct (map s_id (d_sessions d)) \<and>
        distinct (map a_id (d_auth_tokens d)) \<and> distinct (map c_id (d_categories d)) \<and>
        distinct (map t_id (d_tags d)) \<and> distinct (map p_id (d_payment_methods d)) \<and>
        distinct (map r_id (d_receipts d)) \<and> distinct (map g_id (d_images d)) \<and>
        distinct (map i_id (d_items d)) \<and> distinct (d_item_tags d))"

definition user_ids :: "db \<Rightarrow> int set" where
  "user_ids d = set (map u_id (d_users d))"

definition refers :: "int option \<Rightarrow> int list \<Rightarrow> bool" where
  "refers x ids \<longleftrightarrow> (case x of None \<Rightarrow> True | Some n \<Rightarrow> n \<in> set ids)"

definition fk_violation :: "db \<Rightarrow> bool" where
  "fk_violation d \<longleftrightarrow>
     \<not> (list_all (\<lambda>s. s_user_id s \<in> user_ids d) (d_sessions d) \<and>
        list_all (\<lambda>a. a_user_id a \<in> user_ids d) (d_auth_tokens d) \<and>
        list_all (\<lambda>c. c_user_id c \<in> user_ids d) (d_categories d) \<and>
        list_all (\<lambda>t. t_user_id t \<in> user_ids d) (d_tags d) \<and>
        list_all (\<lambda>p. p_user_id p \<in> user_ids d) (d_payment_methods d) \<and>
        list_all (\<lambda>r. r_user_id r \<in> user_ids d \<and>
           refers (r_payment_method_id r) (map p_id (d_payment_methods d)) \<and>
           refers (r_offsets_receipt_id r) (map r_id (d_receipts d))) (d_receipts d) \<and>
        list_all (\<lambda>g. g_user_id g \<in> user_ids d \<and> g_receipt_id g \<in> set (map r_id (d_receipts d))) (d_images d) \<and>
        list_all (\<lambda>i. i_receipt_id i \<in> set (map r_id (d_receipts d)) \<and>
           refers (i_category_id i) (map c_id (d_categories d))) (d_items d) \<and>
        list_all (\<lambda>(i, t). i \<in> set (map i_id (d_items d)) \<and> t \<in> set (map t_id (d_tags d))) (d_item_tags d))"

definition kDuplicateKey :: string where
  "kDuplicateKey = ''duplicate key value violates unique constraint''"

text \<open>The error of a statement that leaves \<open>d\<close>, if any: CHECK constraints first, then the unique
  indexes, then the foreign keys at the end of the statement.\<close>

definition violation :: "host \<Rightarrow> db \<Rightarrow> error option" where
  "violation h d =
     (if check_violation d then Some (DbError ''new row violates check constraint'')
      else if unique_violation h d then Some (DbError kDuplicateKey)
      else if fk_violation d then Some (DbError ''insert or update on table violates foreign key constraint'')
      else None)"

section \<open>ON DELETE\<close>

definition drop_items :: "(item_row \<Rightarrow> bool) \<Rightarrow> db \<Rightarrow> db" where
  "drop_items P d =
     d\<lparr>d_items := filter (\<lambda>i. \<not> P i) (d_items d),
       d_item_tags := filter (\<lambda>(i, t). \<not> (\<exists>x \<in> set (d_items d). i_id x = i \<and> P x)) (d_item_tags d)\<rparr>"

definition null_if :: "(int \<Rightarrow> bool) \<Rightarrow> int option \<Rightarrow> int option" where
  "null_if P x = (case x of None \<Rightarrow> None | Some n \<Rightarrow> if P n then None else Some n)"

definition drop_receipts :: "(receipt_row \<Rightarrow> bool) \<Rightarrow> db \<Rightarrow> db" where
  "drop_receipts P d =
     (let gone = (\<lambda>n. \<exists>r \<in> set (d_receipts d). r_id r = n \<and> P r);
          d' = drop_items (\<lambda>i. gone (i_receipt_id i)) d
      in d'\<lparr>d_receipts := map (\<lambda>r. r\<lparr>r_offsets_receipt_id := null_if gone (r_offsets_receipt_id r)\<rparr>)
                (filter (\<lambda>r. \<not> P r) (d_receipts d)),
            d_images := filter (\<lambda>g. \<not> gone (g_receipt_id g)) (d_images d)\<rparr>)"

definition drop_categories :: "(category_row \<Rightarrow> bool) \<Rightarrow> db \<Rightarrow> db" where
  "drop_categories P d =
     (let gone = (\<lambda>n. \<exists>c \<in> set (d_categories d). c_id c = n \<and> P c)
      in d\<lparr>d_categories := filter (\<lambda>c. \<not> P c) (d_categories d),
           d_items := map (\<lambda>i. i\<lparr>i_category_id := null_if gone (i_category_id i)\<rparr>) (d_items d)\<rparr>)"

definition drop_tags :: "(tag_row \<Rightarrow> bool) \<Rightarrow> db \<Rightarrow> db" where
  "drop_tags P d =
     d\<lparr>d_tags := filter (\<lambda>t. \<not> P t) (d_tags d),
       d_item_tags := filter (\<lambda>(i, t). \<not> (\<exists>x \<in> set (d_tags d). t_id x = t \<and> P x)) (d_item_tags d)\<rparr>"

definition drop_payment_methods :: "(payment_method_row \<Rightarrow> bool) \<Rightarrow> db \<Rightarrow> db" where
  "drop_payment_methods P d =
     (let gone = (\<lambda>n. \<exists>p \<in> set (d_payment_methods d). p_id p = n \<and> P p)
      in d\<lparr>d_payment_methods := filter (\<lambda>p. \<not> P p) (d_payment_methods d),
           d_receipts := map (\<lambda>r. r\<lparr>r_payment_method_id := null_if gone (r_payment_method_id r)\<rparr>) (d_receipts d)\<rparr>)"

section \<open>The view v_receipt_state\<close>

definition needs_review :: "receipt_row \<Rightarrow> bool" where
  "needs_review r \<longleftrightarrow>
     (case r_proposed_at r of None \<Rightarrow> False
      | Some p \<Rightarrow> (case r_reviewed_at r of None \<Rightarrow> True | Some v \<Rightarrow> p > v))"

definition is_confirmed :: "receipt_row \<Rightarrow> bool" where
  "is_confirmed r \<longleftrightarrow>
     (case r_reviewed_at r of None \<Rightarrow> False
      | Some v \<Rightarrow> (case r_proposed_at r of None \<Rightarrow> True | Some p \<Rightarrow> v \<ge> p))"

end
