(* ===== verification/Actions.thy ===== *)
theory Actions
  imports World
begin

text \<open>
  The coroutines of the services as actions: a function of the world that returns a result
  or an exception and the world it leaves. \<open>query\<close>, \<open>exec\<close> and \<open>insert_row\<close> are
  \<^verbatim>\<open>execSqlCoro\<close> of a SELECT, of an UPDATE or DELETE and of an INSERT into a table with a
  sequence; \<open>transaction\<close> is \<^verbatim>\<open>newTransactionCoro\<close> with the try block that every caller
  wraps around it. Each of them is one call of the infrastructure and fails when the world's
  fault oracle says so, so a statement about an action quantifies over every failure at every
  call.

  The second half is the logic of actions: \<open>wp\<close>, the weakest precondition as an equation per
  combinator, and the locales \<open>step_preorder\<close> and \<open>step_relation\<close> for relations between the world before and
  after an action, the second for those that rollbacks preserve.
\<close>

type_synonym 'a act = "world \<Rightarrow> (error + 'a) \<times> world"

section \<open>Combinators\<close>

definition ret :: "'a \<Rightarrow> 'a act" where
  "ret x = (\<lambda>w. (Inr x, w))"

definition raise :: "error \<Rightarrow> 'a act" where
  "raise e = (\<lambda>w. (Inl e, w))"

definition lift :: "error + 'a \<Rightarrow> 'a act" where
  "lift r = (\<lambda>w. (r, w))"

definition bindM :: "'a act \<Rightarrow> ('a \<Rightarrow> 'b act) \<Rightarrow> 'b act" where
  "bindM m f = (\<lambda>w. case m w of (Inl e, w') \<Rightarrow> (Inl e, w') | (Inr x, w') \<Rightarrow> f x w')"

text \<open>\<open>try { m } catch (e) { handler }\<close>\<close>

definition tryM :: "'a act \<Rightarrow> (error \<Rightarrow> 'a act) \<Rightarrow> 'a act" where
  "tryM m handler = (\<lambda>w. case m w of (Inl e, w') \<Rightarrow> handler e w' | (Inr x, w') \<Rightarrow> (Inr x, w'))"

text \<open>\<open>for (x : xs) co_await f(x);\<close>\<close>

fun forM :: "'a list \<Rightarrow> ('a \<Rightarrow> unit act) \<Rightarrow> unit act" where
  "forM [] f = ret ()"
| "forM (x # xs) f = bindM (f x) (\<lambda>_. forM xs f)"

fun mapM :: "'a list \<Rightarrow> ('a \<Rightarrow> 'b act) \<Rightarrow> 'b list act" where
  "mapM [] f = ret []"
| "mapM (x # xs) f = bindM (f x) (\<lambda>y. bindM (mapM xs f) (\<lambda>ys. ret (y # ys)))"

section \<open>Infrastructure\<close>

definition tick_step :: "world \<Rightarrow> world" where
  "tick_step w = w\<lparr>w_step := Suc (w_step w)\<rparr>"

definition attempt :: "(string \<Rightarrow> error) \<Rightarrow> 'a act \<Rightarrow> 'a act" where
  "attempt fault m = (\<lambda>w.
     case w_faults w (w_step w) of
       Some msg \<Rightarrow> (Inl (fault msg), tick_step w)
     | None \<Rightarrow> m (tick_step w))"

definition query :: "(instant \<Rightarrow> db \<Rightarrow> 'a) \<Rightarrow> 'a act" where
  "query f = attempt DbError (\<lambda>w. (Inr (f (w_now w) (w_db w)), w))"

text \<open>A SELECT that Postgres may reject.\<close>

definition query_or_fail :: "(db \<Rightarrow> error + 'a) \<Rightarrow> 'a act" where
  "query_or_fail f = attempt DbError (\<lambda>w. (f (w_db w), w))"

definition commit_write :: "host \<Rightarrow> error + (db \<times> 'a) \<Rightarrow> 'a act" where
  "commit_write h r = (\<lambda>w.
     case r of
       Inl e \<Rightarrow> (Inl e, w)
     | Inr (d, x) \<Rightarrow> (case violation h d of Some e \<Rightarrow> (Inl e, w) | None \<Rightarrow> (Inr x, w\<lparr>w_db := d\<rparr>)))"

definition exec :: "host \<Rightarrow> (instant \<Rightarrow> db \<Rightarrow> error + (db \<times> 'a)) \<Rightarrow> 'a act" where
  "exec h f = attempt DbError (\<lambda>w. commit_write h (f (w_now w) (w_db w)) w)"

definition next_id :: "table \<Rightarrow> world \<Rightarrow> world" where
  "next_id t w = w\<lparr>w_seq := (w_seq w)(t := w_seq w t + 1)\<rparr>"

definition insert_row :: "host \<Rightarrow> table \<Rightarrow> (int \<Rightarrow> instant \<Rightarrow> db \<Rightarrow> error + (db \<times> 'a)) \<Rightarrow> 'a act" where
  "insert_row h t f = attempt DbError (\<lambda>w. commit_write h (f (w_seq w t) (w_now w) (w_db w)) (next_id t w))"

datatype 'a outcome = Commit 'a | Rollback 'a

definition rolled_back :: "world \<Rightarrow> world \<Rightarrow> world" where
  "rolled_back w w' = w'\<lparr>w_db := w_db w\<rparr>"

definition transaction :: "'a outcome act \<Rightarrow> 'a act" where
  "transaction m = attempt DbError (\<lambda>w.
     case m w of
       (Inl e, w') \<Rightarrow> (Inl e, rolled_back w w')
     | (Inr (Rollback x), w') \<Rightarrow> (Inr x, rolled_back w w')
     | (Inr (Commit x), w') \<Rightarrow> (Inr x, w'))"

text \<open>A transaction whose body has no early rollback.\<close>

definition in_transaction :: "'a act \<Rightarrow> 'a act" where
  "in_transaction m = transaction (bindM m (\<lambda>x. ret (Commit x)))"

text \<open>The row \<open>LIMIT 1\<close> returns when no ORDER BY fixes it.\<close>

definition limit1 :: "host \<Rightarrow> 'a list \<Rightarrow> 'a option" where
  "limit1 h xs = (if xs = [] then None else Some (xs ! (h_choose h (length xs) mod length xs)))"

text \<open>ORDER BY with a total preorder, ties in table order.\<close>

fun insert_by :: "('a \<Rightarrow> 'a \<Rightarrow> bool) \<Rightarrow> 'a \<Rightarrow> 'a list \<Rightarrow> 'a list" where
  "insert_by le x [] = [x]"
| "insert_by le x (y # ys) = (if le x y then x # y # ys else y # insert_by le x ys)"

definition order_by :: "('a \<Rightarrow> 'a \<Rightarrow> bool) \<Rightarrow> 'a list \<Rightarrow> 'a list" where
  "order_by le xs = foldr (insert_by le) xs []"

text \<open>\<open>WHERE id = $1 ...\<close> on a unique column: the row, if any.\<close>

definition find_row :: "('a \<Rightarrow> bool) \<Rightarrow> 'a list \<Rightarrow> 'a option" where
  "find_row P xs = find P xs"

text \<open>\<open>UPDATE t SET ... WHERE P\<close>\<close>

definition update_where :: "('a \<Rightarrow> bool) \<Rightarrow> ('a \<Rightarrow> 'a) \<Rightarrow> 'a list \<Rightarrow> 'a list" where
  "update_where P f xs = map (\<lambda>x. if P x then f x else x) xs"

section \<open>Weakest preconditions\<close>

definition wp :: "'a act \<Rightarrow> (error + 'a \<Rightarrow> world \<Rightarrow> bool) \<Rightarrow> world \<Rightarrow> bool" where
  "wp m Q w \<longleftrightarrow> (case m w of (r, w') \<Rightarrow> Q r w')"

named_theorems wp_simps \<open>weakest preconditions of the combinators\<close>

lemma wp_ret [wp_simps]: "wp (ret x) Q w \<longleftrightarrow> Q (Inr x) w"
  by (simp add: wp_def ret_def)

lemma wp_raise [wp_simps]: "wp (raise e) Q w \<longleftrightarrow> Q (Inl e) w"
  by (simp add: wp_def raise_def)

lemma wp_lift [wp_simps]: "wp (lift r) Q w \<longleftrightarrow> Q r w"
  by (simp add: wp_def lift_def)

lemma wp_bindM [wp_simps]:
  "wp (bindM m f) Q w \<longleftrightarrow>
     wp m (\<lambda>r w'. case r of Inl e \<Rightarrow> Q (Inl e) w' | Inr x \<Rightarrow> wp (f x) Q w') w"
  by (auto simp: wp_def bindM_def split: prod.splits sum.splits)

lemma wp_tryM [wp_simps]:
  "wp (tryM m hdl) Q w \<longleftrightarrow>
     wp m (\<lambda>r w'. case r of Inl e \<Rightarrow> wp (hdl e) Q w' | Inr x \<Rightarrow> Q (Inr x) w') w"
  by (auto simp: wp_def tryM_def split: prod.splits sum.splits)

lemma wp_attempt:
  "wp (attempt fault m) Q w \<longleftrightarrow>
     (\<forall>msg. w_faults w (w_step w) = Some msg \<longrightarrow> Q (Inl (fault msg)) (tick_step w)) \<and>
     (w_faults w (w_step w) = None \<longrightarrow> wp m Q (tick_step w))"
  by (auto simp: wp_def attempt_def split: option.splits)

lemma wp_transaction:
  "wp (transaction m) Q w \<longleftrightarrow>
     (\<forall>msg. w_faults w (w_step w) = Some msg \<longrightarrow> Q (Inl (DbError msg)) (tick_step w)) \<and>
     (w_faults w (w_step w) = None \<longrightarrow>
      wp m (\<lambda>r w'. case r of
          Inl e \<Rightarrow> Q (Inl e) (rolled_back w w')
        | Inr (Rollback x) \<Rightarrow> Q (Inr x) (rolled_back w w')
        | Inr (Commit x) \<Rightarrow> Q (Inr x) w') (tick_step w))"
  unfolding transaction_def wp_attempt
  by (auto simp: wp_def rolled_back_def tick_step_def split: prod.splits sum.splits outcome.splits)

lemma wp_mono: "wp m Q w \<Longrightarrow> (\<And>r w'. Q r w' \<Longrightarrow> Q' r w') \<Longrightarrow> wp m Q' w"
  by (auto simp: wp_def)

lemma wp_conj: "wp m Q w \<Longrightarrow> wp m Q' w \<Longrightarrow> wp m (\<lambda>r w'. Q r w' \<and> Q' r w') w"
  by (auto simp: wp_def)

lemma wpD: "wp m Q w \<Longrightarrow> m w = (r, w') \<Longrightarrow> Q r w'"
  by (simp add: wp_def)

lemma wpI: "(\<And>r w'. m w = (r, w') \<Longrightarrow> Q r w') \<Longrightarrow> wp m Q w"
  by (simp add: wp_def split: prod.splits)

text \<open>A loop keeps what each iteration keeps.\<close>

lemma wp_forM:
  assumes "J w" and "\<And>x w. x \<in> set xs \<Longrightarrow> J w \<Longrightarrow> wp (f x) (\<lambda>r w'. case r of Inl e \<Rightarrow> E e w' | Inr _ \<Rightarrow> J w') w"
    and "\<And>w. J w \<Longrightarrow> Q (Inr ()) w" and "\<And>e w. E e w \<Longrightarrow> Q (Inl e) w"
  shows "wp (forM xs f) Q w"
  using assms(1,2)
proof (induction xs arbitrary: w)
  case Nil
  then show ?case by (simp add: wp_ret assms(3))
next
  case (Cons x xs)
  have "wp (f x) (\<lambda>r w'. case r of Inl e \<Rightarrow> E e w' | Inr _ \<Rightarrow> J w') w"
    using Cons.prems by simp
  then show ?case
    unfolding forM.simps wp_bindM
    by (rule wp_mono) (auto split: sum.splits intro: assms(4) intro!: Cons.IH Cons.prems(2))
qed

section \<open>Successful runs\<close>

text \<open>When an action returns, and what it leaves: one equivalence per combinator.\<close>

named_theorems runs \<open>what a run that returns has done\<close>

lemma ret_Inr [runs]: "ret x w = (Inr y, w') \<longleftrightarrow> y = x \<and> w' = w"
  by (auto simp: ret_def)

lemma raise_Inr [runs]: "raise e w = (Inr y, w') \<longleftrightarrow> False"
  by (simp add: raise_def)

lemma lift_Inr [runs]: "lift r w = (Inr y, w') \<longleftrightarrow> r = Inr y \<and> w' = w"
  by (auto simp: lift_def)

lemma bindM_Inr [runs]: "bindM m f w = (Inr y, w') \<longleftrightarrow> (\<exists>x w1. m w = (Inr x, w1) \<and> f x w1 = (Inr y, w'))"
  by (auto simp: bindM_def split: prod.splits sum.splits)

lemma query_Inr [runs]:
  "query f w = (Inr x, w') \<longleftrightarrow> w_faults w (w_step w) = None \<and> x = f (w_now w) (w_db w) \<and> w' = tick_step w"
  by (auto simp: query_def attempt_def tick_step_def split: option.splits)

lemma exec_Inr [runs]:
  "exec h f w = (Inr x, w') \<longleftrightarrow> w_faults w (w_step w) = None \<and>
     (\<exists>d. f (w_now w) (w_db w) = Inr (d, x) \<and> violation h d = None \<and> w' = (tick_step w)\<lparr>w_db := d\<rparr>)"
  by (auto simp: exec_def attempt_def commit_write_def tick_step_def split: option.splits sum.splits prod.splits)

lemma insert_row_Inr [runs]:
  "insert_row h t f w = (Inr x, w') \<longleftrightarrow> w_faults w (w_step w) = None \<and>
     (\<exists>d. f (w_seq w t) (w_now w) (w_db w) = Inr (d, x) \<and> violation h d = None \<and>
        w' = (next_id t (tick_step w))\<lparr>w_db := d\<rparr>)"
  by (auto simp: insert_row_def attempt_def commit_write_def tick_step_def next_id_def
      split: option.splits sum.splits prod.splits)

lemma in_transaction_Inr [runs]:
  "in_transaction m w = (Inr x, w') \<longleftrightarrow> w_faults w (w_step w) = None \<and> m (tick_step w) = (Inr x, w')"
  by (auto simp: in_transaction_def transaction_def attempt_def bindM_def ret_def
      split: option.splits sum.splits prod.splits outcome.splits)

section \<open>Relations that rollbacks preserve\<close>

definition honours :: "(world \<Rightarrow> world \<Rightarrow> bool) \<Rightarrow> 'a act \<Rightarrow> bool" where
  "honours R m \<longleftrightarrow> (\<forall>w. R w (snd (m w)))"

locale step_preorder =
  fixes R :: "world \<Rightarrow> world \<Rightarrow> bool"
  assumes R_refl: "R w w"
    and R_trans: "R a b \<Longrightarrow> R b c \<Longrightarrow> R a c"
    and R_tick: "R w (tick_step w)"
begin

lemma honours_ret: "honours R (ret x)"
  by (simp add: honours_def ret_def R_refl)

lemma honours_raise: "honours R (raise e)"
  by (simp add: honours_def raise_def R_refl)

lemma honours_lift: "honours R (lift r)"
  by (simp add: honours_def lift_def R_refl)

lemma honours_bindM:
  assumes "honours R m" and "\<And>x. honours R (f x)"
  shows "honours R (bindM m f)"
  unfolding honours_def
proof
  fix w
  have "R w (snd (m w))" using assms(1) by (simp add: honours_def)
  then show "R w (snd (bindM m f w))"
    using assms(2) by (auto simp: bindM_def honours_def split: prod.splits sum.splits intro: R_trans)
qed

lemma honours_bind_lift: "(\<And>x. r = Inr x \<Longrightarrow> honours R (f x)) \<Longrightarrow> honours R (bindM (lift r) f)"
  by (auto simp: honours_def bindM_def lift_def R_refl split: sum.splits)

lemma honours_tryM:
  assumes "honours R m" and "\<And>e. honours R (hdl e)"
  shows "honours R (tryM m hdl)"
  unfolding honours_def
proof
  fix w
  have "R w (snd (m w))" using assms(1) by (simp add: honours_def)
  then show "R w (snd (tryM m hdl w))"
    using assms(2) by (auto simp: tryM_def honours_def split: prod.splits sum.splits intro: R_trans)
qed

lemma honours_attempt:
  assumes "honours R m"
  shows "honours R (attempt fault m)"
  using assms R_tick by (auto simp: honours_def attempt_def split: option.splits intro: R_trans)

lemma honours_query: "honours R (query f)"
  unfolding query_def by (rule honours_attempt) (simp add: honours_def R_refl)

lemma honours_query_or_fail: "honours R (query_or_fail f)"
  unfolding query_or_fail_def by (rule honours_attempt) (simp add: honours_def R_refl)

lemma honours_forM: "(\<And>x. x \<in> set xs \<Longrightarrow> honours R (f x)) \<Longrightarrow> honours R (forM xs f)"
  by (induction xs) (auto intro: honours_ret honours_bindM)

lemma honours_mapM: "(\<And>x. x \<in> set xs \<Longrightarrow> honours R (f x)) \<Longrightarrow> honours R (mapM xs f)"
  by (induction xs) (auto intro!: honours_ret honours_bindM)

lemmas preorder_rules = honours_ret honours_raise honours_lift honours_bindM honours_tryM
  honours_query honours_query_or_fail honours_forM honours_mapM

end

locale step_relation = step_preorder +
  assumes R_rollback: "R w w' \<Longrightarrow> R w (rolled_back w w')"
begin

lemma honours_transaction:
  assumes "honours R m"
  shows "honours R (transaction m)"
  unfolding transaction_def
proof (rule honours_attempt, unfold honours_def, rule allI)
  fix w
  have "R w (snd (m w))" using assms by (simp add: honours_def)
  then show "R w (snd (case m w of
       (Inl e, w') \<Rightarrow> (Inl e, rolled_back w w')
     | (Inr (Rollback x), w') \<Rightarrow> (Inr x, rolled_back w w')
     | (Inr (Commit x), w') \<Rightarrow> (Inr x, w')))"
    by (auto split: prod.splits sum.splits outcome.splits intro: R_rollback)
qed

lemma honours_in_transaction: "honours R m \<Longrightarrow> honours R (in_transaction m)"
  unfolding in_transaction_def by (intro honours_transaction honours_bindM honours_ret)

lemmas honours_rules = preorder_rules honours_transaction honours_in_transaction

end

section \<open>Triples on the database\<close>

text \<open>
  \<open>triple P m Q\<close>: from a database with \<open>P\<close>, whenever \<open>m\<close> returns \<open>x\<close> the database has \<open>Q x\<close>. What \<open>m\<close>
  leaves when it throws is the transaction's business: \<open>keeps_transaction\<close> below.
\<close>

definition triple :: "(db \<Rightarrow> bool) \<Rightarrow> 'a act \<Rightarrow> ('a \<Rightarrow> db \<Rightarrow> bool) \<Rightarrow> bool" where
  "triple P m Q \<longleftrightarrow> (\<forall>w x w'. P (w_db w) \<longrightarrow> m w = (Inr x, w') \<longrightarrow> Q x (w_db w'))"

definition keeps :: "(db \<Rightarrow> bool) \<Rightarrow> 'a act \<Rightarrow> bool" where
  "keeps G m \<longleftrightarrow> (\<forall>w. G (w_db w) \<longrightarrow> G (w_db (snd (m w))))"

named_theorems triples \<open>one triple per combinator and statement\<close>

lemma w_db_tick [simp]: "w_db (tick_step w) = w_db w"
  by (simp add: tick_step_def)

lemma w_db_rolled_back [simp]: "w_db (rolled_back w w') = w_db w"
  by (simp add: rolled_back_def)

lemma w_db_next_id [simp]: "w_db (next_id t w) = w_db w"
  by (simp add: next_id_def)

lemma triple_ret: "(\<And>d. P d \<Longrightarrow> Q x d) \<Longrightarrow> triple P (ret x) Q"
  by (simp add: triple_def ret_def)

lemma triple_raise: "triple P (raise e) Q"
  by (simp add: triple_def raise_def)

lemma triple_lift: "(\<And>x d. r = Inr x \<Longrightarrow> P d \<Longrightarrow> Q x d) \<Longrightarrow> triple P (lift r) Q"
  by (simp add: triple_def lift_def)

lemma triple_bindM:
  assumes "triple P m Q" and "\<And>x. triple (Q x) (f x) R"
  shows "triple P (bindM m f) R"
  unfolding triple_def
proof (intro allI impI)
  fix w y w'
  assume "P (w_db w)" and run: "bindM m f w = (Inr y, w')"
  from run obtain x w1 where "m w = (Inr x, w1)" "f x w1 = (Inr y, w')"
    by (auto simp: bindM_def split: prod.splits sum.splits)
  then show "R y (w_db w')" using \<open>P (w_db w)\<close> assms unfolding triple_def by blast
qed

lemma triple_tryM:
  assumes "triple P m Q" and "\<And>e. hdl e = raise (f e)"
  shows "triple P (tryM m hdl) Q"
  using assms by (auto simp: triple_def tryM_def raise_def split: prod.splits sum.splits)

lemma triple_conseq:
  "triple P' m Q' \<Longrightarrow> (\<And>d. P d \<Longrightarrow> P' d) \<Longrightarrow> (\<And>x d. Q' x d \<Longrightarrow> Q x d) \<Longrightarrow> triple P m Q"
  unfolding triple_def by blast

lemma triple_query: "(\<And>t d. P d \<Longrightarrow> Q (f t d) d) \<Longrightarrow> triple P (query f) Q"
  by (auto simp: triple_def query_def attempt_def split: option.splits)

lemma triple_exec:
  "(\<And>t d d' x. P d \<Longrightarrow> f t d = Inr (d', x) \<Longrightarrow> violation h d' = None \<Longrightarrow> Q x d') \<Longrightarrow> triple P (exec h f) Q"
  by (auto simp: triple_def exec_def attempt_def commit_write_def
      split: option.splits sum.splits prod.splits)

lemma triple_insert_row:
  "(\<And>n t d d' x. P d \<Longrightarrow> f n t d = Inr (d', x) \<Longrightarrow> violation h d' = None \<Longrightarrow> Q x d') \<Longrightarrow>
   triple P (insert_row h tb f) Q"
  by (auto simp: triple_def insert_row_def attempt_def commit_write_def
      split: option.splits sum.splits prod.splits)

lemma triple_forM:
  assumes "\<And>x. x \<in> set xs \<Longrightarrow> triple J (f x) (\<lambda>_. J)"
  shows "triple J (forM xs f) (\<lambda>_. J)"
  using assms by (induction xs) (auto intro: triple_ret triple_bindM)

lemma triple_option:
  "(x = None \<Longrightarrow> triple P a Q) \<Longrightarrow> (\<And>y. x = Some y \<Longrightarrow> triple P (b y) Q) \<Longrightarrow>
   triple P (case x of None \<Rightarrow> a | Some y \<Rightarrow> b y) Q"
  by (cases x) auto

lemma triple_if: "(c \<Longrightarrow> triple P a Q) \<Longrightarrow> (\<not> c \<Longrightarrow> triple P b Q) \<Longrightarrow> triple P (if c then a else b) Q"
  by simp

text \<open>Forward rules: what a query returned and what a pure step accepted join the precondition.\<close>

lemma triple_bind_query:
  "(\<And>x. triple (\<lambda>d. P d \<and> (\<exists>t. x = f t d)) (g x) R) \<Longrightarrow> triple P (bindM (query f) g) R"
  by (rule triple_bindM [where Q = "\<lambda>x d. P d \<and> (\<exists>t. x = f t d)"], rule triple_query) auto

lemma triple_bind_lift: "(\<And>x. r = Inr x \<Longrightarrow> triple P (g x) R) \<Longrightarrow> triple P (bindM (lift r) g) R"
  by (rule triple_bindM [where Q = "\<lambda>x d. r = Inr x \<and> P d"], rule triple_lift) (auto simp: triple_def)

lemma triple_bind_ret: "triple P (g x) R \<Longrightarrow> triple P (bindM (ret x) g) R"
  by (simp add: triple_def bindM_def ret_def)

lemma triple_pure: "(\<And>d. P d \<Longrightarrow> c) \<Longrightarrow> (c \<Longrightarrow> triple P m Q) \<Longrightarrow> triple P m Q"
  unfolding triple_def by blast

text \<open>What an action that throws may leave: a lone statement nothing, a transaction nothing.\<close>

lemma keeps_bind_pure: "(\<And>x. keeps G (f x)) \<Longrightarrow> keeps G (bindM (lift r) f)"
  by (auto simp: keeps_def bindM_def lift_def split: sum.splits)

lemma keeps_bindM: "keeps G m \<Longrightarrow> (\<And>x. keeps G (f x)) \<Longrightarrow> keeps G (bindM m f)"
  by (auto simp: keeps_def bindM_def split: prod.splits sum.splits)

lemma keeps_query: "keeps G (query f)"
  by (simp add: keeps_def query_def attempt_def split: option.splits)

lemma keeps_ret: "keeps G (ret x)"
  by (simp add: keeps_def ret_def)

lemma keeps_raise: "keeps G (raise e)"
  by (simp add: keeps_def raise_def)

lemma exec_throws: "exec h f w = (Inl e, w') \<Longrightarrow> w_db w' = w_db w"
  by (auto simp: exec_def attempt_def commit_write_def split: option.splits sum.splits prod.splits)

lemma insert_row_throws: "insert_row h tb f w = (Inl e, w') \<Longrightarrow> w_db w' = w_db w"
  by (auto simp: insert_row_def attempt_def commit_write_def split: option.splits sum.splits prod.splits)

lemma transaction_throws: "transaction m w = (Inl e, w') \<Longrightarrow> w_db w' = w_db w"
  by (auto simp: transaction_def attempt_def split: option.splits prod.splits sum.splits outcome.splits)

lemma in_transaction_throws: "in_transaction m w = (Inl e, w') \<Longrightarrow> w_db w' = w_db w"
  unfolding in_transaction_def by (rule transaction_throws)

lemma keeps_exec: "triple G (exec h f) (\<lambda>_. G) \<Longrightarrow> keeps G (exec h f)"
  unfolding keeps_def triple_def
  by (metis exec_throws prod.collapse sum.exhaust)

lemma keeps_insert_row: "triple G (insert_row h tb f) (\<lambda>_. G) \<Longrightarrow> keeps G (insert_row h tb f)"
  unfolding keeps_def triple_def
  by (metis insert_row_throws prod.collapse sum.exhaust)

text \<open>A check before the transaction, whose answer the transaction relies on.\<close>

definition keeps_pre :: "(db \<Rightarrow> bool) \<Rightarrow> (db \<Rightarrow> bool) \<Rightarrow> 'a act \<Rightarrow> bool" where
  "keeps_pre P G m \<longleftrightarrow> (\<forall>w. P (w_db w) \<longrightarrow> G (w_db w) \<longrightarrow> G (w_db (snd (m w))))"

lemma keeps_bind_query:
  assumes "\<And>x. keeps_pre (\<lambda>d. \<exists>t. x = f t d) G (g x)"
  shows "keeps G (bindM (query f) g)"
  unfolding keeps_def
proof (intro allI impI)
  fix w :: world
  assume "G (w_db w)"
  then show "G (w_db (snd (bindM (query f) g w)))"
    using assms [of "f (w_now (tick_step w)) (w_db w)", unfolded keeps_pre_def, rule_format, of "tick_step w"]
    by (auto simp: bindM_def query_def attempt_def split: option.splits)
qed

lemma keeps_pre_keeps: "keeps G m \<Longrightarrow> keeps_pre P G m"
  by (simp add: keeps_def keeps_pre_def)

lemma keeps_pre_lift: "(\<And>x. keeps_pre P G (f x)) \<Longrightarrow> keeps_pre P G (bindM (lift r) f)"
  by (auto simp: keeps_pre_def bindM_def lift_def split: sum.splits)

lemma keeps_pre_transaction:
  assumes "triple (\<lambda>d. P d \<and> G d) m (\<lambda>x d. case x of Commit _ \<Rightarrow> G d | Rollback _ \<Rightarrow> True)"
  shows "keeps_pre P G (transaction m)"
  unfolding keeps_pre_def
proof (intro allI impI)
  fix w :: world
  assume "P (w_db w)" "G (w_db w)"
  obtain r w' where run: "m (tick_step w) = (r, w')" by (cases "m (tick_step w)")
  have "G (w_db w')" if "r = Inr (Commit x)" for x
    using assms [unfolded triple_def, rule_format, of "tick_step w" "Commit x" w'] run that
      \<open>P (w_db w)\<close> \<open>G (w_db w)\<close> by simp
  then show "G (w_db (snd (transaction m w)))"
    using \<open>G (w_db w)\<close> by (auto simp: transaction_def attempt_def run split: option.splits sum.splits outcome.splits)
qed

lemma keeps_transaction:
  "triple G m (\<lambda>x d. case x of Commit _ \<Rightarrow> G d | Rollback _ \<Rightarrow> True) \<Longrightarrow> keeps G (transaction m)"
  using keeps_pre_transaction [where P = "\<lambda>_. True" and G = G and m = m] by (simp add: keeps_pre_def keeps_def)

lemma keeps_in_transaction: "triple G m (\<lambda>_. G) \<Longrightarrow> keeps G (in_transaction m)"
  unfolding in_transaction_def
  by (rule keeps_transaction, rule triple_bindM) (auto intro: triple_ret)

lemma keeps_tryM: "keeps G m \<Longrightarrow> (\<And>e. keeps G (hdl e)) \<Longrightarrow> keeps G (tryM m hdl)"
  by (auto simp: keeps_def tryM_def split: prod.splits sum.splits)

end
