(* ===== verification/Tokens.thy ===== *)
theory Tokens
  imports Actions
begin

text \<open>
  Hex encoding, random tokens, token and image hashes, password hashing and environment
  lookups (\<^verbatim>\<open>src/src/auth/TokenUtils.cpp\<close>, \<^verbatim>\<open>PasswordHasher.cpp\<close>,
  \<^verbatim>\<open>src/src/config/Env.h\<close>, and the \<open>sha256Hex\<close> of \<^verbatim>\<open>ReceiptService.cpp\<close> and
  \<^verbatim>\<open>Sigv4Signer.cpp\<close>). \<open>sodium_init\<close> is taken to have succeeded. The lemmas show that hex
  encoding is injective and keeps to sixteen characters, which is what makes a generated key
  recoverable.
\<close>

unbundle bit_operations_syntax

definition envOr :: "host \<Rightarrow> string \<Rightarrow> string \<Rightarrow> string" where
  "envOr h name fallback = (case h_env h name of Some v \<Rightarrow> v | None \<Rightarrow> fallback)"

definition hex_digit :: "nat \<Rightarrow> char" where
  "hex_digit n = ''0123456789abcdef'' ! n"

definition hex_byte :: "8 word \<Rightarrow> string" where
  "hex_byte b = [hex_digit (unat (drop_bit 4 b)), hex_digit (unat (b AND 0x0F))]"

definition toHex :: "8 word list \<Rightarrow> string" where
  "toHex bs = concat (map hex_byte bs)"

definition randombytes :: "nat \<Rightarrow> 8 word list act" where
  "randombytes n = (\<lambda>w. (Inr (map (w_random w) [w_rpos w ..< w_rpos w + n]), w\<lparr>w_rpos := w_rpos w + n\<rparr>))"

definition generateToken :: "nat \<Rightarrow> string act" where
  "generateToken byteLength = bindM (randombytes byteLength) (\<lambda>buf. ret (toHex buf))"

definition hashToken :: "host \<Rightarrow> string \<Rightarrow> string" where
  "hashToken h token = toHex (h_sha256 h token)"

definition sha256Hex :: "host \<Rightarrow> string \<Rightarrow> string" where
  "sha256Hex h data = toHex (h_sha256 h data)"

text \<open>\<open>crypto_pwhash_str\<close> draws a 16-byte salt; it fails when it runs out of memory.\<close>

definition pw_hash :: "host \<Rightarrow> string \<Rightarrow> string act" where
  "pw_hash h password = (\<lambda>w.
     case h_pwhash h password (w_rpos w) of
       None \<Rightarrow> (Inl (RuntimeError ''PasswordHasher::hash: crypto_pwhash_str failed (out of memory?)''), w)
     | Some out \<Rightarrow> (Inr out, w\<lparr>w_rpos := w_rpos w + 16\<rparr>))"

definition pw_verify :: "host \<Rightarrow> string \<Rightarrow> string \<Rightarrow> bool" where
  "pw_verify h password stored = h_pwverify h password stored"

section \<open>Hex encoding\<close>

lemma nibbles: "unat (drop_bit 4 b) = unat b div 16" "unat (b AND 0x0F) = unat b mod 16" for b :: "8 word"
proof -
  show "unat (drop_bit 4 b) = unat b div 16" by (simp add: drop_bit_eq_div unat_div_distrib)
  have "b AND 0x0F = take_bit 4 b" by (simp add: take_bit_eq_mask mask_numeral)
  then show "unat (b AND 0x0F) = unat b mod 16" by (simp add: take_bit_eq_mod unat_mod_distrib)
qed

lemma hi_nibble: "unat x div 16 < 16" for x :: "8 word"
proof -
  have "unat x < 2 ^ LENGTH(8)" by (rule unsigned_less)
  then show ?thesis by simp
qed

lemma hex_digit_inj: "m < 16 \<Longrightarrow> n < 16 \<Longrightarrow> hex_digit m = hex_digit n \<longleftrightarrow> m = n"
proof -
  assume "m < 16" "n < 16"
  moreover have "distinct ''0123456789abcdef''" by simp
  ultimately show ?thesis unfolding hex_digit_def by (subst nth_eq_iff_index_eq) simp_all
qed

lemma hex_byte_inj: "hex_byte a = hex_byte b \<longleftrightarrow> a = b"
proof
  assume "hex_byte a = hex_byte b"
  moreover have "unat x div 16 < 16" for x :: "8 word" by (rule hi_nibble)
  ultimately have "unat a div 16 = unat b div 16" "unat a mod 16 = unat b mod 16"
    by (simp_all add: hex_byte_def nibbles hex_digit_inj)
  then show "a = b" by (metis div_mult_mod_eq word_unat_eq_iff)
qed simp

lemma length_hex_byte [simp]: "length (hex_byte b) = 2"
  by (simp add: hex_byte_def)

lemma length_toHex [simp]: "length (toHex bs) = 2 * length bs"
  by (induction bs) (simp_all add: toHex_def)

lemma toHex_inj: "toHex a = toHex b \<Longrightarrow> a = b"
proof (induction a arbitrary: b)
  case Nil
  then show ?case by (cases b) (auto simp: toHex_def hex_byte_def)
next
  case (Cons x a)
  then obtain y c where b: "b = y # c" by (cases b) (auto simp: toHex_def hex_byte_def)
  have "hex_byte x = hex_byte y \<and> toHex a = toHex c"
    using Cons.prems unfolding b toHex_def by (simp add: append_eq_append_conv)
  then show ?case using Cons.IH hex_byte_inj b by blast
qed

definition hex_chars :: "char set" where
  "hex_chars = set ''0123456789abcdef''"

lemma hex_digit_chars: "n < 16 \<Longrightarrow> hex_digit n \<in> hex_chars"
  unfolding hex_digit_def hex_chars_def by (rule nth_mem) simp

lemma toHex_chars: "set (toHex bs) \<subseteq> hex_chars"
proof -
  have "set (hex_byte b) \<subseteq> hex_chars" for b
    by (simp add: hex_byte_def nibbles hex_digit_chars hi_nibble)
  then show ?thesis by (auto simp: toHex_def)
qed

section \<open>Properties\<close>

text \<open>hex encoding is lossless, doubles the length and uses only lower-case hex digits, so distinct
  random bytes or digests have distinct tokens, hashes and image keys.\<close>

theorem toHex_lossless:
  "inj toHex \<and> (\<forall>bs. length (toHex bs) = 2 * length bs \<and> set (toHex bs) \<subseteq> hex_chars)"
  using toHex_inj toHex_chars by (simp add: inj_def)

end
