(* ===== verification/ReferenceData.thy ===== *)
theory ReferenceData
  imports Tokens
begin

text \<open>
  The three user-editable lists, categories, tags and payment methods:
  \<^verbatim>\<open>src/src/receipts/ReferenceDataService.h\<close> and \<^verbatim>\<open>ReferenceDataService.cpp\<close>. The unique indexes and
  the ON DELETE rules they rely on are those of \<open>World\<close>.
\<close>

record Category =
  ca_id :: int
  ca_name :: string
  ca_isIncome :: bool

record Tag =
  tg_id :: int
  tg_name :: string

record PaymentMethod =
  pm_id :: int
  pm_name :: string
  pm_storedValue :: bool

definition rethrowAsConflictIfDuplicate :: "string \<Rightarrow> error \<Rightarrow> 'a act" where
  "rethrowAsConflictIfDuplicate noun e =
     (if has_substr kDuplicateKey (what_of e)
      then raise (ConflictError (''a '' @ noun @ '' with that name already exists''))
      else raise e)"

definition some_of :: "(json \<Rightarrow> string \<Rightarrow> error + 'a) \<Rightarrow> json \<Rightarrow> string \<Rightarrow> error + 'a option" where
  "some_of read v field = rbind (read v field) (\<lambda>x. Inr (Some x))"

definition requiredName :: "json \<Rightarrow> error + string" where
  "requiredName body =
     rbind (setIfPresent body ''name'' None (some_of requiredString)) (\<lambda>name.
     case name of None \<Rightarrow> Inl (ValidationError ''name is required'') | Some n \<Rightarrow> Inr n)"

definition rowToCategory :: "category_row \<Rightarrow> Category" where
  "rowToCategory c = \<lparr>ca_id = c_id c, ca_name = c_name c, ca_isIncome = c_is_income c\<rparr>"

definition rowToTag :: "tag_row \<Rightarrow> Tag" where
  "rowToTag t = \<lparr>tg_id = t_id t, tg_name = t_name t\<rparr>"

definition rowToPaymentMethod :: "payment_method_row \<Rightarrow> PaymentMethod" where
  "rowToPaymentMethod p = \<lparr>pm_id = p_id p, pm_name = p_name p, pm_storedValue = p_stored_value p\<rparr>"

text \<open>\<open>ORDER BY lower(name), id\<close>\<close>

definition by_name :: "host \<Rightarrow> ('a \<Rightarrow> string) \<Rightarrow> ('a \<Rightarrow> int) \<Rightarrow> 'a \<Rightarrow> 'a \<Rightarrow> bool" where
  "by_name h name ident a b =
     (let la = h_lower h (name a); lb = h_lower h (name b)
      in if la = lb then ident a \<le> ident b else h_collate h la lb)"

text \<open>\<open>removeOwned\<close>, for the table whose rows \<open>find\<close> looks up and \<open>drop\<close> deletes.\<close>

definition removeOwned :: "host \<Rightarrow> (db \<Rightarrow> 'a option) \<Rightarrow> (db \<Rightarrow> db) \<Rightarrow> string \<Rightarrow> unit act" where
  "removeOwned h look drp noun =
     bindM (exec h (\<lambda>_ d. Inr (drp d, look d))) (\<lambda>result.
     case result of None \<Rightarrow> raise (NotFoundError (noun @ '' not found'')) | Some _ \<Rightarrow> ret ())"

section \<open>Categories\<close>

definition category_list :: "host \<Rightarrow> int \<Rightarrow> Category list act" where
  "category_list h userId =
     query (\<lambda>_ d. map rowToCategory
       (order_by (by_name h c_name c_id) (filter (\<lambda>c. c_user_id c = userId) (d_categories d))))"

definition category_keys :: "string list" where
  "category_keys = [''name'', ''is_income'']"

definition insert_category :: "host \<Rightarrow> int \<Rightarrow> string \<Rightarrow> bool \<Rightarrow> category_row act" where
  "insert_category h userId name isIncome =
     insert_row h Categories (\<lambda>n _ d.
       let row = \<lparr>c_id = n, c_user_id = userId, c_name = name, c_is_income = isIncome\<rparr>
       in Inr (d\<lparr>d_categories := d_categories d @ [row]\<rparr>, row))"

definition category_create :: "host \<Rightarrow> int \<Rightarrow> json \<Rightarrow> Category act" where
  "category_create h userId body =
     bindM (lift (requireObject body)) (\<lambda>_.
     bindM (lift (rejectUnknownKeys body category_keys)) (\<lambda>_.
     bindM (lift (requiredName body)) (\<lambda>name.
     bindM (lift (setIfPresent body ''is_income'' False boolean)) (\<lambda>isIncome.
     bindM (tryM (insert_category h userId name isIncome) (rethrowAsConflictIfDuplicate ''category'')) (\<lambda>row.
     ret (rowToCategory row))))))"

text \<open>The items that hold a category on the wrong side once it is flipped to \<open>isIncome\<close>;
  \<open>r.kind IN incomeKindsSqlList()\<close> is membership in the kinds the table marks.\<close>

definition income_kind :: "string \<Rightarrow> bool" where
  "income_kind kind \<longleftrightarrow> (\<exists>rules \<in> set kKinds. kr_usesIncomeCategories rules \<and> kr_name rules = kind)"

definition category_clash :: "int \<Rightarrow> bool \<Rightarrow> db \<Rightarrow> bool" where
  "category_clash cid isIncome d \<longleftrightarrow>
     (\<exists>i \<in> set (d_items d). \<exists>r \<in> set (d_receipts d).
        r_id r = i_receipt_id i \<and> i_category_id i = Some cid \<and> income_kind (r_kind r) \<noteq> isIncome)"

definition update_category :: "host \<Rightarrow> Category \<Rightarrow> unit act" where
  "update_category h category =
     exec h (\<lambda>_ d. Inr (d\<lparr>d_categories := update_where (\<lambda>c. c_id c = ca_id category)
       (\<lambda>c. c\<lparr>c_name := ca_name category, c_is_income := ca_isIncome category\<rparr>) (d_categories d)\<rparr>, ()))"

definition category_update_body :: "host \<Rightarrow> int \<Rightarrow> int \<Rightarrow> string option \<Rightarrow> bool option \<Rightarrow> Category act" where
  "category_update_body h userId cid name isIncome =
     bindM (query (\<lambda>_ d. find_row (\<lambda>c. c_id c = cid \<and> c_user_id c = userId) (d_categories d))) (\<lambda>current.
     case current of
       None \<Rightarrow> raise (NotFoundError ''category not found'')
     | Some row \<Rightarrow>
         bindM (case isIncome of
             None \<Rightarrow> ret ()
           | Some inc \<Rightarrow>
               if inc = c_is_income row then ret ()
               else bindM (query (\<lambda>_ d. category_clash cid inc d)) (\<lambda>clash.
                 if clash then raise (ValidationError
                   (if inc then ''category is used by items on non-income receipts''
                    else ''category is used by items on income receipts''))
                 else ret ())) (\<lambda>_.
         let category = \<lparr>ca_id = cid, ca_name = (case name of Some n \<Rightarrow> n | None \<Rightarrow> c_name row),
               ca_isIncome = (case isIncome of Some inc \<Rightarrow> inc | None \<Rightarrow> c_is_income row)\<rparr>
         in bindM (update_category h category) (\<lambda>_. ret category)))"

definition category_update :: "host \<Rightarrow> int \<Rightarrow> int \<Rightarrow> json \<Rightarrow> Category act" where
  "category_update h userId cid body =
     bindM (lift (requireObject body)) (\<lambda>_.
     bindM (lift (rejectUnknownKeys body category_keys)) (\<lambda>_.
     bindM (lift (setIfPresent body ''name'' None (some_of requiredString))) (\<lambda>name.
     bindM (lift (setIfPresent body ''is_income'' None (some_of boolean))) (\<lambda>isIncome.
     in_transaction (tryM (category_update_body h userId cid name isIncome)
       (rethrowAsConflictIfDuplicate ''category''))))))"

definition category_remove :: "host \<Rightarrow> int \<Rightarrow> int \<Rightarrow> unit act" where
  "category_remove h userId cid =
     removeOwned h (\<lambda>d. find_row (\<lambda>c. c_id c = cid \<and> c_user_id c = userId) (d_categories d))
       (drop_categories (\<lambda>c. c_id c = cid \<and> c_user_id c = userId)) ''category''"

section \<open>Tags\<close>

definition tag_list :: "host \<Rightarrow> int \<Rightarrow> Tag list act" where
  "tag_list h userId =
     query (\<lambda>_ d. map rowToTag
       (order_by (by_name h t_name t_id) (filter (\<lambda>t. t_user_id t = userId) (d_tags d))))"

definition insert_tag :: "host \<Rightarrow> int \<Rightarrow> string \<Rightarrow> tag_row act" where
  "insert_tag h userId name =
     insert_row h Tags (\<lambda>n _ d.
       let row = \<lparr>t_id = n, t_user_id = userId, t_name = name\<rparr>
       in Inr (d\<lparr>d_tags := d_tags d @ [row]\<rparr>, row))"

definition tag_create :: "host \<Rightarrow> int \<Rightarrow> json \<Rightarrow> Tag act" where
  "tag_create h userId body =
     bindM (lift (requireObject body)) (\<lambda>_.
     bindM (lift (rejectUnknownKeys body [''name''])) (\<lambda>_.
     bindM (lift (requiredName body)) (\<lambda>name.
     bindM (tryM (insert_tag h userId name) (rethrowAsConflictIfDuplicate ''tag'')) (\<lambda>row.
     ret (rowToTag row)))))"

definition rename_tag :: "host \<Rightarrow> int \<Rightarrow> int \<Rightarrow> string \<Rightarrow> tag_row option act" where
  "rename_tag h userId tid name =
     exec h (\<lambda>_ d.
       let tags = update_where (\<lambda>t. t_id t = tid \<and> t_user_id t = userId) (\<lambda>t. t\<lparr>t_name := name\<rparr>) (d_tags d)
       in Inr (d\<lparr>d_tags := tags\<rparr>, find_row (\<lambda>t. t_id t = tid \<and> t_user_id t = userId) tags))"

definition tag_update :: "host \<Rightarrow> int \<Rightarrow> int \<Rightarrow> json \<Rightarrow> Tag act" where
  "tag_update h userId tid body =
     bindM (lift (requireObject body)) (\<lambda>_.
     bindM (lift (rejectUnknownKeys body [''name''])) (\<lambda>_.
     bindM (lift (requiredName body)) (\<lambda>name.
     bindM (tryM (rename_tag h userId tid name) (rethrowAsConflictIfDuplicate ''tag'')) (\<lambda>result.
     case result of
       None \<Rightarrow> raise (NotFoundError ''tag not found'')
     | Some row \<Rightarrow> ret (rowToTag row)))))"

definition tag_remove :: "host \<Rightarrow> int \<Rightarrow> int \<Rightarrow> unit act" where
  "tag_remove h userId tid =
     removeOwned h (\<lambda>d. find_row (\<lambda>t. t_id t = tid \<and> t_user_id t = userId) (d_tags d))
       (drop_tags (\<lambda>t. t_id t = tid \<and> t_user_id t = userId)) ''tag''"

section \<open>Payment methods\<close>

definition payment_method_list :: "host \<Rightarrow> int \<Rightarrow> PaymentMethod list act" where
  "payment_method_list h userId =
     query (\<lambda>_ d. map rowToPaymentMethod
       (order_by (by_name h p_name p_id) (filter (\<lambda>p. p_user_id p = userId) (d_payment_methods d))))"

definition payment_method_keys :: "string list" where
  "payment_method_keys = [''name'', ''stored_value'']"

definition insert_payment_method :: "host \<Rightarrow> int \<Rightarrow> string \<Rightarrow> bool \<Rightarrow> payment_method_row act" where
  "insert_payment_method h userId name storedValue =
     insert_row h PaymentMethods (\<lambda>n _ d.
       let row = \<lparr>p_id = n, p_user_id = userId, p_name = name, p_stored_value = storedValue\<rparr>
       in Inr (d\<lparr>d_payment_methods := d_payment_methods d @ [row]\<rparr>, row))"

definition payment_method_create :: "host \<Rightarrow> int \<Rightarrow> json \<Rightarrow> PaymentMethod act" where
  "payment_method_create h userId body =
     bindM (lift (requireObject body)) (\<lambda>_.
     bindM (lift (rejectUnknownKeys body payment_method_keys)) (\<lambda>_.
     bindM (lift (requiredName body)) (\<lambda>name.
     bindM (lift (setIfPresent body ''stored_value'' False boolean)) (\<lambda>storedValue.
     bindM (tryM (insert_payment_method h userId name storedValue)
        (rethrowAsConflictIfDuplicate ''payment method'')) (\<lambda>row.
     ret (rowToPaymentMethod row))))))"

definition set_payment_method ::
    "host \<Rightarrow> int \<Rightarrow> int \<Rightarrow> string option \<Rightarrow> bool option \<Rightarrow> payment_method_row option act" where
  "set_payment_method h userId pid name storedValue =
     exec h (\<lambda>_ d.
       let rows = update_where (\<lambda>p. p_id p = pid \<and> p_user_id p = userId)
             (\<lambda>p. p\<lparr>p_name := (case name of Some n \<Rightarrow> n | None \<Rightarrow> p_name p),
                    p_stored_value := (case storedValue of Some s \<Rightarrow> s | None \<Rightarrow> p_stored_value p)\<rparr>)
             (d_payment_methods d)
       in Inr (d\<lparr>d_payment_methods := rows\<rparr>, find_row (\<lambda>p. p_id p = pid \<and> p_user_id p = userId) rows))"

definition payment_method_update :: "host \<Rightarrow> int \<Rightarrow> int \<Rightarrow> json \<Rightarrow> PaymentMethod act" where
  "payment_method_update h userId pid body =
     bindM (lift (requireObject body)) (\<lambda>_.
     bindM (lift (rejectUnknownKeys body payment_method_keys)) (\<lambda>_.
     bindM (lift (setIfPresent body ''name'' None (some_of requiredString))) (\<lambda>name.
     bindM (lift (setIfPresent body ''stored_value'' None (some_of boolean))) (\<lambda>storedValue.
     bindM (tryM (set_payment_method h userId pid name storedValue)
        (rethrowAsConflictIfDuplicate ''payment method'')) (\<lambda>result.
     case result of
       None \<Rightarrow> raise (NotFoundError ''payment method not found'')
     | Some row \<Rightarrow> ret (rowToPaymentMethod row))))))"

definition payment_method_remove :: "host \<Rightarrow> int \<Rightarrow> int \<Rightarrow> unit act" where
  "payment_method_remove h userId pid =
     removeOwned h (\<lambda>d. find_row (\<lambda>p. p_id p = pid \<and> p_user_id p = userId) (d_payment_methods d))
       (drop_payment_methods (\<lambda>p. p_id p = pid \<and> p_user_id p = userId)) ''payment method''"

end
