(* ===== verification/Auth.thy ===== *)
theory Auth
  imports ReferenceData
begin

text \<open>
  Accounts and sessions: \<^verbatim>\<open>src/src/auth/AuthService.cpp\<close>, \<^verbatim>\<open>AuthService.h\<close>,
  \<^verbatim>\<open>RateLimiter.h\<close>, the seeds of \<^verbatim>\<open>src/src/seeds/DefaultSeeds.h\<close> and the session filter of
  \<^verbatim>\<open>src/src/filters/SessionAuthFilter.cpp\<close>. An interval is a number of microseconds.
  \<open>confirmPasswordReset\<close> has no rollback of its own: a statement that fails has aborted the transaction in
  Postgres, whose commit is then a rollback, which is what \<open>in_transaction\<close> does.
\<close>

section \<open>Rate limiter\<close>

record Entry =
  en_windowStart :: int
  en_count :: int

record RateLimiter =
  rl_maxAttempts :: int
  rl_window :: int
  rl_attempts :: "string \<Rightarrow> Entry option"

text \<open>\<open>allow\<close> at the instant \<open>now\<close>. A new entry starts its window at its construction, which is not before
  \<open>now\<close> is read, so it is not reset by the same call; its start is taken to be \<open>now\<close>.\<close>

definition entry_at :: "RateLimiter \<Rightarrow> int \<Rightarrow> string \<Rightarrow> Entry" where
  "entry_at lim now key =
     (case rl_attempts lim key of None \<Rightarrow> \<lparr>en_windowStart = now, en_count = 0\<rparr> | Some e \<Rightarrow> e)"

definition allow :: "RateLimiter \<Rightarrow> int \<Rightarrow> string \<Rightarrow> bool \<times> RateLimiter" where
  "allow lim now key =
     (let entry = entry_at lim now key;
          entry = (if now - en_windowStart entry > rl_window lim
                   then \<lparr>en_windowStart = now, en_count = 0\<rparr> else entry);
          entry = entry\<lparr>en_count := en_count entry + 1\<rparr>
      in (en_count entry \<le> rl_maxAttempts lim, lim\<lparr>rl_attempts := (rl_attempts lim)(key \<mapsto> entry)\<rparr>))"

text \<open>A sequence of attempts: the answers, in order.\<close>

fun attempts :: "RateLimiter \<Rightarrow> (int \<times> string) list \<Rightarrow> bool list" where
  "attempts lim [] = []"
| "attempts lim ((now, key) # rest) = (case allow lim now key of (ok, lim') \<Rightarrow> ok # attempts lim' rest)"

section \<open>Seeds\<close>

definition kExpenseCategories :: "string list" where
  "kExpenseCategories = [''groceries'', ''dining/takeaway'', ''transport'', ''fuel'', ''household'', ''utilities'',
     ''subscriptions'', ''insurance'', ''health'', ''clothing'', ''entertainment'', ''gifts'', ''fees'',
     ''bonds/deposits'', ''rewards'', ''work-expenses'', ''junk food'', ''hobby'', ''other'']"

definition kIncomeCategories :: "string list" where
  "kIncomeCategories = [''salary'', ''interest'', ''dividends/distributions'', ''other-income'']"

definition kDefaultPaymentMethod :: string where
  "kDefaultPaymentMethod = ''cash''"

section \<open>AuthService\<close>

definition kSessionLifetimeSeconds :: int where
  "kSessionLifetimeSeconds = 30 * 24 * 60 * 60"

definition sessionTouchIntervalSeconds :: "host \<Rightarrow> error + int" where
  "sessionTouchIntervalSeconds h = stoll (envOr h ''SESSION_TOUCH_INTERVAL'' ''86400'')"

definition interval :: "int \<Rightarrow> int" where
  "interval seconds = seconds * 1000000"

definition insert_user :: "host \<Rightarrow> string \<Rightarrow> string \<Rightarrow> int act" where
  "insert_user h email passwordHash =
     insert_row h Users (\<lambda>n _ d.
       Inr (d\<lparr>d_users := d_users d @ [\<lparr>u_id = n, u_email = email, u_password_hash = passwordHash,
          u_email_verified_at = None\<rparr>]\<rparr>, n))"

definition seed_user :: "host \<Rightarrow> int \<Rightarrow> unit act" where
  "seed_user h userId =
     bindM (forM kExpenseCategories (\<lambda>name. bindM (insert_category h userId name False) (\<lambda>_. ret ()))) (\<lambda>_.
     bindM (forM kIncomeCategories (\<lambda>name. bindM (insert_category h userId name True) (\<lambda>_. ret ()))) (\<lambda>_.
     bindM (insert_payment_method h userId kDefaultPaymentMethod False) (\<lambda>_. ret ())))"

definition registerUser :: "host \<Rightarrow> string \<Rightarrow> string \<Rightarrow> int act" where
  "registerUser h email password =
     bindM (pw_hash h password) (\<lambda>passwordHash.
     in_transaction (
       tryM (bindM (insert_user h email passwordHash) (\<lambda>userId.
             bindM (seed_user h userId) (\<lambda>_. ret userId)))
         (\<lambda>e. if has_substr kDuplicateKey (what_of e) then raise DuplicateEmailError else raise e)))"

definition user_by_email :: "host \<Rightarrow> string \<Rightarrow> db \<Rightarrow> user_row option" where
  "user_by_email h email d = find_row (\<lambda>u. h_lower h (u_email u) = h_lower h email) (d_users d)"

definition insert_session :: "host \<Rightarrow> int \<Rightarrow> string \<Rightarrow> unit act" where
  "insert_session h userId tokenHash =
     insert_row h Sessions (\<lambda>n now d.
       Inr (d\<lparr>d_sessions := d_sessions d @ [\<lparr>s_id = n, s_user_id = userId, s_token_hash = tokenHash,
          s_expires_at = now + interval kSessionLifetimeSeconds\<rparr>]\<rparr>, ()))"

definition login :: "host \<Rightarrow> string \<Rightarrow> string \<Rightarrow> string option act" where
  "login h email password =
     bindM (query (\<lambda>_. user_by_email h email)) (\<lambda>result.
     case result of
       None \<Rightarrow> ret None
     | Some u \<Rightarrow>
         if \<not> pw_verify h password (u_password_hash u) then ret None
         else
         bindM (generateToken 32) (\<lambda>rawToken.
         bindM (insert_session h (u_id u) (hashToken h rawToken)) (\<lambda>_.
         ret (Some rawToken))))"

definition live_session :: "string \<Rightarrow> instant \<Rightarrow> session_row \<Rightarrow> bool" where
  "live_session tokenHash now s \<longleftrightarrow> s_token_hash s = tokenHash \<and> s_expires_at s > now"

definition touch_session :: "host \<Rightarrow> string \<Rightarrow> int \<Rightarrow> unit act" where
  "touch_session h tokenHash refreshThresholdSeconds =
     exec h (\<lambda>now d. Inr (d\<lparr>d_sessions := update_where
        (\<lambda>s. s_token_hash s = tokenHash \<and> s_expires_at s < now + interval refreshThresholdSeconds)
        (\<lambda>s. s\<lparr>s_expires_at := now + interval kSessionLifetimeSeconds\<rparr>) (d_sessions d)\<rparr>, ()))"

definition validateSession :: "host \<Rightarrow> string \<Rightarrow> int option act" where
  "validateSession h rawToken =
     (let tokenHash = hashToken h rawToken in
      bindM (query (\<lambda>now d. find_row (live_session tokenHash now) (d_sessions d))) (\<lambda>result.
      case result of
        None \<Rightarrow> ret None
      | Some s \<Rightarrow>
          bindM (lift (sessionTouchIntervalSeconds h)) (\<lambda>touch.
          bindM (touch_session h tokenHash (kSessionLifetimeSeconds - touch)) (\<lambda>_.
          ret (Some (s_user_id s))))))"

definition delete_sessions :: "host \<Rightarrow> (session_row \<Rightarrow> bool) \<Rightarrow> unit act" where
  "delete_sessions h P = exec h (\<lambda>_ d. Inr (d\<lparr>d_sessions := filter (\<lambda>s. \<not> P s) (d_sessions d)\<rparr>, ()))"

definition logout :: "host \<Rightarrow> string \<Rightarrow> unit act" where
  "logout h rawToken = delete_sessions h (\<lambda>s. s_token_hash s = hashToken h rawToken)"

definition insert_auth_token :: "host \<Rightarrow> int \<Rightarrow> string \<Rightarrow> string \<Rightarrow> int \<Rightarrow> unit act" where
  "insert_auth_token h userId tokenHash purpose seconds =
     insert_row h AuthTokens (\<lambda>n now d.
       Inr (d\<lparr>d_auth_tokens := d_auth_tokens d @ [\<lparr>a_id = n, a_user_id = userId, a_token_hash = tokenHash,
          a_purpose = purpose, a_expires_at = now + interval seconds\<rparr>]\<rparr>, ()))"

definition requestPasswordReset :: "host \<Rightarrow> string \<Rightarrow> string act" where
  "requestPasswordReset h email =
     bindM (query (\<lambda>_. user_by_email h email)) (\<lambda>result.
     case result of
       None \<Rightarrow> generateToken 32
     | Some u \<Rightarrow>
         bindM (generateToken 32) (\<lambda>rawToken.
         bindM (insert_auth_token h (u_id u) (hashToken h rawToken) ''reset'' 3600) (\<lambda>_.
         ret rawToken)))"

definition live_token :: "string \<Rightarrow> string \<Rightarrow> instant \<Rightarrow> auth_token_row \<Rightarrow> bool" where
  "live_token tokenHash purpose now a \<longleftrightarrow>
     a_token_hash a = tokenHash \<and> a_purpose a = purpose \<and> a_expires_at a > now"

definition set_password :: "host \<Rightarrow> int \<Rightarrow> string \<Rightarrow> unit act" where
  "set_password h userId newHash =
     exec h (\<lambda>_ d. Inr (d\<lparr>d_users := update_where (\<lambda>u. u_id u = userId)
        (\<lambda>u. u\<lparr>u_password_hash := newHash\<rparr>) (d_users d)\<rparr>, ()))"

definition delete_token :: "host \<Rightarrow> string \<Rightarrow> unit act" where
  "delete_token h tokenHash =
     exec h (\<lambda>_ d. Inr (d\<lparr>d_auth_tokens := filter (\<lambda>a. a_token_hash a \<noteq> tokenHash) (d_auth_tokens d)\<rparr>, ()))"

definition confirmPasswordReset :: "host \<Rightarrow> string \<Rightarrow> string \<Rightarrow> bool act" where
  "confirmPasswordReset h rawToken newPassword =
     (let tokenHash = hashToken h rawToken in
      bindM (query (\<lambda>now d. find_row (live_token tokenHash ''reset'' now) (d_auth_tokens d))) (\<lambda>result.
      case result of
        None \<Rightarrow> ret False
      | Some a \<Rightarrow>
          bindM (pw_hash h newPassword) (\<lambda>newHash.
          in_transaction (
            bindM (set_password h (a_user_id a) newHash) (\<lambda>_.
            bindM (delete_sessions h (\<lambda>s. s_user_id s = a_user_id a)) (\<lambda>_.
            bindM (delete_token h tokenHash) (\<lambda>_.
            ret True)))))))"

definition requestEmailVerification :: "host \<Rightarrow> int \<Rightarrow> string act" where
  "requestEmailVerification h userId =
     bindM (generateToken 32) (\<lambda>rawToken.
     bindM (insert_auth_token h userId (hashToken h rawToken) ''verify'' 86400) (\<lambda>_.
     ret rawToken))"

definition set_verified :: "host \<Rightarrow> int \<Rightarrow> unit act" where
  "set_verified h userId =
     exec h (\<lambda>now d. Inr (d\<lparr>d_users := update_where (\<lambda>u. u_id u = userId)
        (\<lambda>u. u\<lparr>u_email_verified_at := Some now\<rparr>) (d_users d)\<rparr>, ()))"

definition confirmEmailVerification :: "host \<Rightarrow> string \<Rightarrow> bool act" where
  "confirmEmailVerification h rawToken =
     (let tokenHash = hashToken h rawToken in
      bindM (query (\<lambda>now d. find_row (live_token tokenHash ''verify'' now) (d_auth_tokens d))) (\<lambda>result.
      case result of
        None \<Rightarrow> ret False
      | Some a \<Rightarrow>
          bindM (set_verified h (a_user_id a)) (\<lambda>_.
          bindM (delete_token h tokenHash) (\<lambda>_.
          ret True))))"

text \<open>\<open>SessionAuthFilter::doFilter\<close>: the user the request runs as, or None for the 401 response.\<close>

definition doFilter :: "host \<Rightarrow> string \<Rightarrow> int option act" where
  "doFilter h token = (if token = [] then ret None else validateSession h token)"

text \<open>A world with one account, for evaluating the operations.\<close>

definition auth_world :: world where
  "auth_world = sample_world\<lparr>w_db := empty_db
     \<lparr>d_users := [\<lparr>u_id = 1, u_email = ''ann@x.au'', u_password_hash = ''pw'', u_email_verified_at = None\<rparr>]\<rparr>\<rparr>"

definition session_world :: world where
  "session_world = snd (login sample_host ''ANN@x.au'' ''pw'' auth_world)"

definition first_token :: string where
  "first_token = toHex (map of_nat [0..<32])"

definition reset_world :: world where
  "reset_world = snd (requestPasswordReset sample_host ''ann@x.au'' session_world)"

definition second_token :: string where
  "second_token = toHex (map of_nat [32..<64])"

section \<open>The limiter's bound\<close>

lemma allow_other [simp]: "k \<noteq> key \<Longrightarrow> rl_attempts (snd (allow lim now k)) key = rl_attempts lim key"
  by (simp add: allow_def Let_def)

lemma allow_config [simp]:
  "rl_window (snd (allow lim now k)) = rl_window lim" "rl_maxAttempts (snd (allow lim now k)) = rl_maxAttempts lim"
  by (simp_all add: allow_def Let_def)

text \<open>The allowed attempts of \<open>key\<close> between \<open>t\<close> and one window later.\<close>

definition granted :: "RateLimiter \<Rightarrow> (int \<times> string) list \<Rightarrow> string \<Rightarrow> int \<Rightarrow> nat" where
  "granted lim log key t =
     length (filter (\<lambda>((now, k), ok). ok \<and> k = key \<and> t \<le> now \<and> now \<le> t + rl_window lim) (zip log (attempts lim log)))"

lemma granted_Nil [simp]: "granted lim [] key t = 0"
  by (simp add: granted_def)

lemma granted_Cons:
  "granted lim ((now, k) # log) key t =
     (if fst (allow lim now k) \<and> k = key \<and> t \<le> now \<and> now \<le> t + rl_window lim then 1 else 0) +
     granted (snd (allow lim now k)) log key t"
  by (auto simp: granted_def split: prod.splits)

text \<open>What an entry may still be granted, once the clock has reached \<open>m\<close>.\<close>

definition budget :: "int \<Rightarrow> int \<Rightarrow> int \<Rightarrow> int \<Rightarrow> Entry \<Rightarrow> int" where
  "budget M W t m e =
     (if t + W < en_windowStart e then 0
      else if t \<le> en_windowStart e then max 0 (M - en_count e)
      else if m < t then 2 * M
      else max 0 (M - en_count e) + M)"

lemma granted_late:
  assumes "\<forall>x \<in> set log. t + rl_window lim < fst x"
  shows "granted lim log key t = 0"
  using assms by (force simp: granted_def filter_empty_conv dest: set_zip_leftD)

lemma granted_budget:
  assumes "sorted (map fst log)" and "\<forall>x \<in> set log. m \<le> fst x" and "rl_attempts lim key = Some e"
    and "en_windowStart e \<le> m" "0 \<le> en_count e" "0 \<le> rl_maxAttempts lim" "0 \<le> rl_window lim"
  shows "int (granted lim log key t) \<le> budget (rl_maxAttempts lim) (rl_window lim) t m e"
  using assms
proof (induction log arbitrary: lim m e)
  case Nil
  then show ?case by (simp add: budget_def)
next
  case (Cons x log)
  obtain now k where x: "x = (now, k)" by (cases x)
  let ?lim = "snd (allow lim now k)"
  have later: "\<forall>x \<in> set log. now \<le> fst x" "sorted (map fst log)" "m \<le> now"
    using Cons.prems(1,2) by (auto simp: x)
  show ?case
  proof (cases "k = key")
    case False
    have "int (granted ?lim log key t) \<le> budget (rl_maxAttempts ?lim) (rl_window ?lim) t now e"
      by (rule Cons.IH [OF later(2,1)]) (use False Cons.prems later in auto)
    also have "\<dots> \<le> budget (rl_maxAttempts lim) (rl_window lim) t m e"
      using Cons.prems later by (auto simp: budget_def)
    finally show ?thesis using False by (simp add: x granted_Cons)
  next
    case True
    let ?e = "(if now - en_windowStart e > rl_window lim then \<lparr>en_windowStart = now, en_count = 1\<rparr>
        else e\<lparr>en_count := en_count e + 1\<rparr>)"
    have st: "rl_attempts ?lim key = Some ?e" "fst (allow lim now k) \<longleftrightarrow> en_count ?e \<le> rl_maxAttempts lim"
      using Cons.prems(3) True by (auto simp: allow_def entry_at_def Let_def)
    have IH: "int (granted ?lim log key t) \<le> budget (rl_maxAttempts lim) (rl_window lim) t now ?e"
      using Cons.IH [OF later(2,1) st(1)] Cons.prems later by (auto split: if_splits)
    have late: "granted ?lim log key t = 0" if "t + rl_window lim < now"
      by (rule granted_late) (use that later in auto)
    show ?thesis
      using IH late Cons.prems(4-7) later(3) unfolding x granted_Cons st(2) budget_def
      by (auto simp: True split: if_splits)
  qed
qed

text \<open>C18: However attempts of any accounts or addresses follow each other, within any span as long as the
  limiter's window (\<open>RateLimiter::allow\<close>) at most twice the configured number of attempts of one key is allowed.\<close>

theorem limiter_bound:
  assumes "sorted (map fst log)" and "0 \<le> M" and "0 \<le> W"
  shows "int (granted \<lparr>rl_maxAttempts = M, rl_window = W, rl_attempts = (\<lambda>_. None)\<rparr> log key t) \<le> 2 * M"
proof -
  have "int (granted lim log key t) \<le> 2 * rl_maxAttempts lim"
    if "sorted (map fst log)" "rl_attempts lim key = None" "0 \<le> rl_maxAttempts lim" "0 \<le> rl_window lim" for lim
    using that
  proof (induction log arbitrary: lim)
    case (Cons x log)
    obtain now k where x: "x = (now, k)" by (cases x)
    show ?case
    proof (cases "k = key")
      case True
      let ?e = "\<lparr>en_windowStart = now, en_count = 1\<rparr>"
      have st: "rl_attempts (snd (allow lim now k)) key = Some ?e" "fst (allow lim now k) \<longleftrightarrow> 1 \<le> rl_maxAttempts lim"
        using Cons.prems True by (auto simp: allow_def entry_at_def Let_def)
      have "int (granted (snd (allow lim now k)) log key t) \<le> budget (rl_maxAttempts lim) (rl_window lim) t now ?e"
        using granted_budget [of log now "snd (allow lim now k)" key ?e t] Cons.prems st by (auto simp: x)
      then show ?thesis using Cons.prems unfolding x granted_Cons st(2) budget_def by (auto split: if_splits)
    next
      case False
      then show ?thesis using Cons.IH [of "snd (allow lim now k)"] Cons.prems by (simp add: x granted_Cons)
    qed
  qed simp
  from this [of "\<lparr>rl_maxAttempts = M, rl_window = W, rl_attempts = (\<lambda>_. None)\<rparr>"] show ?thesis using assms by simp
qed

theorem limiter_bound_witness:
  "granted \<lparr>rl_maxAttempts = 2, rl_window = 10, rl_attempts = (\<lambda>_. None)\<rparr>
     [(0, ''a''), (5, ''b''), (9, ''a''), (10, ''a''), (11, ''a''), (12, ''a''), (13, ''a'')] ''a'' 9 = 3
   \<and> int (granted \<lparr>rl_maxAttempts = 2, rl_window = 10, rl_attempts = (\<lambda>_. None)\<rparr>
     [(0, ''a''), (5, ''b''), (9, ''a''), (10, ''a''), (11, ''a''), (12, ''a''), (13, ''a'')] ''a'' 9) \<le> 2 * 2"
proof
  show "granted \<lparr>rl_maxAttempts = 2, rl_window = 10, rl_attempts = (\<lambda>_. None)\<rparr>
     [(0, ''a''), (5, ''b''), (9, ''a''), (10, ''a''), (11, ''a''), (12, ''a''), (13, ''a'')] ''a'' 9 = 3"
    by code_simp
qed (rule limiter_bound, simp_all)

section \<open>Sessions\<close>

lemma tick_step_fields [simp]:
  "w_rpos (tick_step w) = w_rpos w" "w_random (tick_step w) = w_random w"
  "w_now (tick_step w) = w_now w" "w_seq (tick_step w) = w_seq w" "w_faults (tick_step w) = w_faults w"
  by (simp_all add: tick_step_def)

lemma next_id_fields [simp]: "w_now (next_id t w) = w_now w"
  by (simp add: next_id_def)

lemma generateToken_Inr:
  "generateToken n w = (Inr tok, w') \<longleftrightarrow>
     tok = toHex (map (w_random w) [w_rpos w ..< w_rpos w + n]) \<and> w' = w\<lparr>w_rpos := w_rpos w + n\<rparr>"
  by (auto simp: generateToken_def randombytes_def runs)

lemma session_hashes:
  assumes "violation h d = None" and "s \<in> set (d_sessions d)" "s' \<in> set (d_sessions d)" "s_token_hash s = s_token_hash s'"
  shows "s = s'"
proof -
  have "distinct (map s_token_hash (d_sessions d))"
    using assms(1) by (auto simp: violation_def unique_violation_def split: if_splits)
  then show ?thesis using assms(2-) by (auto simp: distinct_map dest: inj_onD)
qed

lemma find_row_unique:
  assumes "x \<in> set xs" "P x" and "\<And>y. y \<in> set xs \<Longrightarrow> P y \<Longrightarrow> y = x"
  shows "find_row P xs = Some x"
proof -
  have "find_row P xs \<noteq> None" using assms(1,2) by (auto simp: find_row_def find_None_iff)
  then obtain y where "find_row P xs = Some y" by blast
  moreover have "y = x" using calculation assms(3) by (auto simp: find_row_def find_Some_iff)
  ultimately show ?thesis by simp
qed

lemma validateSession_Inr:
  "validateSession h tok w = (Inr r, w') \<Longrightarrow>
     r = map_option s_user_id (find_row (live_session (hashToken h tok) (w_now w)) (d_sessions (w_db w)))"
  unfolding validateSession_def by (auto simp: runs Let_def split: option.splits)

text \<open>C17: The token \<open>AuthService::login\<close> returns is the session of a user with that address whose stored hash
  accepts the password: until the session's thirty days are over, \<open>validateSession\<close> maps it to that user.\<close>

theorem login_opens_session:
  assumes login: "login h email password w = (Inr (Some token), w1)"
    and check: "validateSession h token (w1\<lparr>w_now := t\<rparr>) = (Inr r, w2)"
    and time: "t < w_now w + 30 * 24 * 60 * 60 * 1000000"
  shows "\<exists>u \<in> set (d_users (w_db w)). h_lower h (u_email u) = h_lower h email \<and>
      pw_verify h password (u_password_hash u) \<and> r = Some (u_id u)"
proof -
  from login obtain u s d where u: "find_row (\<lambda>u. h_lower h (u_email u) = h_lower h email) (d_users (w_db w)) = Some u"
      "pw_verify h password (u_password_hash u)"
    and d: "w_db w1 = d" "d_sessions d = d_sessions (w_db w) @ [s]" "violation h d = None"
    and s: "s_user_id s = u_id u" "s_token_hash s = hashToken h token"
      "s_expires_at s = w_now w + interval kSessionLifetimeSeconds"
    unfolding login_def user_by_email_def insert_session_def
    by (auto simp: runs generateToken_Inr split: option.splits if_splits)
  have "live_session (hashToken h token) t s"
    using s time by (simp add: live_session_def interval_def kSessionLifetimeSeconds_def)
  then have "find_row (live_session (hashToken h token) t) (d_sessions d) = Some s"
    by (rule find_row_unique [rotated])
       (use d(2) s session_hashes [OF d(3)] in \<open>auto simp: live_session_def\<close>)
  then have "r = Some (u_id u)" using validateSession_Inr [OF check] d(1) s(1) by simp
  then show ?thesis using u by (auto simp: find_row_def find_Some_iff)
qed

theorem login_opens_session_witness:
  "fst (validateSession sample_host first_token (session_world\<lparr>w_now := 1789000000000001\<rparr>)) = Inr (Some 1) \<and>
   (\<exists>u \<in> set (d_users (w_db auth_world)). h_lower sample_host (u_email u) = h_lower sample_host ''ANN@x.au'' \<and>
      pw_verify sample_host ''pw'' (u_password_hash u) \<and> Some (1::int) = Some (u_id u))"
proof -
  let ?w = "session_world\<lparr>w_now := 1789000000000001\<rparr>"
  have a: "fst (login sample_host ''ANN@x.au'' ''pw'' auth_world) = Inr (Some first_token)" by code_simp
  have b: "fst (validateSession sample_host first_token ?w) = Inr (Some 1)" by code_simp
  have "w_now auth_world = 1789000000000000" by code_simp
  then show ?thesis
    using b login_opens_session [of sample_host "''ANN@x.au''" "''pw''" auth_world first_token session_world
        1789000000000001 "Some 1" "snd (validateSession sample_host first_token ?w)"]
    by (auto simp: a b prod_eq_iff session_world_def)
qed

text \<open>C16: A password reset that succeeds (\<open>AuthService::confirmPasswordReset\<close>) used a live reset token; it
  changes the password hash of that token's owner only, ends every session of the owner and no other
  session, and consumes the token.\<close>

theorem reset_ends_sessions:
  assumes "confirmPasswordReset h token password w = (Inr True, w')"
  shows "\<exists>a newHash. find_row (live_token (hashToken h token) ''reset'' (w_now w)) (d_auth_tokens (w_db w)) = Some a \<and>
      h_pwhash h password (w_rpos w) = Some newHash \<and>
      d_users (w_db w') = map (\<lambda>u. if u_id u = a_user_id a then u\<lparr>u_password_hash := newHash\<rparr> else u) (d_users (w_db w)) \<and>
      d_sessions (w_db w') = filter (\<lambda>s. s_user_id s \<noteq> a_user_id a) (d_sessions (w_db w)) \<and>
      (\<forall>x \<in> set (d_auth_tokens (w_db w')). a_token_hash x \<noteq> hashToken h token)"
  using assms
  unfolding confirmPasswordReset_def Let_def set_password_def delete_sessions_def delete_token_def pw_hash_def
  by (auto simp: runs update_where_def split: option.splits)

theorem reset_ends_sessions_witness:
  "length (d_sessions (w_db reset_world)) = 1 \<and>
   (\<exists>a newHash. find_row (live_token (hashToken sample_host second_token) ''reset'' (w_now reset_world))
        (d_auth_tokens (w_db reset_world)) = Some a \<and>
      h_pwhash sample_host ''new'' (w_rpos reset_world) = Some newHash \<and>
      d_users (w_db (snd (confirmPasswordReset sample_host second_token ''new'' reset_world))) =
        map (\<lambda>u. if u_id u = a_user_id a then u\<lparr>u_password_hash := newHash\<rparr> else u) (d_users (w_db reset_world)) \<and>
      d_sessions (w_db (snd (confirmPasswordReset sample_host second_token ''new'' reset_world))) =
        filter (\<lambda>s. s_user_id s \<noteq> a_user_id a) (d_sessions (w_db reset_world)) \<and>
      (\<forall>x \<in> set (d_auth_tokens (w_db (snd (confirmPasswordReset sample_host second_token ''new'' reset_world)))).
         a_token_hash x \<noteq> hashToken sample_host second_token))"
proof
  show "length (d_sessions (w_db reset_world)) = 1" by code_simp
  have "fst (confirmPasswordReset sample_host second_token ''new'' reset_world) = Inr True" by code_simp
  then show "\<exists>a newHash. find_row (live_token (hashToken sample_host second_token) ''reset'' (w_now reset_world))
        (d_auth_tokens (w_db reset_world)) = Some a \<and>
      h_pwhash sample_host ''new'' (w_rpos reset_world) = Some newHash \<and>
      d_users (w_db (snd (confirmPasswordReset sample_host second_token ''new'' reset_world))) =
        map (\<lambda>u. if u_id u = a_user_id a then u\<lparr>u_password_hash := newHash\<rparr> else u) (d_users (w_db reset_world)) \<and>
      d_sessions (w_db (snd (confirmPasswordReset sample_host second_token ''new'' reset_world))) =
        filter (\<lambda>s. s_user_id s \<noteq> a_user_id a) (d_sessions (w_db reset_world)) \<and>
      (\<forall>x \<in> set (d_auth_tokens (w_db (snd (confirmPasswordReset sample_host second_token ''new'' reset_world)))).
         a_token_hash x \<noteq> hashToken sample_host second_token)"
    by (intro reset_ends_sessions) (simp add: prod_eq_iff)
qed

text \<open>Once \<open>AuthService::logout\<close> has returned, the token is no session at any later time.\<close>

theorem logout_ends_session:
  assumes "logout h token w = (Inr (), w1)" and "validateSession h token (w1\<lparr>w_now := t\<rparr>) = (Inr r, w2)"
  shows "r = None"
proof -
  have "\<forall>s \<in> set (d_sessions (w_db w1)). s_token_hash s \<noteq> hashToken h token"
    using assms(1) by (auto simp: logout_def delete_sessions_def runs)
  then have "find_row (live_session (hashToken h token) t) (d_sessions (w_db w1)) = None"
    by (auto simp: find_row_def find_None_iff live_session_def)
  then show ?thesis using validateSession_Inr [OF assms(2)] by simp
qed

theorem logout_ends_session_witness:
  "length (d_sessions (w_db session_world)) = 1 \<and>
   fst (validateSession sample_host first_token ((snd (logout sample_host first_token session_world))\<lparr>w_now := 5\<rparr>)) = Inr None"
proof (intro conjI)
  show "length (d_sessions (w_db session_world)) = 1" by code_simp
  let ?w1 = "snd (logout sample_host first_token session_world)"
  have a: "fst (logout sample_host first_token session_world) = Inr ()" by code_simp
  have "\<exists>r. fst (validateSession sample_host first_token (?w1\<lparr>w_now := 5\<rparr>)) = Inr r"
    by (rule exI [of _ None]) code_simp
  then obtain r where r: "fst (validateSession sample_host first_token (?w1\<lparr>w_now := 5\<rparr>)) = Inr r" by blast
  have "r = None"
    by (rule logout_ends_session [of sample_host first_token session_world ?w1 5 r
        "snd (validateSession sample_host first_token (?w1\<lparr>w_now := 5\<rparr>))"]) (simp_all add: a r prod_eq_iff)
  then show "fst (validateSession sample_host first_token (?w1\<lparr>w_now := 5\<rparr>)) = Inr None" using r by simp
qed

text \<open>The sliding expiry of \<open>validateSession\<close> never brings an expired session back: what is live
  afterwards was live before, with the same owner and token.\<close>

theorem touch_revives_nothing:
  assumes v: "violation h (w_db w) = None" and run: "validateSession h token w = (r, w')"
    and s': "s' \<in> set (d_sessions (w_db w'))" "w_now w < s_expires_at s'"
  shows "\<exists>s \<in> set (d_sessions (w_db w)). w_now w < s_expires_at s \<and> s_id s = s_id s' \<and>
      s_user_id s = s_user_id s' \<and> s_token_hash s = s_token_hash s'"
proof (cases "d_sessions (w_db w') = d_sessions (w_db w)")
  case True
  then show ?thesis using s' by auto
next
  case False
  let ?th = "hashToken h token"
  from False run obtain s n where s: "find_row (live_session ?th (w_now w)) (d_sessions (w_db w)) = Some s"
    and d: "d_sessions (w_db w') = update_where (\<lambda>s. s_token_hash s = ?th \<and> s_expires_at s < w_now w + n)
        (\<lambda>s. s\<lparr>s_expires_at := w_now w + interval kSessionLifetimeSeconds\<rparr>) (d_sessions (w_db w))"
    unfolding validateSession_def Let_def touch_session_def bindM_def query_def attempt_def exec_def commit_write_def
      lift_def ret_def
    by (auto split: option.splits sum.splits prod.splits if_splits)
  have live: "s \<in> set (d_sessions (w_db w))" "s_token_hash s = ?th" "w_now w < s_expires_at s"
    using s by (auto simp: find_row_def find_Some_iff live_session_def)
  obtain x where x: "x \<in> set (d_sessions (w_db w))" "s_id s' = s_id x" "s_user_id s' = s_user_id x"
      "s_token_hash s' = s_token_hash x" "s' = x \<or> s_token_hash x = ?th"
    using s'(1) unfolding d update_where_def by (auto split: if_splits)
  then have "w_now w < s_expires_at x"
    using session_hashes [OF v x(1) live(1)] live s'(2) by auto
  then show ?thesis using x by auto
qed

theorem touch_revives_nothing_witness:
  "\<exists>s' \<in> set (d_sessions (w_db (snd (validateSession sample_host first_token session_world)))).
     \<exists>s \<in> set (d_sessions (w_db session_world)). w_now session_world < s_expires_at s \<and> s_id s = s_id s' \<and>
      s_user_id s = s_user_id s' \<and> s_token_hash s = s_token_hash s'"
proof -
  let ?w' = "snd (validateSession sample_host first_token session_world)"
  have v: "violation sample_host (w_db session_world) = None" by code_simp
  have "\<exists>s' \<in> set (d_sessions (w_db ?w')). w_now session_world < s_expires_at s'" by code_simp
  then obtain s' where s': "s' \<in> set (d_sessions (w_db ?w'))" "w_now session_world < s_expires_at s'" by blast
  show ?thesis
    using touch_revives_nothing [OF v _ s', of "first_token" "fst (validateSession sample_host first_token session_world)"] s'(1)
    by auto
qed

section \<open>Registration\<close>

lemma insert_category_Inr:
  "insert_category h u name inc w = (Inr row, w1) \<Longrightarrow> c_name row = name \<and> c_user_id row = u \<and> c_is_income row = inc \<and>
     w_db w1 = (w_db w)\<lparr>d_categories := d_categories (w_db w) @ [row]\<rparr>"
  by (auto simp: insert_category_def Let_def runs)

lemma insert_user_Inr:
  "insert_user h email ph w = (Inr uid, w1) \<Longrightarrow> violation h (w_db w1) = None \<and>
     (\<exists>user. u_id user = uid \<and> u_email user = email \<and> w_db w1 = (w_db w)\<lparr>d_users := d_users (w_db w) @ [user]\<rparr>)"
  by (force simp: insert_user_def runs)

lemma insert_payment_method_Inr:
  "insert_payment_method h u name sv w = (Inr pm, w1) \<Longrightarrow> p_name pm = name \<and> p_user_id pm = u \<and> p_stored_value pm = sv \<and>
     w_db w1 = (w_db w)\<lparr>d_payment_methods := d_payment_methods (w_db w) @ [pm]\<rparr>"
  by (auto simp: insert_payment_method_def Let_def runs)

lemma seed_categories_run:
  assumes "forM names (\<lambda>name. bindM (insert_category h u name inc) (\<lambda>_. ret ())) w = (Inr (), w')"
  shows "\<exists>rows. map c_name rows = names \<and> (\<forall>c \<in> set rows. c_user_id c = u \<and> c_is_income c = inc) \<and>
      w_db w' = (w_db w)\<lparr>d_categories := d_categories (w_db w) @ rows\<rparr>"
  using assms
proof (induction names arbitrary: w)
  case Nil
  then show ?case by (auto simp: runs)
next
  case (Cons name names)
  then obtain row w1 where row: "c_name row = name" "c_user_id row = u" "c_is_income row = inc"
    and w1: "w_db w1 = (w_db w)\<lparr>d_categories := d_categories (w_db w) @ [row]\<rparr>"
    and rest: "forM names (\<lambda>name. bindM (insert_category h u name inc) (\<lambda>_. ret ())) w1 = (Inr (), w')"
    by (auto simp: runs dest: insert_category_Inr)
  from Cons.IH [OF rest] obtain rows where "map c_name rows = names" "\<forall>c \<in> set rows. c_user_id c = u \<and> c_is_income c = inc"
    "w_db w' = (w_db w1)\<lparr>d_categories := d_categories (w_db w1) @ rows\<rparr>" by blast
  then show ?case using row w1 by (intro exI [of _ "row # rows"]) auto
qed

lemma tryM_raise_Inr: "tryM m (\<lambda>e. if c e then raise (f e) else raise (g e)) w = (Inr x, w') \<longleftrightarrow> m w = (Inr x, w')"
  by (auto simp: tryM_def raise_def split: prod.splits sum.splits)

lemma registerUser_run:
  assumes "registerUser h email password w = (Inr uid, w')"
  shows "\<exists>user exps incs pm. u_id user = uid \<and> u_email user = email \<and>
      map c_name exps = kExpenseCategories \<and> (\<forall>c \<in> set exps. c_user_id c = uid \<and> \<not> c_is_income c) \<and>
      map c_name incs = kIncomeCategories \<and> (\<forall>c \<in> set incs. c_user_id c = uid \<and> c_is_income c) \<and>
      p_user_id pm = uid \<and> p_name pm = kDefaultPaymentMethod \<and> \<not> p_stored_value pm \<and>
      uid \<notin> user_ids (w_db w) \<and>
      w_db w' = (w_db w)\<lparr>d_users := d_users (w_db w) @ [user],
        d_categories := d_categories (w_db w) @ exps @ incs,
        d_payment_methods := d_payment_methods (w_db w) @ [pm]\<rparr>"
proof -
  from assms obtain w1 w2 w3 w4 pm ph where ins: "insert_user h email ph w1 = (Inr uid, w2)" "w_db w1 = w_db w"
    and e: "forM kExpenseCategories (\<lambda>name. bindM (insert_category h uid name False) (\<lambda>_. ret ())) w2 = (Inr (), w3)"
    and i: "forM kIncomeCategories (\<lambda>name. bindM (insert_category h uid name True) (\<lambda>_. ret ())) w3 = (Inr (), w4)"
    and p: "insert_payment_method h uid kDefaultPaymentMethod False w4 = (Inr pm, w')"
    unfolding registerUser_def seed_user_def pw_hash_def
    by (fastforce simp: runs tryM_raise_Inr split: option.splits)
  obtain user where user: "u_id user = uid" "u_email user = email" "w_db w1 = w_db w"
      "w_db w2 = (w_db w1)\<lparr>d_users := d_users (w_db w1) @ [user]\<rparr>" "violation h (w_db w2) = None"
    using insert_user_Inr [OF ins(1)] ins(2) by blast
  note pm = insert_payment_method_Inr [OF p]
  have "distinct (map u_id (d_users (w_db w2)))"
    using user(5) by (auto simp: violation_def unique_violation_def split: if_splits)
  then have fresh: "uid \<notin> user_ids (w_db w)" using user by (auto simp: user_ids_def)
  from seed_categories_run [OF e] seed_categories_run [OF i] obtain exps incs where
    "map c_name exps = kExpenseCategories" "\<forall>c \<in> set exps. c_user_id c = uid \<and> \<not> c_is_income c"
    "map c_name incs = kIncomeCategories" "\<forall>c \<in> set incs. c_user_id c = uid \<and> c_is_income c"
    "w_db w4 = (w_db w2)\<lparr>d_categories := d_categories (w_db w2) @ exps @ incs\<rparr>" by auto
  then show ?thesis
    using user pm fresh by (intro exI [of _ user] exI [of _ exps] exI [of _ incs] exI [of _ pm]) auto
qed

lemma registerUser_throws: "registerUser h email password w = (Inl e, w') \<Longrightarrow> w_db w' = w_db w"
  unfolding registerUser_def bindM_def pw_hash_def
  by (auto split: option.splits dest: in_transaction_throws)

text \<open>C26: A registration (\<open>AuthService::registerUser\<close>) either throws and leaves the database as it was, or gives
  the new user an id no user had, exactly the seeded categories, each on its side, and the default payment
  method, and leaves every other user's categories and payment methods, and all receipts and items, alone.\<close>

theorem registration_seeds:
  assumes v: "violation h (w_db w) = None"
  shows "case registerUser h email password w of
     (Inl e, w') \<Rightarrow> w_db w' = w_db w
   | (Inr uid, w') \<Rightarrow> uid \<notin> user_ids (w_db w) \<and>
     map (\<lambda>c. (c_name c, c_is_income c)) (filter (\<lambda>c. c_user_id c = uid) (d_categories (w_db w'))) =
       map (\<lambda>n. (n, False)) kExpenseCategories @ map (\<lambda>n. (n, True)) kIncomeCategories \<and>
     map (\<lambda>p. (p_name p, p_stored_value p)) (filter (\<lambda>p. p_user_id p = uid) (d_payment_methods (w_db w'))) =
       [(kDefaultPaymentMethod, False)] \<and>
     filter (\<lambda>c. c_user_id c \<noteq> uid) (d_categories (w_db w')) = d_categories (w_db w) \<and>
     filter (\<lambda>p. p_user_id p \<noteq> uid) (d_payment_methods (w_db w')) = d_payment_methods (w_db w) \<and>
     d_receipts (w_db w') = d_receipts (w_db w) \<and> d_items (w_db w') = d_items (w_db w)"
proof (cases "registerUser h email password w")
  case (Pair res w')
  show ?thesis
  proof (cases res)
    case (Inl e)
    then show ?thesis using Pair registerUser_throws by simp
  next
    case (Inr uid)
    obtain user exps incs pm where r: "map c_name exps = kExpenseCategories" "\<forall>c \<in> set exps. c_user_id c = uid \<and> \<not> c_is_income c"
        "map c_name incs = kIncomeCategories" "\<forall>c \<in> set incs. c_user_id c = uid \<and> c_is_income c"
        "p_user_id pm = uid" "p_name pm = kDefaultPaymentMethod" "\<not> p_stored_value pm" "uid \<notin> user_ids (w_db w)"
        "w_db w' = (w_db w)\<lparr>d_users := d_users (w_db w) @ [user],
          d_categories := d_categories (w_db w) @ exps @ incs,
          d_payment_methods := d_payment_methods (w_db w) @ [pm]\<rparr>"
      using registerUser_run [OF Pair [unfolded Inr]] by blast
    have old: "c_user_id c \<noteq> uid" if "c \<in> set (d_categories (w_db w))" for c
      using v that r(8) by (auto simp: violation_def fk_violation_def list_all_iff split: if_splits)
    have old_pm: "p_user_id p \<noteq> uid" if "p \<in> set (d_payment_methods (w_db w))" for p
      using v that r(8) by (auto simp: violation_def fk_violation_def list_all_iff split: if_splits)
    have cats: "map (\<lambda>c. (c_name c, c_is_income c)) exps = map (\<lambda>n. (n, False)) kExpenseCategories"
      "map (\<lambda>c. (c_name c, c_is_income c)) incs = map (\<lambda>n. (n, True)) kIncomeCategories"
      using r(2,4) unfolding r(1,3) [symmetric] by auto
    have "filter (\<lambda>c. c_user_id c = uid) (d_categories (w_db w')) = exps @ incs"
      "filter (\<lambda>c. c_user_id c \<noteq> uid) (d_categories (w_db w')) = d_categories (w_db w)"
      using r(2,4) old by (auto simp: r(9) filter_empty_conv filter_id_conv)
    moreover have "filter (\<lambda>p. p_user_id p = uid) (d_payment_methods (w_db w')) = [pm]"
      "filter (\<lambda>p. p_user_id p \<noteq> uid) (d_payment_methods (w_db w')) = d_payment_methods (w_db w)"
      using r(5) old_pm by (auto simp: r(9) filter_empty_conv filter_id_conv)
    ultimately show ?thesis using r(6-9) cats Pair Inr by simp
  qed
qed

theorem registration_seeds_witness:
  "case registerUser sample_host ''bob@x.au'' ''q'' sample_world of
     (Inl e, w') \<Rightarrow> w_db w' = w_db sample_world
   | (Inr uid, w') \<Rightarrow> uid \<notin> user_ids (w_db sample_world) \<and>
     map (\<lambda>c. (c_name c, c_is_income c)) (filter (\<lambda>c. c_user_id c = uid) (d_categories (w_db w'))) =
       map (\<lambda>n. (n, False)) kExpenseCategories @ map (\<lambda>n. (n, True)) kIncomeCategories \<and>
     map (\<lambda>p. (p_name p, p_stored_value p)) (filter (\<lambda>p. p_user_id p = uid) (d_payment_methods (w_db w'))) =
       [(kDefaultPaymentMethod, False)] \<and>
     filter (\<lambda>c. c_user_id c \<noteq> uid) (d_categories (w_db w')) = d_categories (w_db sample_world) \<and>
     filter (\<lambda>p. p_user_id p \<noteq> uid) (d_payment_methods (w_db w')) = d_payment_methods (w_db sample_world) \<and>
     d_receipts (w_db w') = d_receipts (w_db sample_world) \<and> d_items (w_db w') = d_items (w_db sample_world)"
proof -
  have "violation sample_host (w_db sample_world) = None" by code_simp
  then show ?thesis by (rule registration_seeds)
qed

end
