(* ===== verification/ItemService.thy ===== *)
theory ItemService
  imports Tokens
begin

text \<open>
  Items of a receipt: \<^verbatim>\<open>src/src/receipts/ItemService.h\<close> and \<^verbatim>\<open>ItemService.cpp\<close>. Items carry no user
  id; every operation resolves the receipt under the caller's id first. A result set indexed
  at row 0 where it is empty is \<open>OutOfRange\<close>; no reachable state has one.
\<close>

record Item =
  it_id :: int
  it_receiptId :: int
  it_name :: "string option"
  it_quantity :: "double option"
  it_unitPriceCents :: "int option"
  it_amountCents :: int
  it_categoryId :: "int option"
  it_informational :: bool
  it_tagIds :: "int list"

definition rowToItem :: "item_row \<Rightarrow> Item" where
  "rowToItem r =
     \<lparr>it_id = i_id r, it_receiptId = i_receipt_id r, it_name = i_name r, it_quantity = i_quantity r,
      it_unitPriceCents = i_unit_price_cents r, it_amountCents = i_amount_cents r,
      it_categoryId = i_category_id r, it_informational = i_informational r, it_tagIds = []\<rparr>"

definition itemToInput :: "Item \<Rightarrow> ItemInput" where
  "itemToInput i =
     \<lparr>ii_name = it_name i, ii_quantity = it_quantity i, ii_unitPriceCents = it_unitPriceCents i,
      ii_amountCents = it_amountCents i, ii_categoryId = it_categoryId i,
      ii_informational = it_informational i, ii_tagIds = it_tagIds i\<rparr>"

definition empty_result :: error where
  "empty_result = OutOfRange ''result set is empty''"

definition ownedReceiptKind :: "int \<Rightarrow> int \<Rightarrow> string act" where
  "ownedReceiptKind userId receiptId =
     bindM (query (\<lambda>_ d. find_row (\<lambda>r. r_id r = receiptId \<and> r_user_id r = userId) (d_receipts d))) (\<lambda>result.
     case result of None \<Rightarrow> raise ReceiptNotFoundError | Some r \<Rightarrow> ret (r_kind r))"

definition tagIdsFor :: "int \<Rightarrow> int list act" where
  "tagIdsFor itemId =
     query (\<lambda>_ d. sort (map snd (filter (\<lambda>(i, t). i = itemId) (d_item_tags d))))"

definition fetchItem :: "int \<Rightarrow> Item act" where
  "fetchItem itemId =
     bindM (query (\<lambda>_ d. find_row (\<lambda>i. i_id i = itemId) (d_items d))) (\<lambda>result.
     case result of
       None \<Rightarrow> raise empty_result
     | Some row \<Rightarrow> bindM (tagIdsFor itemId) (\<lambda>tags. ret ((rowToItem row)\<lparr>it_tagIds := tags\<rparr>)))"

definition clear_tags :: "host \<Rightarrow> int \<Rightarrow> unit act" where
  "clear_tags h itemId =
     exec h (\<lambda>_ d. Inr (d\<lparr>d_item_tags := filter (\<lambda>(i, t). i \<noteq> itemId) (d_item_tags d)\<rparr>, ()))"

definition add_tag :: "host \<Rightarrow> int \<Rightarrow> int \<Rightarrow> unit act" where
  "add_tag h itemId tagId =
     exec h (\<lambda>_ d. Inr (d\<lparr>d_item_tags := d_item_tags d @ [(itemId, tagId)]\<rparr>, ()))"

definition replaceTags :: "host \<Rightarrow> int \<Rightarrow> int \<Rightarrow> int list \<Rightarrow> unit act" where
  "replaceTags h userId itemId tagIds =
     bindM (clear_tags h itemId) (\<lambda>_.
     forM tagIds (\<lambda>tagId.
       bindM (query (\<lambda>_ d. find_row (\<lambda>t. t_id t = tagId \<and> t_user_id t = userId) (d_tags d))) (\<lambda>owned.
       if owned = None then raise (ValidationError ''tag_ids contains a tag that does not exist'')
       else add_tag h itemId tagId)))"

definition requireCategoryFitsKind :: "int \<Rightarrow> int \<Rightarrow> string \<Rightarrow> unit act" where
  "requireCategoryFitsKind userId categoryId kind =
     bindM (query (\<lambda>_ d. find_row (\<lambda>c. c_id c = categoryId \<and> c_user_id c = userId) (d_categories d))) (\<lambda>result.
     case result of
       None \<Rightarrow> raise (ValidationError ''category_id does not exist'')
     | Some c \<Rightarrow>
         bindM (lift (categoryFitsKind (c_is_income c) kind)) (\<lambda>fits.
         if fits then ret ()
         else bindM (lift (rulesFor kind)) (\<lambda>rules.
           raise (ValidationError (''items on a '' @ kind @ '' need '' @
             (if kr_usesIncomeCategories rules then ''an income'' else ''an expense'') @ '' category'')))))"

definition new_item :: "host \<Rightarrow> int \<Rightarrow> int \<Rightarrow> ItemInput \<Rightarrow> item_row" where
  "new_item h n receiptId item =
     \<lparr>i_id = n, i_receipt_id = receiptId, i_name = ii_name item,
      i_quantity = map_option (h_numeric h) (ii_quantity item),
      i_unit_price_cents = ii_unitPriceCents item, i_amount_cents = ii_amountCents item,
      i_category_id = ii_categoryId item, i_informational = ii_informational item\<rparr>"

definition insert_item :: "host \<Rightarrow> int \<Rightarrow> ItemInput \<Rightarrow> int act" where
  "insert_item h receiptId item =
     insert_row h Items (\<lambda>n _ d. Inr (d\<lparr>d_items := d_items d @ [new_item h n receiptId item]\<rparr>, n))"

text \<open>\<open>ItemService::insert\<close>\<close>

definition item_insert :: "host \<Rightarrow> int \<Rightarrow> int \<Rightarrow> string \<Rightarrow> ItemInput \<Rightarrow> int act" where
  "item_insert h userId receiptId receiptKind item =
     bindM (case ii_categoryId item of
              None \<Rightarrow> ret ()
            | Some c \<Rightarrow> requireCategoryFitsKind userId c receiptKind) (\<lambda>_.
     bindM (insert_item h receiptId item) (\<lambda>itemId.
     bindM (replaceTags h userId itemId (ii_tagIds item)) (\<lambda>_.
     ret itemId)))"

text \<open>\<open>ItemService::list\<close>\<close>

definition item_list :: "int \<Rightarrow> int \<Rightarrow> Item list act" where
  "item_list userId receiptId =
     bindM (ownedReceiptKind userId receiptId) (\<lambda>_.
     bindM (query (\<lambda>_ d. sort_key i_id (filter (\<lambda>i. i_receipt_id i = receiptId) (d_items d)))) (\<lambda>rows.
     bindM (query (\<lambda>_ d. sort_key snd (filter (\<lambda>(i, t).
        \<exists>x \<in> set (d_items d). i_id x = i \<and> i_receipt_id x = receiptId) (d_item_tags d)))) (\<lambda>tagRows.
     ret (map (\<lambda>row. (rowToItem row)\<lparr>it_tagIds := map snd (filter (\<lambda>(i, t). i = i_id row) tagRows)\<rparr>) rows))))"

text \<open>\<open>ItemService::create\<close>\<close>

definition item_create :: "host \<Rightarrow> int \<Rightarrow> int \<Rightarrow> json \<Rightarrow> Item act" where
  "item_create h userId receiptId body =
     bindM (lift (parseNewItem body)) (\<lambda>input.
     in_transaction (
       bindM (ownedReceiptKind userId receiptId) (\<lambda>kind.
       bindM (item_insert h userId receiptId kind input) (\<lambda>itemId.
       fetchItem itemId))))"

definition set_item :: "host \<Rightarrow> ItemInput \<Rightarrow> item_row \<Rightarrow> item_row" where
  "set_item h item i =
     i\<lparr>i_name := ii_name item, i_quantity := map_option (h_numeric h) (ii_quantity item),
       i_unit_price_cents := ii_unitPriceCents item, i_amount_cents := ii_amountCents item,
       i_category_id := ii_categoryId item, i_informational := ii_informational item\<rparr>"

definition update_item :: "host \<Rightarrow> int \<Rightarrow> ItemInput \<Rightarrow> unit act" where
  "update_item h itemId item =
     exec h (\<lambda>_ d. Inr (d\<lparr>d_items := update_where (\<lambda>i. i_id i = itemId) (set_item h item) (d_items d)\<rparr>, ()))"

text \<open>\<open>ItemService::update\<close>\<close>

definition item_update :: "host \<Rightarrow> int \<Rightarrow> int \<Rightarrow> int \<Rightarrow> json \<Rightarrow> Item act" where
  "item_update h userId receiptId itemId body =
     in_transaction (
       bindM (ownedReceiptKind userId receiptId) (\<lambda>kind.
       bindM (query (\<lambda>_ d. find_row (\<lambda>i. i_id i = itemId \<and> i_receipt_id i = receiptId) (d_items d))) (\<lambda>current.
       case current of
         None \<Rightarrow> raise (NotFoundError ''item not found'')
       | Some row \<Rightarrow>
           bindM (lift (applyItemPatch (itemToInput (rowToItem row)) body)) (\<lambda>(item, tagsGiven).
           bindM (case ii_categoryId item of
                    None \<Rightarrow> ret ()
                  | Some c \<Rightarrow>
                      if jcontains body ''category_id'' then requireCategoryFitsKind userId c kind else ret ()) (\<lambda>_.
           bindM (update_item h itemId item) (\<lambda>_.
           bindM (if tagsGiven then replaceTags h userId itemId (ii_tagIds item) else ret ()) (\<lambda>_.
           fetchItem itemId)))))))"

text \<open>\<open>ItemService::remove\<close>\<close>

definition item_remove :: "host \<Rightarrow> int \<Rightarrow> int \<Rightarrow> int \<Rightarrow> unit act" where
  "item_remove h userId receiptId itemId =
     bindM (ownedReceiptKind userId receiptId) (\<lambda>_.
     bindM (exec h (\<lambda>_ d.
        Inr (drop_items (\<lambda>i. i_id i = itemId \<and> i_receipt_id i = receiptId) d,
             find_row (\<lambda>i. i_id i = itemId \<and> i_receipt_id i = receiptId) (d_items d)))) (\<lambda>result.
     if result = None then raise (NotFoundError ''item not found'') else ret ()))"

end
