(* ===== verification/ObjectStore.thy ===== *)
theory ObjectStore
  imports Tokens
begin

text \<open>
  Image storage: the interface \<open>ImageStore\<close> (\<^verbatim>\<open>src/src/storage/ImageStore.h\<close>) as a record of
  operations with a locale for its contract, the SigV4 signer
  (\<^verbatim>\<open>Sigv4Signer.cpp\<close>) and the S3 implementation (\<^verbatim>\<open>S3ImageStore.cpp\<close>), on which the locale is
  interpreted. The bucket is the world's \<open>w_store\<close>, addressed the way the request addresses it:
  by host and percent-encoded path. PUT stores the body there and answers 200, GET answers
  200 with the object or 404, DELETE answers 204; every other outcome is a fault. The
  interpretation rests on the percent-encoding being injective.
\<close>

section \<open>The interface\<close>

record image_store =
  is_put :: "string \<Rightarrow> string \<Rightarrow> string \<Rightarrow> unit act"
  is_get :: "string \<Rightarrow> string act"
  is_remove :: "string \<Rightarrow> unit act"

definition same_but_store :: "world \<Rightarrow> world \<Rightarrow> bool" where
  "same_but_store w w' \<longleftrightarrow> w' = w\<lparr>w_store := w_store w', w_step := w_step w'\<rparr>"

locale image_store_contract =
  fixes st :: image_store and object :: "world \<Rightarrow> string \<Rightarrow> string option"
  assumes put_stores: "is_put st key ctype bytes w = (Inr (), w') \<Longrightarrow> object w' = (object w)(key \<mapsto> bytes)"
    and put_fails: "is_put st key ctype bytes w = (Inl e, w') \<Longrightarrow> object w' = object w"
    and get_returns: "is_get st key w = (Inr bytes, w') \<Longrightarrow> object w key = Some bytes"
    and get_keeps: "is_get st key w = (r, w') \<Longrightarrow> object w' = object w"
    and remove_removes: "is_remove st key w = (Inr (), w') \<Longrightarrow> object w' = (object w)(key := None)"
    and remove_fails: "is_remove st key w = (Inl e, w') \<Longrightarrow> object w' = object w"
    and put_frame: "is_put st key ctype bytes w = (r1, w') \<Longrightarrow> same_but_store w w'"
    and get_frame: "is_get st key w = (r2, w') \<Longrightarrow> same_but_store w w'"
    and remove_frame: "is_remove st key w = (r1, w') \<Longrightarrow> same_but_store w w'"
    and object_local: "w_store w = w_store w' \<Longrightarrow> object w = object w'"
begin

lemma put_extends:
  assumes "is_put st key ctype bytes w = (r, w')"
  shows "dom (object w) \<subseteq> dom (object w')"
  using assms put_stores put_fails by (cases r) auto

lemma remove_touches_key_only:
  assumes "is_remove st key w = (r, w')" and "key' \<noteq> key"
  shows "object w' key' = object w key'"
  using assms remove_removes remove_fails by (cases r) auto

lemma put_db: "is_put st key ctype bytes w = (r, w') \<Longrightarrow> w_db w' = w_db w"
  using put_frame unfolding same_but_store_def by (metis world.ext_inject world.surjective world.update_convs)

lemma remove_db: "is_remove st key w = (r, w') \<Longrightarrow> w_db w' = w_db w"
  using remove_frame unfolding same_but_store_def by (metis world.ext_inject world.surjective world.update_convs)

lemma get_db: "is_get st key w = (r, w') \<Longrightarrow> w_db w' = w_db w"
  using get_frame unfolding same_but_store_def by (metis world.ext_inject world.surjective world.update_convs)

end

section \<open>SigV4\<close>

text \<open>\<open>gmtime_r\<close> of an instant from 1970 on: the day is reached by counting calendar days.\<close>

definition civil :: "nat \<Rightarrow> ymd" where
  "civil n = (next_day ^^ n) (1970, 1, 1)"

definition amz_day :: "ymd \<Rightarrow> string" where
  "amz_day x = (case x of (y, m, d) \<Rightarrow> pad4 (nat y) @ pad2 (nat m) @ pad2 (nat d))"

definition formatTimestamps :: "nat \<Rightarrow> string \<times> string" where
  "formatTimestamps t =
     (let day = amz_day (civil (t div 86400)); s = t mod 86400 in
      (day @ ''T'' @ pad2 (s div 3600) @ pad2 (s div 60 mod 60) @ pad2 (s mod 60) @ ''Z'', day))"

definition hmac :: "host \<Rightarrow> string \<Rightarrow> string \<Rightarrow> 8 word list" where
  "hmac h key data = h_hmac h key data"

definition hmacRaw :: "host \<Rightarrow> string \<Rightarrow> string \<Rightarrow> string" where
  "hmacRaw h key data = map (\<lambda>b. char_of (unat b)) (hmac h key data)"

definition hmacHex :: "host \<Rightarrow> string \<Rightarrow> string \<Rightarrow> string" where
  "hmacHex h key data = toHex (hmac h key data)"

record Sigv4Signer =
  sg_accessKey :: string
  sg_secretKey :: string
  sg_region :: string
  sg_service :: string

record SignedHeaders =
  sh_authorization :: string
  sh_amzDate :: string
  sh_contentSha256 :: string

definition nl :: string where "nl = [CHR 0x0A]"

definition signedHeaders :: string where
  "signedHeaders = ''host;x-amz-content-sha256;x-amz-date''"

definition canonicalRequest :: "host \<Rightarrow> string \<Rightarrow> string \<Rightarrow> string \<Rightarrow> string \<Rightarrow> string \<Rightarrow> string" where
  "canonicalRequest h verb uri hostName amzDate payload =
     (let payloadHash = sha256Hex h payload;
          canonicalHeaders = ''host:'' @ hostName @ nl @ ''x-amz-content-sha256:'' @ payloadHash @ nl @
            ''x-amz-date:'' @ amzDate @ nl
      in verb @ nl @ uri @ nl @ [] @ nl @ canonicalHeaders @ nl @ signedHeaders @ nl @ payloadHash)"

definition signingKey :: "host \<Rightarrow> Sigv4Signer \<Rightarrow> string \<Rightarrow> string" where
  "signingKey h s dateStamp =
     (let dateKey = hmacRaw h (''AWS4'' @ sg_secretKey s) dateStamp;
          dateRegionKey = hmacRaw h dateKey (sg_region s);
          dateRegionServiceKey = hmacRaw h dateRegionKey (sg_service s)
      in hmacRaw h dateRegionServiceKey ''aws4_request'')"

definition sign :: "host \<Rightarrow> Sigv4Signer \<Rightarrow> string \<Rightarrow> string \<Rightarrow> string \<Rightarrow> string \<Rightarrow> nat \<Rightarrow> SignedHeaders" where
  "sign h s verb uri hostName payload t =
     (let (amzDate, dateStamp) = formatTimestamps t;
          credentialScope = dateStamp @ ''/'' @ sg_region s @ ''/'' @ sg_service s @ ''/aws4_request'';
          stringToSign = ''AWS4-HMAC-SHA256'' @ nl @ amzDate @ nl @ credentialScope @ nl @
            sha256Hex h (canonicalRequest h verb uri hostName amzDate payload);
          signature = hmacHex h (signingKey h s dateStamp) stringToSign
      in \<lparr>sh_authorization = ''AWS4-HMAC-SHA256 Credential='' @ sg_accessKey s @ ''/'' @ credentialScope @
            '', SignedHeaders='' @ signedHeaders @ '', Signature='' @ signature,
          sh_amzDate = amzDate, sh_contentSha256 = sha256Hex h payload\<rparr>)"

section \<open>The S3 store\<close>

record S3Config =
  s3_endpoint :: string
  s3_region :: string
  s3_bucket :: string
  s3_accessKey :: string
  s3_secretKey :: string
  s3_pathStyle :: bool

definition s3ConfigFromEnv :: "host \<Rightarrow> S3Config" where
  "s3ConfigFromEnv h =
     \<lparr>s3_endpoint = envOr h ''S3_ENDPOINT'' ''http://localhost:9000'',
      s3_region = envOr h ''S3_REGION'' ''us-east-1'',
      s3_bucket = envOr h ''S3_BUCKET'' ''receipts'',
      s3_accessKey = envOr h ''S3_ACCESS_KEY'' ''receipt_scanner'',
      s3_secretKey = envOr h ''S3_SECRET_KEY'' ''dev_only_change_me'',
      s3_pathStyle = (envOr h ''S3_PATH_STYLE'' ''true'' = ''true'')\<rparr>"

definition HEX_digit :: "nat \<Rightarrow> char" where
  "HEX_digit n = ''0123456789ABCDEF'' ! n"

definition unreserved :: "char \<Rightarrow> bool" where
  "unreserved c \<longleftrightarrow> isupper c \<or> islower c \<or> isdigit c \<or>
     c = CHR ''-'' \<or> c = CHR ''.'' \<or> c = CHR ''_'' \<or> c = CHR ''~''"

definition encode_char :: "char \<Rightarrow> string" where
  "encode_char c =
     (if unreserved c \<or> c = CHR ''/'' then [c]
      else [CHR ''%'', HEX_digit (of_char c div 16), HEX_digit (of_char c mod 16)])"

definition uriEncodePath :: "string \<Rightarrow> string" where
  "uriEncodePath path = concat (map encode_char path)"

text \<open>\<open>endpoint.find("://")\<close> and the rest after it.\<close>

fun after_scheme :: "string \<Rightarrow> string option" where
  "after_scheme [] = None"
| "after_scheme (c # cs) = (if take 3 (c # cs) = ''://'' then Some (drop 3 (c # cs)) else after_scheme cs)"

definition hostHeader :: "S3Config \<Rightarrow> string" where
  "hostHeader cfg =
     (let hostAndPort = (case after_scheme (s3_endpoint cfg) of None \<Rightarrow> s3_endpoint cfg | Some rest \<Rightarrow> rest)
      in if s3_pathStyle cfg then hostAndPort else s3_bucket cfg @ ''.'' @ hostAndPort)"

definition canonicalUri :: "S3Config \<Rightarrow> string \<Rightarrow> string" where
  "canonicalUri cfg key =
     uriEncodePath (if s3_pathStyle cfg then ''/'' @ s3_bucket cfg @ ''/'' @ key else ''/'' @ key)"

record http_request =
  rq_verb :: string
  rq_path :: string
  rq_headers :: "(string \<times> string) list"
  rq_content_type :: "string option"
  rq_body :: string

record http_response =
  rs_status :: nat
  rs_body :: string

definition signer_of :: "S3Config \<Rightarrow> Sigv4Signer" where
  "signer_of cfg = \<lparr>sg_accessKey = s3_accessKey cfg, sg_secretKey = s3_secretKey cfg,
     sg_region = s3_region cfg, sg_service = ''s3''\<rparr>"

definition seconds :: "instant \<Rightarrow> nat" where
  "seconds t = nat (t div 1000000)"

definition s3_request ::
    "host \<Rightarrow> S3Config \<Rightarrow> string \<Rightarrow> string \<Rightarrow> string option \<Rightarrow> string \<Rightarrow> instant \<Rightarrow> http_request" where
  "s3_request h cfg verb key contentType body t =
     (let uri = canonicalUri cfg key; hostName = hostHeader cfg;
          sh = sign h (signer_of cfg) verb uri hostName body (seconds t)
      in \<lparr>rq_verb = verb, rq_path = uri,
          rq_headers = [(''Host'', hostName), (''x-amz-date'', sh_amzDate sh),
            (''x-amz-content-sha256'', sh_contentSha256 sh), (''Authorization'', sh_authorization sh)],
          rq_content_type = contentType, rq_body = body\<rparr>)"

text \<open>What the S3 service does with a request it accepts.\<close>

definition address :: "http_request \<Rightarrow> string" where
  "address rq = (case map_of (rq_headers rq) ''Host'' of None \<Rightarrow> [] | Some hst \<Rightarrow> hst) @ rq_path rq"

definition s3_serve :: "host \<Rightarrow> http_request \<Rightarrow> http_response act" where
  "s3_serve h rq = attempt RuntimeError (\<lambda>w.
     if rq_verb rq = ''PUT'' then
       (Inr \<lparr>rs_status = 200, rs_body = []\<rparr>, w\<lparr>w_store := (w_store w)(address rq \<mapsto> rq_body rq)\<rparr>)
     else if rq_verb rq = ''DELETE'' then
       (Inr \<lparr>rs_status = 204, rs_body = []\<rparr>, w\<lparr>w_store := (w_store w)(address rq := None)\<rparr>)
     else (case w_store w (address rq) of
         None \<Rightarrow> (Inr \<lparr>rs_status = 404, rs_body = h_s3_missing h\<rparr>, w)
       | Some bytes \<Rightarrow> (Inr \<lparr>rs_status = 200, rs_body = bytes\<rparr>, w)))"

definition httpError :: "string \<Rightarrow> http_response \<Rightarrow> error" where
  "httpError op resp =
     RuntimeError (''S3ImageStore::'' @ op @ '' failed: HTTP '' @ to_string (int (rs_status resp)) @ '' '' @ rs_body resp)"

definition send ::
    "host \<Rightarrow> S3Config \<Rightarrow> string \<Rightarrow> string \<Rightarrow> string option \<Rightarrow> string \<Rightarrow> http_response act" where
  "send h cfg verb key contentType body =
     (\<lambda>w. s3_serve h (s3_request h cfg verb key contentType body (w_now w)) w)"

definition s3_put :: "host \<Rightarrow> S3Config \<Rightarrow> string \<Rightarrow> string \<Rightarrow> string \<Rightarrow> unit act" where
  "s3_put h cfg key contentType bytes =
     bindM (send h cfg ''PUT'' key (Some contentType) bytes) (\<lambda>resp.
     if rs_status resp \<noteq> 200 then raise (httpError ''put'' resp) else ret ())"

definition s3_get :: "host \<Rightarrow> S3Config \<Rightarrow> string \<Rightarrow> string act" where
  "s3_get h cfg key =
     bindM (send h cfg ''GET'' key None []) (\<lambda>resp.
     if rs_status resp \<noteq> 200 then raise (httpError ''get'' resp) else ret (rs_body resp))"

definition s3_remove :: "host \<Rightarrow> S3Config \<Rightarrow> string \<Rightarrow> unit act" where
  "s3_remove h cfg key =
     bindM (send h cfg ''DELETE'' key None []) (\<lambda>resp.
     if rs_status resp \<noteq> 204 \<and> rs_status resp \<noteq> 200 then raise (httpError ''remove'' resp) else ret ())"

definition s3_store :: "host \<Rightarrow> S3Config \<Rightarrow> image_store" where
  "s3_store h cfg = \<lparr>is_put = s3_put h cfg, is_get = s3_get h cfg, is_remove = s3_remove h cfg\<rparr>"

definition s3_object :: "S3Config \<Rightarrow> world \<Rightarrow> string \<Rightarrow> string option" where
  "s3_object cfg w key = w_store w (hostHeader cfg @ canonicalUri cfg key)"

section \<open>Percent-encoding is injective\<close>

lemma HEX_digit_inj: "m < 16 \<Longrightarrow> n < 16 \<Longrightarrow> HEX_digit m = HEX_digit n \<longleftrightarrow> m = n"
proof -
  assume "m < 16" "n < 16"
  moreover have "distinct ''0123456789ABCDEF''" by simp
  ultimately show ?thesis unfolding HEX_digit_def by (subst nth_eq_iff_index_eq) simp_all
qed

lemma percent_reserved: "\<not> unreserved (CHR ''%'')"
  by (simp add: unreserved_def isupper_def islower_def isdigit_def less_eq_char_def)

lemma encode_char_prefix_free:
  "encode_char c @ s = encode_char d @ t \<Longrightarrow> c = d \<and> s = t"
proof -
  assume eq: "encode_char c @ s = encode_char d @ t"
  have hi: "of_char x div 16 < (16::nat)" for x :: char
    by (simp add: div_less_iff_less_mult)
  have "c = d" if "of_char c div 16 = (of_char d div 16 :: nat)" "of_char c mod 16 = (of_char d mod 16 :: nat)"
    by (metis that div_mult_mod_eq of_char_eq_iff)
  then show ?thesis
    using eq percent_reserved hi
    by (auto simp: encode_char_def HEX_digit_inj split: if_splits)
qed

lemma encode_char_nonempty: "encode_char c \<noteq> []"
  by (simp add: encode_char_def)

lemma uriEncodePath_inj: "uriEncodePath s = uriEncodePath t \<Longrightarrow> s = t"
proof (induction s arbitrary: t)
  case Nil
  then show ?case by (cases t) (auto simp: uriEncodePath_def encode_char_nonempty)
next
  case (Cons c s)
  then obtain d u where t: "t = d # u"
    by (cases t) (auto simp: uriEncodePath_def encode_char_nonempty)
  with Cons.prems have "c = d \<and> uriEncodePath s = uriEncodePath u"
    by (auto simp: uriEncodePath_def dest: encode_char_prefix_free)
  then show ?case using Cons.IH t by simp
qed

lemma canonicalUri_inj: "canonicalUri cfg k = canonicalUri cfg k' \<Longrightarrow> k = k'"
  by (auto simp: canonicalUri_def dest: uriEncodePath_inj split: if_splits)

section \<open>S3 implements the interface\<close>

lemma address_s3_request [simp]:
  "address (s3_request h cfg verb key ct body t) = hostHeader cfg @ canonicalUri cfg key"
  by (simp add: address_def s3_request_def Let_def)

lemma s3_request_fields [simp]:
  "rq_verb (s3_request h cfg verb key ct body t) = verb"
  "rq_body (s3_request h cfg verb key ct body t) = body"
  by (simp_all add: s3_request_def Let_def)

lemmas s3_ops = s3_put_def s3_get_def s3_remove_def send_def s3_serve_def attempt_def bindM_def ret_def
  raise_def tick_step_def

lemma s3_put_eq:
  "s3_put h cfg key ct bytes w =
     (case w_faults w (w_step w) of
        Some msg \<Rightarrow> (Inl (RuntimeError msg), tick_step w)
      | None \<Rightarrow> (Inr (), (tick_step w)\<lparr>w_store := (w_store w)(hostHeader cfg @ canonicalUri cfg key \<mapsto> bytes)\<rparr>))"
  by (simp add: s3_ops split: option.splits)

lemma s3_get_eq:
  "s3_get h cfg key w =
     (case w_faults w (w_step w) of
        Some msg \<Rightarrow> (Inl (RuntimeError msg), tick_step w)
      | None \<Rightarrow> (case s3_object cfg w key of
            None \<Rightarrow> (Inl (httpError ''get'' \<lparr>rs_status = 404, rs_body = h_s3_missing h\<rparr>), tick_step w)
          | Some bytes \<Rightarrow> (Inr bytes, tick_step w)))"
  by (simp add: s3_ops s3_object_def split: option.splits)

lemma s3_remove_eq:
  "s3_remove h cfg key w =
     (case w_faults w (w_step w) of
        Some msg \<Rightarrow> (Inl (RuntimeError msg), tick_step w)
      | None \<Rightarrow> (Inr (), (tick_step w)\<lparr>w_store := (w_store w)(hostHeader cfg @ canonicalUri cfg key := None)\<rparr>))"
  by (simp add: s3_ops split: option.splits)

lemmas s3_eqs = s3_put_eq s3_get_eq s3_remove_eq

declare s3_eqs [code]

interpretation s3: image_store_contract "s3_store h cfg" "s3_object cfg" for h cfg
proof unfold_locales
  fix key ctype bytes w w' e r1 r2
  show "is_put (s3_store h cfg) key ctype bytes w = (Inr (), w') \<Longrightarrow>
      s3_object cfg w' = (s3_object cfg w)(key \<mapsto> bytes)"
    by (auto simp: s3_store_def s3_eqs s3_object_def tick_step_def fun_eq_iff dest: canonicalUri_inj split: option.splits)
  show "is_remove (s3_store h cfg) key w = (Inr (), w') \<Longrightarrow>
      s3_object cfg w' = (s3_object cfg w)(key := None)"
    by (auto simp: s3_store_def s3_eqs s3_object_def tick_step_def fun_eq_iff dest: canonicalUri_inj split: option.splits)
  show "is_put (s3_store h cfg) key ctype bytes w = (Inl e, w') \<Longrightarrow> s3_object cfg w' = s3_object cfg w"
    "is_remove (s3_store h cfg) key w = (Inl e, w') \<Longrightarrow> s3_object cfg w' = s3_object cfg w"
    "is_get (s3_store h cfg) key w = (Inr bytes, w') \<Longrightarrow> s3_object cfg w key = Some bytes"
    "is_get (s3_store h cfg) key w = (r2, w') \<Longrightarrow> s3_object cfg w' = s3_object cfg w"
    "is_put (s3_store h cfg) key ctype bytes w = (r1, w') \<Longrightarrow> same_but_store w w'"
    "is_get (s3_store h cfg) key w = (r2, w') \<Longrightarrow> same_but_store w w'"
    "is_remove (s3_store h cfg) key w = (r1, w') \<Longrightarrow> same_but_store w w'"
    by (auto simp: s3_store_def s3_eqs s3_object_def tick_step_def same_but_store_def split: option.splits)
  show "w_store w = w_store w' \<Longrightarrow> s3_object cfg w = s3_object cfg w'"
    by (simp add: s3_object_def fun_eq_iff)
qed

lemma civil_valid:
  assumes "civil n = (y, m, d)"
  shows "1 \<le> m \<and> m \<le> 12 \<and> 1 \<le> d \<and> d \<le> last_day y m \<and> 1970 \<le> y \<and> sys_days (y, m, d) = int n"
  using assms
proof (induction n arbitrary: y m d)
  case 0
  then show ?case using sys_days_epoch by (auto simp: civil_def last_day_def)
next
  case (Suc n)
  obtain y0 m0 d0 where prev: "civil n = (y0, m0, d0)" by (cases "civil n")
  then have next': "next_day (y0, m0, d0) = (y, m, d)" using Suc.prems by (simp add: civil_def)
  note ih = Suc.IH [OF prev]
  have "sys_days (y, m, d) = sys_days (y0, m0, d0) + 1"
    using next_day_counts [of m0 d0 y0] ih unfolding next' by blast
  then show ?case using next_day_valid [OF _ _ _ _ next'] ih by simp
qed

section \<open>Properties\<close>



text \<open>The SigV4 timestamp names the instant it signs: its date part is the calendar day with the
  number \<open>t div 86400\<close> from 1970-01-01, and day and time of day together give back the second.\<close>

theorem formatTimestamps_names_instant:
  "\<exists>y m d. snd (formatTimestamps t) = pad4 (nat y) @ pad2 (nat m) @ pad2 (nat d) \<and>
     fst (formatTimestamps t) = snd (formatTimestamps t) @ ''T'' @ pad2 (t mod 86400 div 3600) @
       pad2 (t mod 86400 div 60 mod 60) @ pad2 (t mod 86400 mod 60) @ ''Z'' \<and>
     1 \<le> m \<and> m \<le> 12 \<and> 1 \<le> d \<and> d \<le> last_day y m \<and> 1970 \<le> y \<and>
     sys_days (y, m, d) * 86400 + int (t mod 86400) = int t"
proof -
  obtain y m d where c: "civil (t div 86400) = (y, m, d)" by (cases "civil (t div 86400)")
  have "int (t div 86400) * 86400 + int (t mod 86400) = int t"
    by (metis div_mult_mod_eq of_nat_add of_nat_mult of_nat_numeral)
  then show ?thesis
    using civil_valid [OF c] unfolding formatTimestamps_def Let_def c amz_day_def
    by (intro exI [of _ y] exI [of _ m] exI [of _ d]) auto
qed

end
