(* ===== verification/Normalizer.thy ===== *)
theory Normalizer
  imports World
begin

text \<open>
  Image normalization: \<^verbatim>\<open>src/src/storage/ImageNormalizer.h\<close>, \<^verbatim>\<open>ImageNormalizer.cpp\<close> and
  \<^verbatim>\<open>VipsInit.cpp\<close>. Every upload is decoded, shrunk to the long edge and saved as WebP without metadata;
  only what comes out is stored. The pool of worker threads decides where the work runs and not what it
  returns, so \<open>normalize_image\<close> is the function that runs there.
\<close>

record NormalizedImage =
  ni_bytes :: string
  ni_width :: int
  ni_height :: int

definition kLongEdgePx :: int where
  "kLongEdgePx = 2048"

definition kWebpQuality :: int where
  "kWebpQuality = 80"

definition initVips :: "vips \<Rightarrow> error + unit" where
  "initVips v = (case v_init v of None \<Rightarrow> Inr () | Some message \<Rightarrow> Inl (RuntimeError (''VIPS_INIT failed: '' @ message)))"

definition decode_error :: "string \<Rightarrow> error" where
  "decode_error what = ImageDecodeError (''ImageNormalizer: failed to decode/resize image: '' @ what)"

definition encode_error :: "string \<Rightarrow> error" where
  "encode_error what = RuntimeError (''ImageNormalizer: failed to encode WebP: '' @ what)"

definition normalizeSync :: "vips \<Rightarrow> string \<Rightarrow> error + NormalizedImage" where
  "normalizeSync v bytes =
     rbind (initVips v) (\<lambda>_.
     case v_thumbnail_buffer v bytes kLongEdgePx kLongEdgePx VIPS_SIZE_DOWN of
       Inl what \<Rightarrow> Inl (decode_error what)
     | Inr img \<Rightarrow>
         (case v_webpsave_buffer v img kWebpQuality True of
            Inl what \<Rightarrow> Inl (encode_error what)
          | Inr webpBytes \<Rightarrow> Inr \<lparr>ni_bytes = webpBytes, ni_width = v_width v img, ni_height = v_height v img\<rparr>))"

definition normalize_image :: "host \<Rightarrow> string \<Rightarrow> error + NormalizedImage" where
  "normalize_image h bytes = normalizeSync (h_vips h) bytes"

section \<open>What comes out\<close>

text \<open>Bytes that \<open>webpsave\<close> wrote, metadata stripped, from an image shrunk into the box and never enlarged.\<close>

definition canonical_image :: "vips \<Rightarrow> string \<Rightarrow> bool" where
  "canonical_image v bytes \<longleftrightarrow>
     (\<exists>raw img. v_thumbnail_buffer v raw 2048 2048 VIPS_SIZE_DOWN = Inr img \<and> v_webpsave_buffer v img 80 True = Inr bytes)"

lemma normalize_canonical: "normalize_image h raw = Inr img \<Longrightarrow> canonical_image (h_vips h) (ni_bytes img)"
  by (auto simp: normalize_image_def normalizeSync_def canonical_image_def kLongEdgePx_def kWebpQuality_def rbind_eq_Inr
      split: sum.splits) blast

text \<open>Only bytes that do not decode are the client's fault.\<close>

lemma normalize_blames_client:
  assumes "normalize_image h raw = Inl (ImageDecodeError m)"
  shows "\<exists>what. v_thumbnail_buffer (h_vips h) raw 2048 2048 VIPS_SIZE_DOWN = Inl what"
  using assms
  by (auto simp: normalize_image_def normalizeSync_def initVips_def encode_error_def kLongEdgePx_def rbind_eq_Inl
      split: sum.splits option.splits)

end
