(* ===== verification/ReceiptService.thy ===== *)
theory ReceiptService
  imports ItemService ObjectStore Normalizer
begin

text \<open>
  Receipts: \<^verbatim>\<open>src/src/receipts/ReceiptService.h\<close> and \<^verbatim>\<open>ReceiptService.cpp\<close>. The image store is the
  parameter \<open>st\<close>, as in the class; row locks and the advisory lock have no effect in a model that
  runs one request at a time. 
\<close>

record ImageConflict =
  ic_receiptId :: int
  ic_imageId :: int

record ReceiptSummary =
  rs_id :: int
  rs_storeNameRaw :: "string option"
  rs_merchant :: "string option"
  rs_purchaseDate :: "string option"
  rs_totalCents :: int
  rs_direction :: string
  rs_currency :: string
  rs_kind :: string
  rs_scanState :: string
  rs_taxDeductible :: bool
  rs_note :: "string option"
  rs_source :: string
  rs_paymentMethodId :: "int option"
  rs_offsetsReceiptId :: "int option"
  rs_fxRateToAud :: "double option"
  rs_audEquivalentCents :: "int option"
  rs_proposedAt :: "string option"
  rs_reviewedAt :: "string option"
  rs_needsReview :: bool
  rs_isConfirmed :: bool
  rs_createdAt :: string
  rs_updatedAt :: string

record ImageRef =
  ir_id :: int
  ir_createdAt :: string

record ImageLocation =
  il_ownerUserId :: int
  il_imageKey :: string

record PreparedImage =
  pi_normalized :: NormalizedImage
  pi_sha256Hex :: string

definition maxImagesPerReceipt :: "host \<Rightarrow> error + int" where
  "maxImagesPerReceipt h = stoi (envOr h ''MAX_IMAGES_PER_RECEIPT'' ''8'')"

definition image_key :: "int \<Rightarrow> int \<Rightarrow> string \<Rightarrow> string" where
  "image_key userId receiptId token =
     ''receipts/'' @ to_string userId @ ''/'' @ to_string receiptId @ ''/'' @ token @ ''.webp''"

definition generateImageKey :: "int \<Rightarrow> int \<Rightarrow> string act" where
  "generateImageKey userId receiptId =
     bindM (generateToken 16) (\<lambda>token. ret (image_key userId receiptId token))"

text \<open>The columns of \<open>receiptSelect\<close> and \<open>rowToSummary\<close>.\<close>

definition rowToSummary :: "host \<Rightarrow> receipt_row \<Rightarrow> ReceiptSummary" where
  "rowToSummary h r =
     \<lparr>rs_id = r_id r, rs_storeNameRaw = r_store_name_raw r, rs_merchant = r_merchant r,
      rs_purchaseDate = r_purchase_date r, rs_totalCents = r_total_cents r, rs_direction = r_direction r,
      rs_currency = r_currency r, rs_kind = r_kind r, rs_scanState = r_scan_state r,
      rs_taxDeductible = r_tax_deductible r, rs_note = r_note r, rs_source = r_source r,
      rs_paymentMethodId = r_payment_method_id r, rs_offsetsReceiptId = r_offsets_receipt_id r,
      rs_fxRateToAud = r_fx_rate_to_aud r, rs_audEquivalentCents = r_aud_equivalent_cents r,
      rs_proposedAt = map_option (h_iso_utc h) (r_proposed_at r),
      rs_reviewedAt = map_option (h_iso_utc h) (r_reviewed_at r),
      rs_needsReview = needs_review r, rs_isConfirmed = is_confirmed r,
      rs_createdAt = h_iso_utc h (r_created_at r), rs_updatedAt = h_iso_utc h (r_updated_at r)\<rparr>"

definition rowToEditable :: "receipt_row \<Rightarrow> EditableReceipt" where
  "rowToEditable r =
     \<lparr>er_kind = r_kind r, er_direction = r_direction r, er_totalCents = r_total_cents r,
      er_currency = r_currency r, er_merchant = r_merchant r, er_storeNameRaw = r_store_name_raw r,
      er_purchaseDate = r_purchase_date r, er_paymentMethodId = r_payment_method_id r,
      er_taxDeductible = r_tax_deductible r, er_note = r_note r,
      er_offsetsReceiptId = r_offsets_receipt_id r, er_fxRateToAud = r_fx_rate_to_aud r\<rparr>"

section \<open>Images\<close>

definition prepareImages :: "host \<Rightarrow> string list \<Rightarrow> error + PreparedImage list" where
  "prepareImages h rawImages =
     rmap (\<lambda>raw. rbind (normalize_image h raw) (\<lambda>normalized.
       Inr \<lparr>pi_normalized = normalized, pi_sha256Hex = sha256Hex h (ni_bytes normalized)\<rparr>)) rawImages"

definition lockUserImages :: "int \<Rightarrow> unit act" where
  "lockUserImages userId = query (\<lambda>_ _. ())"

fun findConflict :: "host \<Rightarrow> int \<Rightarrow> PreparedImage list \<Rightarrow> ImageConflict option act" where
  "findConflict h userId [] = ret None"
| "findConflict h userId (prep # rest) =
     bindM (query (\<lambda>_ d. limit1 h
        (filter (\<lambda>g. g_user_id g = userId \<and> g_image_sha256 g = pi_sha256Hex prep) (d_images d)))) (\<lambda>dup.
     case dup of
       Some g \<Rightarrow> ret (Some \<lparr>ic_receiptId = g_receipt_id g, ic_imageId = g_id g\<rparr>)
     | None \<Rightarrow> findConflict h userId rest)"

definition insert_image :: "host \<Rightarrow> int \<Rightarrow> int \<Rightarrow> string \<Rightarrow> string \<Rightarrow> unit act" where
  "insert_image h userId receiptId key sha =
     insert_row h Images (\<lambda>n now d.
       Inr (d\<lparr>d_images := d_images d @ [\<lparr>g_id = n, g_receipt_id = receiptId, g_user_id = userId,
          g_image_key = key, g_image_sha256 = sha, g_created_at = now\<rparr>]\<rparr>, ()))"

definition storeImage :: "host \<Rightarrow> image_store \<Rightarrow> int \<Rightarrow> int \<Rightarrow> PreparedImage \<Rightarrow> unit act" where
  "storeImage h st userId receiptId prep =
     bindM (generateImageKey userId receiptId) (\<lambda>key.
     bindM (is_put st key ''image/webp'' (ni_bytes (pi_normalized prep))) (\<lambda>_.
     insert_image h userId receiptId key (pi_sha256Hex prep)))"

definition storeImages :: "host \<Rightarrow> image_store \<Rightarrow> int \<Rightarrow> int \<Rightarrow> PreparedImage list \<Rightarrow> unit act" where
  "storeImages h st userId receiptId prepared = forM prepared (storeImage h st userId receiptId)"

definition new_receipt :: "int \<Rightarrow> instant \<Rightarrow> int \<Rightarrow> string \<Rightarrow> string \<Rightarrow> string \<Rightarrow> string \<Rightarrow> receipt_row" where
  "new_receipt n now userId kind direction src state =
     \<lparr>r_id = n, r_user_id = userId, r_store_name_raw = None, r_merchant = None, r_purchase_date = None,
      r_total_cents = 0, r_direction = direction, r_currency = ''AUD'', r_fx_rate_to_aud = None,
      r_aud_equivalent_cents = None, r_kind = kind, r_scan_state = state, r_scan_attempts = 0,
      r_reclaim_count = 0, r_scan_started_at = None, r_proposed_at = None, r_reviewed_at = None,
      r_payment_method_id = None, r_tax_deductible = False, r_note = None, r_source = src,
      r_offsets_receipt_id = None, r_raw_ocr_json = None, r_created_at = now, r_updated_at = now\<rparr>"

definition insert_receipt :: "host \<Rightarrow> (int \<Rightarrow> instant \<Rightarrow> error + receipt_row) \<Rightarrow> int act" where
  "insert_receipt h mk =
     insert_row h Receipts (\<lambda>n now d.
       rbind (mk n now) (\<lambda>row. Inr (d\<lparr>d_receipts := d_receipts d @ [row]\<rparr>, n)))"

datatype upload_result = Uploaded int | UploadConflict ImageConflict

definition canonical_or_empty :: "KindRules \<Rightarrow> string" where
  "canonical_or_empty rules = (case kr_canonicalDirection rules of None \<Rightarrow> [] | Some d \<Rightarrow> d)"

text \<open>The dedup check, skipped when forced.\<close>

definition conflict_unless :: "bool \<Rightarrow> host \<Rightarrow> int \<Rightarrow> PreparedImage list \<Rightarrow> ImageConflict option act" where
  "conflict_unless force h userId prepared = (if force then ret None else findConflict h userId prepared)"

definition uploadReceipt :: "host \<Rightarrow> image_store \<Rightarrow> int \<Rightarrow> string list \<Rightarrow> bool \<Rightarrow> upload_result act" where
  "uploadReceipt h st userId images force =
     bindM (lift (maxImagesPerReceipt h)) (\<lambda>cap.
     if int (length images) > cap then raise TooManyImagesError
     else
     bindM (lift (prepareImages h images)) (\<lambda>prepared.
     bindM (lift (rulesFor kDefaultKind)) (\<lambda>rules.
     transaction (
       bindM (lockUserImages userId) (\<lambda>_.
       bindM (conflict_unless force h userId prepared) (\<lambda>conflict.
       case conflict of
         Some c \<Rightarrow> ret (Rollback (UploadConflict c))
       | None \<Rightarrow>
           bindM (insert_receipt h (\<lambda>n now.
              Inr (new_receipt n now userId kDefaultKind (canonical_or_empty rules) kScanned kUploaded))) (\<lambda>receiptId.
           bindM (storeImages h st userId receiptId prepared) (\<lambda>_.
           ret (Commit (Uploaded receiptId))))))))))"

definition queue_receipt :: "host \<Rightarrow> int \<Rightarrow> unit act" where
  "queue_receipt h receiptId =
     exec h (\<lambda>_ d. Inr (d\<lparr>d_receipts := update_where (\<lambda>r. r_id r = receiptId)
       (\<lambda>r. r\<lparr>r_scan_state := kUploaded\<rparr>) (d_receipts d)\<rparr>, ()))"

definition owns_receipt :: "int \<Rightarrow> int \<Rightarrow> db \<Rightarrow> receipt_row option" where
  "owns_receipt userId receiptId d = find_row (\<lambda>r. r_id r = receiptId \<and> r_user_id r = userId) (d_receipts d)"

definition addImages ::
    "host \<Rightarrow> image_store \<Rightarrow> int \<Rightarrow> int \<Rightarrow> string list \<Rightarrow> bool \<Rightarrow> ImageConflict option act" where
  "addImages h st userId receiptId images force =
     bindM (query (\<lambda>_. owns_receipt userId receiptId)) (\<lambda>owned.
     if owned = None then raise ReceiptNotFoundError
     else
     bindM (lift (prepareImages h images)) (\<lambda>prepared.
     transaction (
       bindM (lockUserImages userId) (\<lambda>_.
       bindM (query (\<lambda>_ d. length (filter (\<lambda>g. g_receipt_id g = receiptId) (d_images d)))) (\<lambda>currentCount.
       bindM (lift (maxImagesPerReceipt h)) (\<lambda>cap.
       if int currentCount + int (length prepared) > cap then raise TooManyImagesError
       else
       bindM (conflict_unless force h userId prepared) (\<lambda>conflict.
       case conflict of
         Some c \<Rightarrow> ret (Rollback (Some c))
       | None \<Rightarrow>
           bindM (storeImages h st userId receiptId prepared) (\<lambda>_.
           bindM (queue_receipt h receiptId) (\<lambda>_.
           ret (Commit None))))))))))"

section \<open>Manual entry and edits\<close>

definition validateReferences :: "int \<Rightarrow> int option \<Rightarrow> EditableReceipt \<Rightarrow> unit act" where
  "validateReferences userId receiptId receipt =
     bindM (case er_paymentMethodId receipt of
         None \<Rightarrow> ret ()
       | Some pm \<Rightarrow>
           bindM (query (\<lambda>_ d. find_row (\<lambda>p. p_id p = pm \<and> p_user_id p = userId) (d_payment_methods d))) (\<lambda>owned.
           if owned = None then raise (ValidationError ''payment_method_id does not exist'') else ret ())) (\<lambda>_.
     case er_offsetsReceiptId receipt of
       None \<Rightarrow> ret ()
     | Some target \<Rightarrow>
         if receiptId = Some target then raise (ValidationError ''a receipt cannot offset itself'')
         else
         bindM (query (\<lambda>_. owns_receipt userId target)) (\<lambda>row.
         case row of
           None \<Rightarrow> raise (ValidationError ''offsets_receipt_id does not exist'')
         | Some t \<Rightarrow>
             bindM (lift (rulesFor (r_kind t))) (\<lambda>rules.
             if \<not> kr_isOffsetTarget rules
             then raise (ValidationError (''offsets_receipt_id can't point at a '' @ r_kind t))
             else ret ())))"

text \<open>\<open>$7::date\<close>; a text Postgres does not read as a date fails the statement.\<close>

definition sql_date :: "host \<Rightarrow> string option \<Rightarrow> error + string option" where
  "sql_date h s =
     (case s of
        None \<Rightarrow> Inr None
      | Some txt \<Rightarrow> (case h_date h txt of
            None \<Rightarrow> Inl (DbError ''invalid input syntax for type date'')
          | Some d \<Rightarrow> Inr (Some d)))"

definition manual_receipt :: "host \<Rightarrow> int \<Rightarrow> EditableReceipt \<Rightarrow> int option \<Rightarrow> int \<Rightarrow> instant \<Rightarrow> error + receipt_row" where
  "manual_receipt h userId r audEquivalent n now =
     rbind (sql_date h (er_purchaseDate r)) (\<lambda>pdate.
     Inr ((new_receipt n now userId (er_kind r) (er_direction r) kManual kIdle)
       \<lparr>r_total_cents := er_totalCents r, r_currency := er_currency r, r_merchant := er_merchant r,
        r_purchase_date := Some (case pdate of Some d \<Rightarrow> d | None \<Rightarrow> h_sydney h now),
        r_payment_method_id := er_paymentMethodId r, r_tax_deductible := er_taxDeductible r,
        r_note := er_note r, r_offsets_receipt_id := er_offsetsReceiptId r,
        r_fx_rate_to_aud := map_option (h_numeric h) (er_fxRateToAud r),
        r_aud_equivalent_cents := audEquivalent, r_reviewed_at := Some now\<rparr>))"

definition implicit_item :: "EditableReceipt \<Rightarrow> int option \<Rightarrow> ItemInput" where
  "implicit_item r categoryId =
     ItemInput_init\<lparr>ii_name := er_merchant r, ii_amountCents := er_totalCents r, ii_categoryId := categoryId\<rparr>"

definition manual_entry_items :: "ManualEntryInput \<Rightarrow> ItemInput list" where
  "manual_entry_items input =
     (if me_items input = [] then [implicit_item (me_receipt input) (me_categoryId input)] else me_items input)"

definition createManual :: "host \<Rightarrow> int \<Rightarrow> json \<Rightarrow> int act" where
  "createManual h userId body =
     bindM (lift (parseManualEntry body)) (\<lambda>input.
     let r = me_receipt input; aud = audEquivalentCents (h_llround h) (er_totalCents r) (er_fxRateToAud r)
     in in_transaction (
       bindM (validateReferences userId None r) (\<lambda>_.
       bindM (insert_receipt h (manual_receipt h userId r aud)) (\<lambda>receiptId.
       bindM (forM (manual_entry_items input)
                (\<lambda>item. bindM (item_insert h userId receiptId (er_kind r) item) (\<lambda>_. ret ()))) (\<lambda>_.
       ret receiptId)))))"

definition set_receipt ::
    "host \<Rightarrow> EditableReceipt \<Rightarrow> string option \<Rightarrow> int option \<Rightarrow> bool \<Rightarrow> instant \<Rightarrow> receipt_row \<Rightarrow> receipt_row" where
  "set_receipt h r pdate audEquivalent markReviewed now row =
     row\<lparr>r_kind := er_kind r, r_direction := er_direction r, r_total_cents := er_totalCents r,
        r_currency := er_currency r, r_merchant := er_merchant r, r_store_name_raw := er_storeNameRaw r,
        r_purchase_date := pdate, r_payment_method_id := er_paymentMethodId r,
        r_tax_deductible := er_taxDeductible r, r_note := er_note r,
        r_offsets_receipt_id := er_offsetsReceiptId r,
        r_fx_rate_to_aud := map_option (h_numeric h) (er_fxRateToAud r),
        r_aud_equivalent_cents := audEquivalent, r_updated_at := now,
        r_reviewed_at := (if markReviewed then Some now else r_reviewed_at row)\<rparr>"

definition update_receipt :: "host \<Rightarrow> int \<Rightarrow> EditableReceipt \<Rightarrow> int option \<Rightarrow> bool \<Rightarrow> unit act" where
  "update_receipt h receiptId r audEquivalent markReviewed =
     exec h (\<lambda>now d.
       rbind (sql_date h (er_purchaseDate r)) (\<lambda>pdate.
       Inr (d\<lparr>d_receipts := update_where (\<lambda>row. r_id row = receiptId)
          (set_receipt h r pdate audEquivalent markReviewed now) (d_receipts d)\<rparr>, ())))"

text \<open>The \<open>is_income\<close> of every category on the receipt's items.\<close>

definition item_sides :: "int \<Rightarrow> db \<Rightarrow> bool list" where
  "item_sides receiptId d =
     concat (map (\<lambda>i. map c_is_income (filter (\<lambda>c. i_category_id i = Some (c_id c)) (d_categories d)))
       (filter (\<lambda>i. i_receipt_id i = receiptId) (d_items d)))"

definition kind_change_clash :: string where
  "kind_change_clash =
     ''this kind change would leave items in the wrong expense/income categories -- recategorize them first''"

definition require_sides_fit :: "int \<Rightarrow> bool \<Rightarrow> bool \<Rightarrow> unit act" where
  "require_sides_fit receiptId wasIncomeSide isIncomeSide =
     (if isIncomeSide = wasIncomeSide then ret ()
      else bindM (query (\<lambda>_. item_sides receiptId)) (\<lambda>sides.
        if \<exists>s \<in> set sides. s \<noteq> isIncomeSide then raise (ValidationError kind_change_clash) else ret ()))"

definition updateReceipt :: "host \<Rightarrow> int \<Rightarrow> int \<Rightarrow> json \<Rightarrow> ReceiptSummary act" where
  "updateReceipt h userId receiptId body =
     in_transaction (
       bindM (query (\<lambda>_. owns_receipt userId receiptId)) (\<lambda>current.
       case current of
         None \<Rightarrow> raise ReceiptNotFoundError
       | Some row \<Rightarrow>
           bindM (lift (rulesFor (r_kind row))) (\<lambda>was.
           bindM (lift (applyReceiptPatch (rowToEditable row) body)) (\<lambda>(r, markReviewed).
           bindM (validateReferences userId (Some receiptId) r) (\<lambda>_.
           bindM (lift (rulesFor (er_kind r))) (\<lambda>is_now.
           bindM (require_sides_fit receiptId (kr_usesIncomeCategories was) (kr_usesIncomeCategories is_now)) (\<lambda>_.
           bindM (update_receipt h receiptId r
              (audEquivalentCents (h_llround h) (er_totalCents r) (er_fxRateToAud r)) markReviewed) (\<lambda>_.
           bindM (query (\<lambda>_ d. find_row (\<lambda>x. r_id x = receiptId) (d_receipts d))) (\<lambda>updated.
           case updated of None \<Rightarrow> raise empty_result | Some x \<Rightarrow> ret (rowToSummary h x))))))))))"

section \<open>Reads, retry and delete\<close>

definition getReceipt :: "host \<Rightarrow> int \<Rightarrow> int \<Rightarrow> ReceiptSummary option act" where
  "getReceipt h userId receiptId =
     bindM (query (\<lambda>_. owns_receipt userId receiptId)) (\<lambda>result. ret (map_option (rowToSummary h) result))"

definition requeue_failed :: "host \<Rightarrow> int \<Rightarrow> int \<Rightarrow> bool act" where
  "requeue_failed h userId receiptId =
     exec h (\<lambda>now d.
       let hit = (\<lambda>r. r_id r = receiptId \<and> r_user_id r = userId \<and> r_scan_state r = kScanFailed)
       in Inr (d\<lparr>d_receipts := update_where hit
            (\<lambda>r. r\<lparr>r_scan_state := kUploaded, r_scan_attempts := 0, r_reclaim_count := 0, r_updated_at := now\<rparr>)
            (d_receipts d)\<rparr>, \<exists>r \<in> set (d_receipts d). hit r))"

definition retryScan :: "host \<Rightarrow> int \<Rightarrow> int \<Rightarrow> ReceiptSummary act" where
  "retryScan h userId receiptId =
     bindM (requeue_failed h userId receiptId) (\<lambda>requeued.
     bindM (getReceipt h userId receiptId) (\<lambda>receipt.
     case receipt of
       None \<Rightarrow> raise ReceiptNotFoundError
     | Some s \<Rightarrow>
         if \<not> requeued then raise (ConflictError ''only a receipt in scan_failed can be retried'')
         else ret s))"

definition newest_first :: "receipt_row \<Rightarrow> receipt_row \<Rightarrow> bool" where
  "newest_first a b \<longleftrightarrow>
     r_created_at a > r_created_at b \<or> (r_created_at a = r_created_at b \<and> r_id a \<ge> r_id b)"

definition listReceipts :: "host \<Rightarrow> int \<Rightarrow> int \<Rightarrow> int \<Rightarrow> ReceiptSummary list act" where
  "listReceipts h userId lim offset =
     query_or_fail (\<lambda>d.
       if lim < 0 then Inl (DbError ''LIMIT must not be negative'')
       else if offset < 0 then Inl (DbError ''OFFSET must not be negative'')
       else Inr (map (rowToSummary h) (take (nat lim) (drop (nat offset)
         (order_by newest_first (filter (\<lambda>r. r_user_id r = userId) (d_receipts d)))))))"

definition listImages :: "host \<Rightarrow> int \<Rightarrow> int \<Rightarrow> ImageRef list act" where
  "listImages h userId receiptId =
     bindM (query (\<lambda>_. owns_receipt userId receiptId)) (\<lambda>owned.
     if owned = None then raise ReceiptNotFoundError
     else query (\<lambda>_ d. map (\<lambda>g. \<lparr>ir_id = g_id g, ir_createdAt = h_ts_text h (g_created_at g)\<rparr>)
       (sort_key g_created_at (filter (\<lambda>g. g_receipt_id g = receiptId) (d_images d)))))"

definition image_keys_of :: "int \<Rightarrow> int \<Rightarrow> db \<Rightarrow> string list" where
  "image_keys_of userId receiptId d =
     map g_image_key (filter (\<lambda>g. g_receipt_id g = receiptId \<and>
        (\<exists>r \<in> set (d_receipts d). r_id r = g_receipt_id g \<and> r_user_id r = userId)) (d_images d))"

definition delete_receipt_row :: "host \<Rightarrow> int \<Rightarrow> int \<Rightarrow> bool act" where
  "delete_receipt_row h userId receiptId =
     exec h (\<lambda>_ d. Inr (drop_receipts (\<lambda>r. r_id r = receiptId \<and> r_user_id r = userId) d,
        owns_receipt userId receiptId d \<noteq> None))"

definition deleteReceipt :: "host \<Rightarrow> image_store \<Rightarrow> int \<Rightarrow> int \<Rightarrow> bool act" where
  "deleteReceipt h st userId receiptId =
     bindM (query (\<lambda>_. image_keys_of userId receiptId)) (\<lambda>images.
     bindM (delete_receipt_row h userId receiptId) (\<lambda>deleted.
     if \<not> deleted then ret False
     else bindM (forM images (\<lambda>key. tryM (is_remove st key) (\<lambda>_. ret ()))) (\<lambda>_. ret True)))"

definition findImage :: "int \<Rightarrow> ImageLocation option act" where
  "findImage imageId =
     bindM (query (\<lambda>_ d. case find_row (\<lambda>g. g_id g = imageId) (d_images d) of
         None \<Rightarrow> None
       | Some g \<Rightarrow> (case find_row (\<lambda>r. r_id r = g_receipt_id g) (d_receipts d) of
             None \<Rightarrow> None
           | Some r \<Rightarrow> Some \<lparr>il_ownerUserId = r_user_id r, il_imageKey = g_image_key g\<rparr>))) ret"

end
