(* ===== verification/Nlohmann.thy ===== *)
theory Nlohmann
  imports JsonInput
begin

text \<open>
  The accessors of \<open>nlohmann::json\<close> that the Anthropic adapter and the golden-set harness call on
  values they did not build themselves: \<open>at\<close>, \<open>value\<close>, \<open>get\<close>, iteration, and the ways of
  building an object. Parsing, printing and the texts of the library's exceptions are the record
  \<open>nlohmann\<close>.
\<close>

record nlohmann =
  nl_parse :: "string \<Rightarrow> json"               \<comment> \<open>parse without exceptions: JDiscarded when not JSON\<close>
  nl_parse_what :: "string \<Rightarrow> string"        \<comment> \<open>what() of the parse_error of a text\<close>
  nl_key_what :: "string \<Rightarrow> string"          \<comment> \<open>what() of the out_of_range of a missing key\<close>
  nl_type_what :: "string \<Rightarrow> json \<Rightarrow> string" \<comment> \<open>what() of the type_error of an operation on a value\<close>
  nl_dump :: "json \<Rightarrow> error + string"       \<comment> \<open>dump(), which throws on text that is not UTF-8\<close>

section \<open>Building values\<close>

definition jobject :: "(string \<times> json) list \<Rightarrow> json" where
  "jobject ms = JObject (sort_key fst ms)"

definition jint :: "int \<Rightarrow> json" where
  "jint n = JInteger (of_int n)"

text \<open>\<open>object[key] = v;\<close>\<close>

definition jset :: "json \<Rightarrow> string \<Rightarrow> json \<Rightarrow> json" where
  "jset object key v = jobject ((key, v) # filter (\<lambda>m. fst m \<noteq> key) (members object))"

definition jstrings :: "string list \<Rightarrow> json" where
  "jstrings names = JArray (map JString names)"

section \<open>Reading values\<close>

definition type_error :: "nlohmann \<Rightarrow> string \<Rightarrow> json \<Rightarrow> error + 'a" where
  "type_error nl operation j = Inl (JsonException (nl_type_what nl operation j))"

text \<open>\<open>json::parse(text)\<close>\<close>

definition parse_or_throw :: "nlohmann \<Rightarrow> string \<Rightarrow> error + json" where
  "parse_or_throw nl text =
     (if nl_parse nl text = JDiscarded then Inl (JsonException (nl_parse_what nl text)) else Inr (nl_parse nl text))"

definition jat :: "nlohmann \<Rightarrow> json \<Rightarrow> string \<Rightarrow> error + json" where
  "jat nl j key =
     (if \<not> is_object j then type_error nl ''at'' j
      else case jfind j key of None \<Rightarrow> Inl (JsonException (nl_key_what nl key)) | Some v \<Rightarrow> Inr v)"

fun as_string :: "nlohmann \<Rightarrow> json \<Rightarrow> error + string" where
  "as_string nl (JString s) = Inr s"
| "as_string nl j = type_error nl ''string'' j"

definition as_double :: "nlohmann \<Rightarrow> json \<Rightarrow> error + double" where
  "as_double nl j = (case get_number j of Some x \<Rightarrow> Inr x | None \<Rightarrow> type_error nl ''number'' j)"

fun as_bool :: "nlohmann \<Rightarrow> json \<Rightarrow> error + bool" where
  "as_bool nl (JBool b) = Inr b"
| "as_bool nl j = type_error nl ''boolean'' j"

fun as_strings :: "nlohmann \<Rightarrow> json \<Rightarrow> error + string list" where
  "as_strings nl (JArray xs) = rmap (as_string nl) xs"
| "as_strings nl j = type_error nl ''array'' j"

text \<open>\<open>j.value(key, fallback)\<close>, for a fallback of each type.\<close>

definition value_or :: "nlohmann \<Rightarrow> json \<Rightarrow> string \<Rightarrow> (json \<Rightarrow> error + 'a) \<Rightarrow> 'a \<Rightarrow> error + 'a" where
  "value_or nl j key get fallback =
     (if \<not> is_object j then type_error nl ''value'' j
      else case jfind j key of None \<Rightarrow> Inr fallback | Some v \<Rightarrow> get v)"

definition value_string :: "nlohmann \<Rightarrow> json \<Rightarrow> string \<Rightarrow> string \<Rightarrow> error + string" where
  "value_string nl j key fallback = value_or nl j key (as_string nl) fallback"

definition value_json :: "nlohmann \<Rightarrow> json \<Rightarrow> string \<Rightarrow> json \<Rightarrow> error + json" where
  "value_json nl j key fallback = value_or nl j key Inr fallback"

definition value_bool :: "nlohmann \<Rightarrow> json \<Rightarrow> string \<Rightarrow> bool \<Rightarrow> error + bool" where
  "value_bool nl j key fallback = value_or nl j key (as_bool nl) fallback"

text \<open>The values a range-based for visits: the elements of an array, the values of an object, a scalar
  itself, nothing of null.\<close>

fun jelements :: "json \<Rightarrow> json list" where
  "jelements (JArray xs) = xs"
| "jelements (JObject ms) = map snd ms"
| "jelements JNull = []"
| "jelements j = [j]"

section \<open>Shared facts\<close>

lemma members_jobject [simp]: "members (jobject ms) = sort_key fst ms"
  and is_object_jobject [simp]: "is_object (jobject ms)"
  by (simp_all add: jobject_def)

lemma jfind_jobject:
  assumes "distinct (map fst ms)"
  shows "jfind (jobject ms) key = map_of ms key"
proof -
  have "map_of (sort_key fst ms) = map_of ms"
    using assms by (subst map_of_inject_set) (simp_all add: distinct_map)
  then show ?thesis by (simp add: jfind_def)
qed

lemma type_error_Inr [simp, res_simps]: "type_error nl op j \<noteq> Inr x" "Inr x \<noteq> type_error nl op j"
  by (simp_all add: type_error_def)

lemma jat_Inr [res_simps]: "jat nl j key = Inr v \<longleftrightarrow> is_object j \<and> jfind j key = Some v"
  by (auto simp: jat_def split: option.splits)

lemma as_string_Inr [res_simps]: "as_string nl j = Inr s \<longleftrightarrow> j = JString s"
  by (cases j) auto

lemma as_double_Inr [res_simps]: "as_double nl j = Inr x \<longleftrightarrow> get_number j = Some x"
  by (auto simp: as_double_def split: option.splits)

lemma as_bool_Inr [res_simps]: "as_bool nl j = Inr b \<longleftrightarrow> j = JBool b"
  by (cases j) auto

text \<open>Every exception an accessor throws is the library's.\<close>

definition json_throws :: "error + 'a \<Rightarrow> bool" where
  "json_throws r \<longleftrightarrow> (\<forall>e. r = Inl e \<longrightarrow> (\<exists>m. e = JsonException m))"

lemma json_throws_rbind:
  "json_throws m \<Longrightarrow> (\<And>x. m = Inr x \<Longrightarrow> json_throws (f x)) \<Longrightarrow> json_throws (rbind m f)"
  by (cases m) (auto simp: json_throws_def)

lemma json_throws_Inr [simp]: "json_throws (Inr x)"
  by (simp add: json_throws_def)

lemma json_throws_rmap: "(\<And>x. json_throws (f x)) \<Longrightarrow> json_throws (rmap f xs)"
  by (induction xs) (auto intro!: json_throws_rbind)

lemma json_accessors [simp]:
  "json_throws (type_error nl op j)" "json_throws (parse_or_throw nl s)" "json_throws (jat nl j key)"
  "json_throws (as_string nl j)" "json_throws (as_double nl j)" "json_throws (as_bool nl j)"
  by (cases j; auto simp: json_throws_def type_error_def parse_or_throw_def jat_def as_double_def split: option.splits)+

lemma json_as_strings [simp]: "json_throws (as_strings nl j)"
  by (cases j) (auto intro: json_throws_rmap)

lemma json_values [simp]:
  "json_throws (value_string nl j key s)" "json_throws (value_json nl j key v)" "json_throws (value_bool nl j key b)"
  by (simp_all add: value_string_def value_json_def value_bool_def value_or_def split: option.splits)

end
