(* ===== verification/Http.thy ===== *)
theory Http
  imports Auth ReceiptService Nlohmann
begin

text \<open>
  The HTTP surface: \<^verbatim>\<open>src/src/controllers/Responses.cpp\<close>, \<^verbatim>\<open>ReceiptController.cpp\<close>,
  \<^verbatim>\<open>ItemController.cpp\<close>, \<^verbatim>\<open>ReferenceDataController.cpp\<close>, \<^verbatim>\<open>AuthController.cpp\<close> and
  \<^verbatim>\<open>HealthController.cpp\<close>. A handler is an action that returns the response it hands to the
  callback; an exception that leaves it is left to Drogon's own 500. A request is what Drogon
  hands over: the parsed body (discarded when it is not JSON), the multipart files when it parses as
  such, the parameters and the session cookie. JSON objects are kept in key order, as
  nlohmann's are.
\<close>

section \<open>Requests and responses\<close>

record Request =
  rq_body :: json
  rq_files :: "string list option"     \<comment> \<open>None: MultiPartParser::parse failed\<close>
  rq_param :: "string \<Rightarrow> string"        \<comment> \<open>getParameter; empty when absent\<close>
  rq_cookie :: string                  \<comment> \<open>getCookie("session")\<close>
  rq_peer :: string                    \<comment> \<open>getPeerAddr().toIp()\<close>

datatype payload = JsonBody json | WebpBody string

record Cookie =
  ck_value :: string
  ck_secure :: bool
  ck_httpOnly :: bool
  ck_maxAge :: int

record Response =
  rp_status :: int
  rp_body :: payload
  rp_cookie :: "Cookie option"

definition jsonResponse :: "int \<Rightarrow> json \<Rightarrow> Response" where
  "jsonResponse status body = \<lparr>rp_status = status, rp_body = JsonBody body, rp_cookie = None\<rparr>"

definition errorResponse :: "int \<Rightarrow> string \<Rightarrow> string \<Rightarrow> Response" where
  "errorResponse status code message =
     jsonResponse status (jobject [(''error'', jobject [(''code'', JString code), (''message'', JString message)])])"

definition status_ok :: json where
  "status_ok = jobject [(''status'', JString ''ok'')]"

definition id_body :: "int \<Rightarrow> json" where
  "id_body n = jobject [(''id'', jint n)]"

fun errorResponseFor :: "error \<Rightarrow> Response" where
  "errorResponseFor (NotFoundError m) = errorResponse 404 ''not_found'' m"
| "errorResponseFor ReceiptNotFoundError = errorResponse 404 ''not_found'' ''receipt not found''"
| "errorResponseFor (ValidationError m) = errorResponse 400 ''invalid_request'' m"
| "errorResponseFor (ConflictError m) = errorResponse 409 ''conflict'' m"
| "errorResponseFor _ = errorResponse 500 ''internal_error'' ''internal error''"

fun nullable :: "('a \<Rightarrow> json) \<Rightarrow> 'a option \<Rightarrow> json" where
  "nullable f None = JNull"
| "nullable f (Some x) = f x"

text \<open>\<open>try { ... } catch (...) { callback(errorResponseFor(...)); }\<close>\<close>

definition guarded :: "Response act \<Rightarrow> Response act" where
  "guarded m = tryM m (\<lambda>e. ret (errorResponseFor e))"

section \<open>ReceiptController\<close>

definition kMaxImageBytes :: int where
  "kMaxImageBytes = 15 * 1024 * 1024"

definition conflictResponse :: "ImageConflict \<Rightarrow> Response" where
  "conflictResponse c =
     jsonResponse 409 (jobject [(''error'', jobject
       [(''code'', JString ''duplicate_image''),
        (''message'', JString ''an image with identical content already exists''),
        (''duplicate_of'', jobject [(''receipt_id'', jint (ic_receiptId c)), (''image_id'', jint (ic_imageId c))])])])"

definition receipt_toJson :: "ReceiptSummary \<Rightarrow> json" where
  "receipt_toJson r = jobject
     [(''id'', jint (rs_id r)),
      (''store_name_raw'', nullable JString (rs_storeNameRaw r)),
      (''merchant'', nullable JString (rs_merchant r)),
      (''purchase_date'', nullable JString (rs_purchaseDate r)),
      (''total_cents'', jint (rs_totalCents r)),
      (''direction'', JString (rs_direction r)),
      (''currency'', JString (rs_currency r)),
      (''kind'', JString (rs_kind r)),
      (''scan_state'', JString (rs_scanState r)),
      (''tax_deductible'', JBool (rs_taxDeductible r)),
      (''note'', nullable JString (rs_note r)),
      (''source'', JString (rs_source r)),
      (''payment_method_id'', nullable jint (rs_paymentMethodId r)),
      (''offsets_receipt_id'', nullable jint (rs_offsetsReceiptId r)),
      (''fx_rate_to_aud'', nullable JFloat (rs_fxRateToAud r)),
      (''aud_equivalent_cents'', nullable jint (rs_audEquivalentCents r)),
      (''proposed_at'', nullable JString (rs_proposedAt r)),
      (''reviewed_at'', nullable JString (rs_reviewedAt r)),
      (''needs_review'', JBool (rs_needsReview r)),
      (''is_confirmed'', JBool (rs_isConfirmed r)),
      (''created_at'', JString (rs_createdAt r)),
      (''updated_at'', JString (rs_updatedAt r))]"

definition extractImageFiles :: "Request \<Rightarrow> Response + string list" where
  "extractImageFiles req =
     (case rq_files req of
        None \<Rightarrow> Inl (errorResponse 400 ''invalid_request'' ''expected one or more multipart image files'')
      | Some files \<Rightarrow>
          if files = [] then Inl (errorResponse 400 ''invalid_request'' ''expected one or more multipart image files'')
          else if \<exists>f \<in> set files. int (length f) > kMaxImageBytes
          then Inl (errorResponse 400 ''file_too_large'' ''each image must be 15MB or smaller'')
          else Inr files)"

definition forceRequested :: "Request \<Rightarrow> bool" where
  "forceRequested req \<longleftrightarrow> rq_param req ''force'' = ''true''"

fun imageWriteErrorResponse :: "error \<Rightarrow> Response" where
  "imageWriteErrorResponse TooManyImagesError =
     errorResponse 400 ''too_many_images'' ''this would exceed the per-receipt image cap''"
| "imageWriteErrorResponse (ImageDecodeError _) =
     errorResponse 400 ''invalid_image'' ''could not decode image (JPEG, PNG or WebP expected)''"
| "imageWriteErrorResponse e = errorResponseFor e"

definition receipt_upload :: "host \<Rightarrow> image_store \<Rightarrow> int \<Rightarrow> Request \<Rightarrow> Response act" where
  "receipt_upload h st uid req =
     (case extractImageFiles req of
        Inl resp \<Rightarrow> ret resp
      | Inr images \<Rightarrow>
          tryM (bindM (uploadReceipt h st uid images (forceRequested req)) (\<lambda>result.
            case result of
              UploadConflict c \<Rightarrow> ret (conflictResponse c)
            | Uploaded n \<Rightarrow> ret (jsonResponse 201 (id_body n))))
          (\<lambda>e. ret (imageWriteErrorResponse e)))"

definition receipt_addImages :: "host \<Rightarrow> image_store \<Rightarrow> int \<Rightarrow> Request \<Rightarrow> int \<Rightarrow> Response act" where
  "receipt_addImages h st uid req rid =
     (case extractImageFiles req of
        Inl resp \<Rightarrow> ret resp
      | Inr images \<Rightarrow>
          tryM (bindM (addImages h st uid rid images (forceRequested req)) (\<lambda>result.
            case result of
              Some c \<Rightarrow> ret (conflictResponse c)
            | None \<Rightarrow> ret (jsonResponse 200 status_ok)))
          (\<lambda>e. ret (imageWriteErrorResponse e)))"

definition receipt_listImages :: "host \<Rightarrow> int \<Rightarrow> int \<Rightarrow> Response act" where
  "receipt_listImages h uid rid =
     tryM (bindM (listImages h uid rid) (\<lambda>images.
       ret (jsonResponse 200 (JArray (map (\<lambda>img. jobject [(''id'', jint (ir_id img)),
          (''created_at'', JString (ir_createdAt img))]) images)))))
     (\<lambda>e. if e = ReceiptNotFoundError then ret (errorResponse 404 ''not_found'' ''receipt not found'') else raise e)"

definition clamp :: "int \<Rightarrow> int \<Rightarrow> int \<Rightarrow> int" where
  "clamp n lo hi = (if n < lo then lo else if n > hi then hi else n)"

definition int_param :: "Request \<Rightarrow> string \<Rightarrow> int \<Rightarrow> (int \<Rightarrow> int) \<Rightarrow> error + int" where
  "int_param req name fallback f =
     (if rq_param req name = [] then Inr fallback else rbind (stoi (rq_param req name)) (\<lambda>n. Inr (f n)))"

definition receipt_list :: "host \<Rightarrow> int \<Rightarrow> Request \<Rightarrow> Response act" where
  "receipt_list h uid req =
     bindM (lift (int_param req ''limit'' 50 (\<lambda>n. clamp n 1 200))) (\<lambda>lim.
     bindM (lift (int_param req ''offset'' 0 (max 0))) (\<lambda>offset.
     bindM (listReceipts h uid lim offset) (\<lambda>result.
     ret (jsonResponse 200 (JArray (map receipt_toJson result))))))"

definition receipt_get :: "host \<Rightarrow> int \<Rightarrow> int \<Rightarrow> Response act" where
  "receipt_get h uid rid =
     bindM (getReceipt h uid rid) (\<lambda>result.
     case result of
       None \<Rightarrow> ret (errorResponse 404 ''not_found'' ''receipt not found'')
     | Some r \<Rightarrow> ret (jsonResponse 200 (receipt_toJson r)))"

definition receipt_remove :: "host \<Rightarrow> image_store \<Rightarrow> int \<Rightarrow> int \<Rightarrow> Response act" where
  "receipt_remove h st uid rid =
     bindM (deleteReceipt h st uid rid) (\<lambda>deleted.
     if \<not> deleted then ret (errorResponse 404 ''not_found'' ''receipt not found'')
     else ret (jsonResponse 200 status_ok))"

definition webpResponse :: "string \<Rightarrow> Response" where
  "webpResponse bytes = \<lparr>rp_status = 200, rp_body = WebpBody bytes, rp_cookie = None\<rparr>"

definition receipt_image :: "image_store \<Rightarrow> int \<Rightarrow> int \<Rightarrow> Response act" where
  "receipt_image st uid imageId =
     bindM (findImage imageId) (\<lambda>location.
     case location of
       None \<Rightarrow> ret (errorResponse 404 ''not_found'' ''image not found'')
     | Some l \<Rightarrow>
         if il_ownerUserId l \<noteq> uid then ret (errorResponse 404 ''not_found'' ''image not found'')
         else bindM (is_get st (il_imageKey l)) (\<lambda>bytes. ret (webpResponse bytes)))"

definition receipt_createManual :: "host \<Rightarrow> int \<Rightarrow> Request \<Rightarrow> Response act" where
  "receipt_createManual h uid req =
     guarded (bindM (createManual h uid (rq_body req)) (\<lambda>n. ret (jsonResponse 201 (id_body n))))"

definition receipt_update :: "host \<Rightarrow> int \<Rightarrow> Request \<Rightarrow> int \<Rightarrow> Response act" where
  "receipt_update h uid req rid =
     guarded (bindM (updateReceipt h uid rid (rq_body req)) (\<lambda>r. ret (jsonResponse 200 (receipt_toJson r))))"

definition receipt_retryScan :: "host \<Rightarrow> int \<Rightarrow> int \<Rightarrow> Response act" where
  "receipt_retryScan h uid rid =
     guarded (bindM (retryScan h uid rid) (\<lambda>r. ret (jsonResponse 200 (receipt_toJson r))))"

section \<open>ItemController\<close>

definition item_toJson :: "Item \<Rightarrow> json" where
  "item_toJson i = jobject
     [(''id'', jint (it_id i)),
      (''receipt_id'', jint (it_receiptId i)),
      (''name'', nullable JString (it_name i)),
      (''quantity'', nullable JFloat (it_quantity i)),
      (''unit_price_cents'', nullable jint (it_unitPriceCents i)),
      (''amount_cents'', jint (it_amountCents i)),
      (''category_id'', nullable jint (it_categoryId i)),
      (''informational'', JBool (it_informational i)),
      (''tag_ids'', JArray (map jint (it_tagIds i)))]"

definition items_list :: "int \<Rightarrow> int \<Rightarrow> Response act" where
  "items_list uid rid =
     guarded (bindM (item_list uid rid) (\<lambda>items. ret (jsonResponse 200 (JArray (map item_toJson items)))))"

definition items_create :: "host \<Rightarrow> int \<Rightarrow> Request \<Rightarrow> int \<Rightarrow> Response act" where
  "items_create h uid req rid =
     guarded (bindM (item_create h uid rid (rq_body req)) (\<lambda>item. ret (jsonResponse 201 (item_toJson item))))"

definition items_update :: "host \<Rightarrow> int \<Rightarrow> Request \<Rightarrow> int \<Rightarrow> int \<Rightarrow> Response act" where
  "items_update h uid req rid itemId =
     guarded (bindM (item_update h uid rid itemId (rq_body req)) (\<lambda>item. ret (jsonResponse 200 (item_toJson item))))"

definition items_remove :: "host \<Rightarrow> int \<Rightarrow> int \<Rightarrow> int \<Rightarrow> Response act" where
  "items_remove h uid rid itemId =
     guarded (bindM (item_remove h uid rid itemId) (\<lambda>_. ret (jsonResponse 200 status_ok)))"

section \<open>ReferenceDataController\<close>

definition category_toJson :: "Category \<Rightarrow> json" where
  "category_toJson c = jobject [(''id'', jint (ca_id c)), (''name'', JString (ca_name c)), (''is_income'', JBool (ca_isIncome c))]"

definition tag_toJson :: "Tag \<Rightarrow> json" where
  "tag_toJson t = jobject [(''id'', jint (tg_id t)), (''name'', JString (tg_name t))]"

definition payment_method_toJson :: "PaymentMethod \<Rightarrow> json" where
  "payment_method_toJson m =
     jobject [(''id'', jint (pm_id m)), (''name'', JString (pm_name m)), (''stored_value'', JBool (pm_storedValue m))]"

definition toJsonArray :: "('a \<Rightarrow> json) \<Rightarrow> 'a list \<Rightarrow> json" where
  "toJsonArray f entries = JArray (map f entries)"

definition listCategories :: "host \<Rightarrow> int \<Rightarrow> Response act" where
  "listCategories h uid =
     guarded (bindM (category_list h uid) (\<lambda>xs. ret (jsonResponse 200 (toJsonArray category_toJson xs))))"

definition createCategory :: "host \<Rightarrow> int \<Rightarrow> Request \<Rightarrow> Response act" where
  "createCategory h uid req =
     guarded (bindM (category_create h uid (rq_body req)) (\<lambda>x. ret (jsonResponse 201 (category_toJson x))))"

definition updateCategory :: "host \<Rightarrow> int \<Rightarrow> Request \<Rightarrow> int \<Rightarrow> Response act" where
  "updateCategory h uid req n =
     guarded (bindM (category_update h uid n (rq_body req)) (\<lambda>x. ret (jsonResponse 200 (category_toJson x))))"

definition removeCategory :: "host \<Rightarrow> int \<Rightarrow> int \<Rightarrow> Response act" where
  "removeCategory h uid n = guarded (bindM (category_remove h uid n) (\<lambda>_. ret (jsonResponse 200 status_ok)))"

definition listTags :: "host \<Rightarrow> int \<Rightarrow> Response act" where
  "listTags h uid = guarded (bindM (tag_list h uid) (\<lambda>xs. ret (jsonResponse 200 (toJsonArray tag_toJson xs))))"

definition createTag :: "host \<Rightarrow> int \<Rightarrow> Request \<Rightarrow> Response act" where
  "createTag h uid req =
     guarded (bindM (tag_create h uid (rq_body req)) (\<lambda>x. ret (jsonResponse 201 (tag_toJson x))))"

definition updateTag :: "host \<Rightarrow> int \<Rightarrow> Request \<Rightarrow> int \<Rightarrow> Response act" where
  "updateTag h uid req n =
     guarded (bindM (tag_update h uid n (rq_body req)) (\<lambda>x. ret (jsonResponse 200 (tag_toJson x))))"

definition removeTag :: "host \<Rightarrow> int \<Rightarrow> int \<Rightarrow> Response act" where
  "removeTag h uid n = guarded (bindM (tag_remove h uid n) (\<lambda>_. ret (jsonResponse 200 status_ok)))"

definition listPaymentMethods :: "host \<Rightarrow> int \<Rightarrow> Response act" where
  "listPaymentMethods h uid =
     guarded (bindM (payment_method_list h uid) (\<lambda>xs. ret (jsonResponse 200 (toJsonArray payment_method_toJson xs))))"

definition createPaymentMethod :: "host \<Rightarrow> int \<Rightarrow> Request \<Rightarrow> Response act" where
  "createPaymentMethod h uid req =
     guarded (bindM (payment_method_create h uid (rq_body req)) (\<lambda>x. ret (jsonResponse 201 (payment_method_toJson x))))"

definition updatePaymentMethod :: "host \<Rightarrow> int \<Rightarrow> Request \<Rightarrow> int \<Rightarrow> Response act" where
  "updatePaymentMethod h uid req n =
     guarded (bindM (payment_method_update h uid n (rq_body req)) (\<lambda>x. ret (jsonResponse 200 (payment_method_toJson x))))"

definition removePaymentMethod :: "host \<Rightarrow> int \<Rightarrow> int \<Rightarrow> Response act" where
  "removePaymentMethod h uid n =
     guarded (bindM (payment_method_remove h uid n) (\<lambda>_. ret (jsonResponse 200 status_ok)))"

section \<open>AuthController and HealthController\<close>

text \<open>The four process-wide limiters.\<close>

record Limiters =
  lm_loginIp :: RateLimiter
  lm_loginAccount :: RateLimiter
  lm_registerIp :: RateLimiter
  lm_registerAccount :: RateLimiter

definition limiterFromEnv :: "host \<Rightarrow> error + RateLimiter" where
  "limiterFromEnv h =
     rbind (stoi (envOr h ''RATE_LIMIT_MAX_ATTEMPTS'' ''10'')) (\<lambda>maxAttempts.
     rbind (stoll (envOr h ''RATE_LIMIT_WINDOW_SECONDS'' ''300'')) (\<lambda>window.
     Inr \<lparr>rl_maxAttempts = maxAttempts, rl_window = interval window, rl_attempts = (\<lambda>_. None)\<rparr>))"

text \<open>Both attempts are recorded; \<open>now\<close> is the steady clock.\<close>

definition checkRateLimit ::
    "int \<Rightarrow> string \<Rightarrow> string \<Rightarrow> RateLimiter \<Rightarrow> RateLimiter \<Rightarrow> bool \<times> RateLimiter \<times> RateLimiter" where
  "checkRateLimit now ip email byIp byAccount =
     (case allow byIp now ip of (ipOk, byIp') \<Rightarrow>
      case allow byAccount now email of (accountOk, byAccount') \<Rightarrow>
        (ipOk \<and> accountOk, byIp', byAccount'))"

definition makeSessionCookie :: "host \<Rightarrow> string \<Rightarrow> Cookie" where
  "makeSessionCookie h rawToken =
     \<lparr>ck_value = rawToken, ck_secure = (envOr h ''COOKIE_SECURE'' ''false'' = ''true''), ck_httpOnly = True,
      ck_maxAge = kSessionLifetimeSeconds\<rparr>"

text \<open>\<open>body["key"].get<std::string>()\<close>\<close>

definition get_string :: "json \<Rightarrow> string \<Rightarrow> error + string" where
  "get_string body key =
     (case jfind body key of
        Some (JString s) \<Rightarrow> Inr s
      | _ \<Rightarrow> Inl (JsonException ''type must be string''))"

text \<open>The two fields both handlers require; the missing-field response as the left result.\<close>

definition credentials :: "Request \<Rightarrow> (Response + error) + (string \<times> string)" where
  "credentials req =
     (if rq_body req = JDiscarded \<or> \<not> jcontains (rq_body req) ''email'' \<or> \<not> jcontains (rq_body req) ''password''
      then Inl (Inl (errorResponse 400 ''invalid_request'' ''email and password are required''))
      else case get_string (rq_body req) ''email'' of
        Inl e \<Rightarrow> Inl (Inr e)
      | Inr email \<Rightarrow> (case get_string (rq_body req) ''password'' of
          Inl e \<Rightarrow> Inl (Inr e)
        | Inr password \<Rightarrow> Inr (email, password)))"

definition register_action :: "host \<Rightarrow> string \<Rightarrow> string \<Rightarrow> Response act" where
  "register_action h email password =
     tryM (bindM (registerUser h email password) (\<lambda>userId.
        bindM (requestEmailVerification h userId) (\<lambda>_.
        ret (jsonResponse 201 (id_body userId)))))
     (\<lambda>e. if e = DuplicateEmailError
          then ret (errorResponse 409 ''email_taken'' ''an account with this email already exists'') else raise e)"

definition auth_register :: "host \<Rightarrow> int \<Rightarrow> Request \<Rightarrow> Limiters \<Rightarrow> Response act \<times> Limiters" where
  "auth_register h now req lims =
     (case credentials req of
        Inl (Inl resp) \<Rightarrow> (ret resp, lims)
      | Inl (Inr e) \<Rightarrow> (raise e, lims)
      | Inr (email, password) \<Rightarrow>
          (case checkRateLimit now (rq_peer req) email (lm_registerIp lims) (lm_registerAccount lims) of
             (ok, byIp, byAccount) \<Rightarrow>
               (if \<not> ok then ret (errorResponse 429 ''rate_limited'' ''too many registration attempts'')
                else register_action h email password,
                lims\<lparr>lm_registerIp := byIp, lm_registerAccount := byAccount\<rparr>)))"

definition login_action :: "host \<Rightarrow> string \<Rightarrow> string \<Rightarrow> Response act" where
  "login_action h email password =
     bindM (login h email password) (\<lambda>session.
     case session of
       None \<Rightarrow> ret (errorResponse 401 ''invalid_credentials'' ''wrong email or password'')
     | Some rawToken \<Rightarrow> ret ((jsonResponse 200 status_ok)\<lparr>rp_cookie := Some (makeSessionCookie h rawToken)\<rparr>))"

definition auth_login :: "host \<Rightarrow> int \<Rightarrow> Request \<Rightarrow> Limiters \<Rightarrow> Response act \<times> Limiters" where
  "auth_login h now req lims =
     (case credentials req of
        Inl (Inl resp) \<Rightarrow> (ret resp, lims)
      | Inl (Inr e) \<Rightarrow> (raise e, lims)
      | Inr (email, password) \<Rightarrow>
          (case checkRateLimit now (rq_peer req) email (lm_loginIp lims) (lm_loginAccount lims) of
             (ok, byIp, byAccount) \<Rightarrow>
               (if \<not> ok then ret (errorResponse 429 ''rate_limited'' ''too many login attempts'')
                else login_action h email password,
                lims\<lparr>lm_loginIp := byIp, lm_loginAccount := byAccount\<rparr>)))"

definition expired_cookie :: Cookie where
  "expired_cookie = \<lparr>ck_value = [], ck_secure = False, ck_httpOnly = True, ck_maxAge = 0\<rparr>"

definition auth_logout :: "host \<Rightarrow> Request \<Rightarrow> Response act" where
  "auth_logout h req =
     bindM (logout h (rq_cookie req)) (\<lambda>_.
     ret ((jsonResponse 200 status_ok)\<lparr>rp_cookie := Some expired_cookie\<rparr>))"

definition verifyEmail :: "host \<Rightarrow> Request \<Rightarrow> Response act" where
  "verifyEmail h req =
     (if rq_body req = JDiscarded \<or> \<not> jcontains (rq_body req) ''token''
      then ret (errorResponse 400 ''invalid_request'' ''token is required'')
      else
      bindM (lift (get_string (rq_body req) ''token'')) (\<lambda>token.
      bindM (confirmEmailVerification h token) (\<lambda>ok.
      if \<not> ok then ret (errorResponse 400 ''invalid_token'' ''verification token is invalid or expired'')
      else ret (jsonResponse 200 status_ok))))"

definition auth_requestPasswordReset :: "host \<Rightarrow> Request \<Rightarrow> Response act" where
  "auth_requestPasswordReset h req =
     (if rq_body req = JDiscarded \<or> \<not> jcontains (rq_body req) ''email''
      then ret (errorResponse 400 ''invalid_request'' ''email is required'')
      else
      bindM (lift (get_string (rq_body req) ''email'')) (\<lambda>email.
      bindM (requestPasswordReset h email) (\<lambda>_.
      ret (jsonResponse 200 status_ok))))"

definition auth_confirmPasswordReset :: "host \<Rightarrow> Request \<Rightarrow> Response act" where
  "auth_confirmPasswordReset h req =
     (if rq_body req = JDiscarded \<or> \<not> jcontains (rq_body req) ''token'' \<or> \<not> jcontains (rq_body req) ''password''
      then ret (errorResponse 400 ''invalid_request'' ''token and password are required'')
      else
      bindM (lift (get_string (rq_body req) ''token'')) (\<lambda>token.
      bindM (lift (get_string (rq_body req) ''password'')) (\<lambda>password.
      bindM (confirmPasswordReset h token password) (\<lambda>ok.
      if \<not> ok then ret (errorResponse 400 ''invalid_token'' ''reset token is invalid or expired'')
      else ret (jsonResponse 200 status_ok)))))"

definition health :: "Response act" where
  "health =
     tryM (bindM (query (\<lambda>_ _. ())) (\<lambda>_.
        ret (jsonResponse 200 (jobject [(''status'', JString ''ok''), (''db'', JString ''ok'')]))))
     (\<lambda>_. ret (jsonResponse 503 (jobject [(''status'', JString ''degraded''), (''db'', JString ''error'')])))"

section \<open>Routes\<close>

text \<open>The routes behind \<open>SessionAuthFilter\<close>, as the METHOD_LISTs of the controllers give them.\<close>

datatype route =
    Upload | AddImages int | ListImages int | ListReceipts | GetReceipt int | RemoveReceipt int | GetImage int
  | CreateManual | UpdateReceipt int | RetryScan int
  | ListItems int | CreateItem int | UpdateItem int int | RemoveItem int int
  | ListCategories | CreateCategory | UpdateCategory int | RemoveCategory int
  | ListTags | CreateTag | UpdateTag int | RemoveTag int
  | ListPaymentMethods | CreatePaymentMethod | UpdatePaymentMethod int | RemovePaymentMethod int
  | Logout

fun dispatch :: "host \<Rightarrow> image_store \<Rightarrow> int \<Rightarrow> Request \<Rightarrow> route \<Rightarrow> Response act" where
  "dispatch h st uid req Upload = receipt_upload h st uid req"
| "dispatch h st uid req (AddImages n) = receipt_addImages h st uid req n"
| "dispatch h st uid req (ListImages n) = receipt_listImages h uid n"
| "dispatch h st uid req ListReceipts = receipt_list h uid req"
| "dispatch h st uid req (GetReceipt n) = receipt_get h uid n"
| "dispatch h st uid req (RemoveReceipt n) = receipt_remove h st uid n"
| "dispatch h st uid req (GetImage n) = receipt_image st uid n"
| "dispatch h st uid req CreateManual = receipt_createManual h uid req"
| "dispatch h st uid req (UpdateReceipt n) = receipt_update h uid req n"
| "dispatch h st uid req (RetryScan n) = receipt_retryScan h uid n"
| "dispatch h st uid req (ListItems n) = items_list uid n"
| "dispatch h st uid req (CreateItem n) = items_create h uid req n"
| "dispatch h st uid req (UpdateItem n m) = items_update h uid req n m"
| "dispatch h st uid req (RemoveItem n m) = items_remove h uid n m"
| "dispatch h st uid req ListCategories = listCategories h uid"
| "dispatch h st uid req CreateCategory = createCategory h uid req"
| "dispatch h st uid req (UpdateCategory n) = updateCategory h uid req n"
| "dispatch h st uid req (RemoveCategory n) = removeCategory h uid n"
| "dispatch h st uid req ListTags = listTags h uid"
| "dispatch h st uid req CreateTag = createTag h uid req"
| "dispatch h st uid req (UpdateTag n) = updateTag h uid req n"
| "dispatch h st uid req (RemoveTag n) = removeTag h uid n"
| "dispatch h st uid req ListPaymentMethods = listPaymentMethods h uid"
| "dispatch h st uid req CreatePaymentMethod = createPaymentMethod h uid req"
| "dispatch h st uid req (UpdatePaymentMethod n) = updatePaymentMethod h uid req n"
| "dispatch h st uid req (RemovePaymentMethod n) = removePaymentMethod h uid n"
| "dispatch h st uid req Logout = auth_logout h req"

definition unauthorized :: Response where
  "unauthorized = errorResponse 401 ''unauthorized'' ''missing or invalid session''"

definition serve :: "host \<Rightarrow> image_store \<Rightarrow> Request \<Rightarrow> route \<Rightarrow> Response act" where
  "serve h st req r =
     bindM (doFilter h (rq_cookie req)) (\<lambda>user.
     case user of None \<Rightarrow> ret unauthorized | Some uid \<Rightarrow> dispatch h st uid req r)"

text \<open>The routes without the filter.\<close>

datatype public_route = Register | Login | VerifyEmail | RequestPasswordReset | ConfirmPasswordReset | Health

fun public_action :: "host \<Rightarrow> int \<Rightarrow> Request \<Rightarrow> Limiters \<Rightarrow> public_route \<Rightarrow> Response act \<times> Limiters" where
  "public_action h now req lims Register = auth_register h now req lims"
| "public_action h now req lims Login = auth_login h now req lims"
| "public_action h now req lims VerifyEmail = (verifyEmail h req, lims)"
| "public_action h now req lims RequestPasswordReset = (auth_requestPasswordReset h req, lims)"
| "public_action h now req lims ConfirmPasswordReset = (auth_confirmPasswordReset h req, lims)"
| "public_action h now req lims Health = (health, lims)"

end
