(* ===== verification/ScanWorker.thy ===== *)
theory ScanWorker
  imports ItemService ObjectStore ReceiptService
begin

text \<open>
  The background scan pipeline: \<^verbatim>\<open>src/src/scan/ScanProvider.h\<close>, \<^verbatim>\<open>ScanWorker.h\<close>,
  \<^verbatim>\<open>ScanWorker.cpp\<close>, \<^verbatim>\<open>MerchantMatcher.cpp\<close>, \<^verbatim>\<open>FakeScanProvider.cpp\<close> and the
  notifier of \<^verbatim>\<open>Notifier.h\<close>.

  The provider, the matcher, the image store and the notifier are fields of the worker, as in
  the class. They are actions on the whole world, so what other requests do to the database
  while a scan or a comparison runs is part of them: nothing below assumes that the row a
  result is written to is still the row that was claimed. \<open>clock\<close> gives the value of
  \<^verbatim>\<open>clock_timestamp()\<close> for each claimed row. The scans of one tick run one after the other here.
\<close>

section \<open>Provider boundary\<close>

record ScanContext =
  sc_knownKind :: "string option"
  sc_expenseCategories :: "string list"
  sc_incomeCategories :: "string list"
  sc_tags :: "string list"

record ScannedItem =
  si_name :: "string option"
  si_quantity :: "double option"
  si_unitPriceCents :: "int option"
  si_amountCents :: int
  si_category :: "string option"
  si_informational :: bool
  si_tags :: "string list"

definition ScannedItem_init :: ScannedItem where
  "ScannedItem_init = \<lparr>si_name = None, si_quantity = None, si_unitPriceCents = None, si_amountCents = 0,
     si_category = None, si_informational = False, si_tags = []\<rparr>"

record ScanResult =
  sr_kind :: string
  sr_currency :: string
  sr_totalCents :: int
  sr_merchant :: "string option"
  sr_storeNameRaw :: "string option"
  sr_purchaseDate :: "string option"
  sr_items :: "ScannedItem list"
  sr_raw :: json

definition ScanResult_init :: ScanResult where
  "ScanResult_init = \<lparr>sr_kind = [], sr_currency = ''AUD'', sr_totalCents = 0, sr_merchant = None,
     sr_storeNameRaw = None, sr_purchaseDate = None, sr_items = [], sr_raw = JNull\<rparr>"

type_synonym scan_provider = "string list \<Rightarrow> ScanContext \<Rightarrow> ScanResult act"
type_synonym merchant_matcher = "string \<Rightarrow> string \<Rightarrow> double act"
type_synonym notifier = "int \<Rightarrow> string \<Rightarrow> json \<Rightarrow> unit act"

text \<open>\<open>PgTrgmMerchantMatcher\<close>, \<open>NoopNotifier\<close> and the canned result of \<open>FakeScanProvider\<close>.\<close>

definition pg_trgm_similarity :: "host \<Rightarrow> merchant_matcher" where
  "pg_trgm_similarity h a b = query (\<lambda>_ _. h_similarity h a b)"

definition noop_notify :: notifier where
  "noop_notify userId event payload = ret ()"

definition cannedResult :: scan_provider where
  "cannedResult images context =
     ret (ScanResult_init
       \<lparr>sr_kind := (case sc_knownKind context of Some k \<Rightarrow> k | None \<Rightarrow> kDefaultKind),
        sr_merchant := Some ''Fake Merchant'', sr_storeNameRaw := Some ''FAKE MERCHANT PTY LTD'',
        sr_totalCents := 1234,
        sr_items := [ScannedItem_init\<lparr>si_name := Some ''fake item'', si_amountCents := 1234\<rparr>],
        sr_raw := JObject [(''provider'', JString ''fake'')]\<rparr>)"

record ScanWorkerConfig =
  cf_concurrency :: int
  cf_maxScanAttempts :: int
  cf_maxReclaims :: int
  cf_reclaimAfterSeconds :: int
  cf_matchDateDays :: int
  cf_merchantMatchThreshold :: double

definition envInt :: "host \<Rightarrow> string \<Rightarrow> int \<Rightarrow> error + int" where
  "envInt h name fallback = stoi (envOr h name (to_string fallback))"

text \<open>\<open>std::to_string(0.3)\<close> prints six decimals.\<close>

definition ScanWorkerConfig_fromEnv :: "host \<Rightarrow> error + ScanWorkerConfig" where
  "ScanWorkerConfig_fromEnv h =
     rbind (envInt h ''SCAN_CONCURRENCY'' 2) (\<lambda>concurrency.
     rbind (envInt h ''SCAN_MAX_ATTEMPTS'' 3) (\<lambda>maxScanAttempts.
     rbind (envInt h ''SCAN_MAX_RECLAIMS'' 10) (\<lambda>maxReclaims.
     rbind (envInt h ''SCAN_RECLAIM_SECONDS'' 600) (\<lambda>reclaimAfterSeconds.
     rbind (envInt h ''MATCH_DATE_DAYS'' 3) (\<lambda>matchDateDays.
     rbind (h_stod h (envOr h ''MERCHANT_MATCH_THRESHOLD'' ''0.300000'')) (\<lambda>threshold.
     Inr \<lparr>cf_concurrency = concurrency, cf_maxScanAttempts = maxScanAttempts, cf_maxReclaims = maxReclaims,
          cf_reclaimAfterSeconds = reclaimAfterSeconds, cf_matchDateDays = matchDateDays,
          cf_merchantMatchThreshold = threshold\<rparr>))))))"

record ScanWorker =
  sw_store :: image_store
  sw_provider :: scan_provider
  sw_matcher :: merchant_matcher
  sw_notifier :: notifier
  sw_config :: ScanWorkerConfig

record Claim =
  cl_receiptId :: int
  cl_userId :: int
  cl_claimedAt :: instant

section \<open>Pure steps\<close>

record CategoryRef =
  cr_id :: int
  cr_name :: string
  cr_isIncome :: bool

record TagRef =
  tr_id :: int
  tr_name :: string

record Taxonomy =
  tx_categories :: "CategoryRef list"
  tx_tags :: "TagRef list"

record Snapshot =
  sn_reviewed :: bool
  sn_kind :: string
  sn_totalCents :: int
  sn_currency :: string
  sn_merchant :: "string option"
  sn_purchaseDate :: "string option"
  sn_taxDeductible :: bool
  sn_offsetsReceiptId :: "int option"
  sn_updatedAt :: instant
  sn_itemCount :: nat

definition daysBetween :: "string \<Rightarrow> string \<Rightarrow> error + int" where
  "daysBetween from_day to_day =
     rbind (parse_ymd to_day) (\<lambda>t. rbind (parse_ymd from_day) (\<lambda>f. Inr (sys_days t - sys_days f)))"

definition bad_item :: "ScannedItem \<Rightarrow> bool" where
  "bad_item item \<longleftrightarrow> si_amountCents item < 0 \<or>
     (case si_unitPriceCents item of None \<Rightarrow> False | Some p \<Rightarrow> p < 0) \<or>
     (case si_quantity item of None \<Rightarrow> False | Some q \<Rightarrow> \<not> dless dzero q)"

text \<open>\<open>catch (const ValidationError &e) { throw ScanError("provider returned " + e.what()); }\<close>\<close>

definition as_scan_error :: "error + 'a \<Rightarrow> error + 'a" where
  "as_scan_error r =
     (case r of
        Inl (ValidationError m) \<Rightarrow> Inl (ScanError (''provider returned '' @ m))
      | _ \<Rightarrow> r)"

definition validateResult :: "ScanResult \<Rightarrow> bool \<Rightarrow> error + ScanResult" where
  "validateResult result verifying =
     (if \<not> verifying \<and> (case findKind (sr_kind result) of None \<Rightarrow> True | Some rules \<Rightarrow> \<not> scannable rules)
      then Inl (ScanError (''provider returned an unusable kind: '' @ sr_kind result))
      else if sr_totalCents result < 0 then Inl (ScanError ''provider returned a negative total'')
      else if \<exists>item \<in> set (sr_items result). bad_item item
      then Inl (ScanError ''provider returned an item with a negative amount or non-positive quantity'')
      else as_scan_error (
        rbind (currency (JString (sr_currency result)) ''currency'') (\<lambda>cur.
        rbind (case sr_purchaseDate result of
                 None \<Rightarrow> Inr []
               | Some d \<Rightarrow> date (JString d) ''purchase_date'') (\<lambda>_.
        Inr (result\<lparr>sr_currency := cur\<rparr>)))))"

definition makeContext :: "Taxonomy \<Rightarrow> string option \<Rightarrow> ScanContext" where
  "makeContext taxonomy knownKind =
     \<lparr>sc_knownKind = knownKind,
      sc_expenseCategories = map cr_name (filter (\<lambda>c. \<not> cr_isIncome c) (tx_categories taxonomy)),
      sc_incomeCategories = map cr_name (filter cr_isIncome (tx_categories taxonomy)),
      sc_tags = map tr_name (tx_tags taxonomy)\<rparr>"

definition match_category :: "Taxonomy \<Rightarrow> bool \<Rightarrow> string \<Rightarrow> int option" where
  "match_category taxonomy incomeSide name =
     map_option cr_id (find (\<lambda>c. cr_isIncome c = incomeSide \<and> lower (cr_name c) = lower name) (tx_categories taxonomy))"

definition match_tags :: "Taxonomy \<Rightarrow> string list \<Rightarrow> int list" where
  "match_tags taxonomy names =
     foldl (\<lambda>ids name.
       foldl (\<lambda>ids tag. if lower (tr_name tag) = lower name \<and> tr_id tag \<notin> set ids then ids @ [tr_id tag] else ids)
         ids (tx_tags taxonomy)) [] names"

definition toItemInput :: "ScannedItem \<Rightarrow> string \<Rightarrow> Taxonomy \<Rightarrow> error + ItemInput" where
  "toItemInput scanned kind taxonomy =
     rbind (case si_category scanned of
              None \<Rightarrow> Inr None
            | Some name \<Rightarrow> rbind (rulesFor kind) (\<lambda>rules.
                Inr (match_category taxonomy (kr_usesIncomeCategories rules) name))) (\<lambda>categoryId.
     Inr \<lparr>ii_name = si_name scanned, ii_quantity = si_quantity scanned,
          ii_unitPriceCents = si_unitPriceCents scanned, ii_amountCents = si_amountCents scanned,
          ii_categoryId = categoryId, ii_informational = si_informational scanned,
          ii_tagIds = match_tags taxonomy (si_tags scanned)\<rparr>)"

section \<open>Reading\<close>

definition claimed_row :: "Claim \<Rightarrow> receipt_row \<Rightarrow> bool" where
  "claimed_row claim r \<longleftrightarrow> r_id r = cl_receiptId claim \<and> r_scan_state r = kScanning \<and>
     r_scan_started_at r = Some (cl_claimedAt claim)"

definition rowToSnapshot :: "db \<Rightarrow> receipt_row \<Rightarrow> Snapshot" where
  "rowToSnapshot d r =
     \<lparr>sn_reviewed = (r_reviewed_at r \<noteq> None), sn_kind = r_kind r, sn_totalCents = r_total_cents r,
      sn_currency = r_currency r, sn_merchant = r_merchant r, sn_purchaseDate = r_purchase_date r,
      sn_taxDeductible = r_tax_deductible r, sn_offsetsReceiptId = r_offsets_receipt_id r,
      sn_updatedAt = r_updated_at r,
      sn_itemCount = length (filter (\<lambda>i. i_receipt_id i = r_id r) (d_items d))\<rparr>"

definition snapshot_of :: "Claim \<Rightarrow> db \<Rightarrow> Snapshot option" where
  "snapshot_of claim d = map_option (rowToSnapshot d) (find_row (claimed_row claim) (d_receipts d))"

definition readSnapshot :: "Claim \<Rightarrow> Snapshot option act" where
  "readSnapshot claim = query (\<lambda>_. snapshot_of claim)"

definition loadTaxonomy :: "int \<Rightarrow> Taxonomy act" where
  "loadTaxonomy userId =
     bindM (query (\<lambda>_ d. map (\<lambda>c. \<lparr>cr_id = c_id c, cr_name = c_name c, cr_isIncome = c_is_income c\<rparr>)
        (sort_key c_id (filter (\<lambda>c. c_user_id c = userId) (d_categories d))))) (\<lambda>categories.
     bindM (query (\<lambda>_ d. map (\<lambda>t. \<lparr>tr_id = t_id t, tr_name = t_name t\<rparr>)
        (sort_key t_id (filter (\<lambda>t. t_user_id t = userId) (d_tags d))))) (\<lambda>tags.
     ret \<lparr>tx_categories = categories, tx_tags = tags\<rparr>))"

section \<open>Writing a result\<close>

definition insertScannedItem :: "host \<Rightarrow> Claim \<Rightarrow> string \<Rightarrow> Taxonomy \<Rightarrow> ScannedItem \<Rightarrow> unit act" where
  "insertScannedItem h claim kind taxonomy scanned =
     bindM (lift (toItemInput scanned kind taxonomy)) (\<lambda>input.
     bindM (item_insert h (cl_userId claim) (cl_receiptId claim) kind input) (\<lambda>_. ret ()))"

definition insertScannedItems :: "host \<Rightarrow> Claim \<Rightarrow> string \<Rightarrow> ScannedItem list \<Rightarrow> Taxonomy \<Rightarrow> unit act" where
  "insertScannedItems h claim kind items taxonomy = forM items (insertScannedItem h claim kind taxonomy)"

definition extract_row ::
    "ScanResult \<Rightarrow> string \<Rightarrow> bool \<Rightarrow> int option \<Rightarrow> string option \<Rightarrow> json \<Rightarrow> instant \<Rightarrow> receipt_row \<Rightarrow> receipt_row" where
  "extract_row result direction taxDeductible offsets pdate raw now r =
     r\<lparr>r_kind := sr_kind result, r_direction := direction, r_total_cents := sr_totalCents result,
       r_currency := sr_currency result, r_merchant := sr_merchant result,
       r_store_name_raw := sr_storeNameRaw result, r_purchase_date := pdate,
       r_tax_deductible := taxDeductible, r_offsets_receipt_id := offsets, r_raw_ocr_json := Some raw,
       r_scan_state := kIdle, r_scan_started_at := None, r_proposed_at := Some now, r_updated_at := now\<rparr>"

definition update_extracted :: "host \<Rightarrow> Claim \<Rightarrow> ScanResult \<Rightarrow> string \<Rightarrow> bool \<Rightarrow> int option \<Rightarrow> unit act" where
  "update_extracted h claim result direction taxDeductible offsets =
     exec h (\<lambda>now d.
       rbind (h_jsonb h (sr_raw result)) (\<lambda>raw.
       rbind (sql_date h (sr_purchaseDate result)) (\<lambda>pdate.
       Inr (d\<lparr>d_receipts := update_where (\<lambda>r. r_id r = cl_receiptId claim)
          (extract_row result direction taxDeductible offsets pdate raw now) (d_receipts d)\<rparr>, ()))))"

definition delete_items :: "host \<Rightarrow> int \<Rightarrow> unit act" where
  "delete_items h receiptId = exec h (\<lambda>_ d. Inr (drop_items (\<lambda>i. i_receipt_id i = receiptId) d, ()))"

definition writeExtraction :: "host \<Rightarrow> Claim \<Rightarrow> ScanResult \<Rightarrow> Taxonomy \<Rightarrow> Snapshot \<Rightarrow> unit act" where
  "writeExtraction h claim result taxonomy snapshot =
     bindM (lift (rulesFor (sr_kind result))) (\<lambda>rules.
     bindM (update_extracted h claim result (canonical_or_empty rules)
        (sn_taxDeductible snapshot \<and> kr_allowsTaxDeductible rules)
        (if kr_canOffset rules then sn_offsetsReceiptId snapshot else None)) (\<lambda>_.
     bindM (delete_items h (cl_receiptId claim)) (\<lambda>_.
     insertScannedItems h claim (sr_kind result) (sr_items result) taxonomy)))"

definition coalesce :: "'a option \<Rightarrow> 'a option \<Rightarrow> 'a option" where
  "coalesce a b = (case a of Some x \<Rightarrow> Some x | None \<Rightarrow> b)"

definition verify_row :: "ScanResult \<Rightarrow> string option \<Rightarrow> json \<Rightarrow> bool \<Rightarrow> instant \<Rightarrow> receipt_row \<Rightarrow> receipt_row" where
  "verify_row result pdate raw allMatch now r =
     r\<lparr>r_merchant := coalesce (r_merchant r) (sr_merchant result),
       r_store_name_raw := coalesce (r_store_name_raw r) (sr_storeNameRaw result),
       r_purchase_date := coalesce (r_purchase_date r) pdate, r_raw_ocr_json := Some raw,
       r_scan_state := kIdle, r_scan_started_at := None, r_proposed_at := Some now,
       r_reviewed_at := (if allMatch then Some now else r_reviewed_at r), r_updated_at := now\<rparr>"

definition update_verified :: "host \<Rightarrow> Claim \<Rightarrow> ScanResult \<Rightarrow> bool \<Rightarrow> unit act" where
  "update_verified h claim result allMatch =
     exec h (\<lambda>now d.
       rbind (h_jsonb h (sr_raw result)) (\<lambda>raw.
       rbind (sql_date h (sr_purchaseDate result)) (\<lambda>pdate.
       Inr (d\<lparr>d_receipts := update_where (\<lambda>r. r_id r = cl_receiptId claim)
          (verify_row result pdate raw allMatch now) (d_receipts d)\<rparr>, ()))))"

definition writeVerify :: "host \<Rightarrow> Claim \<Rightarrow> ScanResult \<Rightarrow> Taxonomy \<Rightarrow> Snapshot \<Rightarrow> bool \<Rightarrow> unit act" where
  "writeVerify h claim result taxonomy snapshot allMatch =
     bindM (update_verified h claim result allMatch) (\<lambda>_.
     if sn_itemCount snapshot = 0
     then insertScannedItems h claim (sn_kind snapshot) (sr_items result) taxonomy
     else ret ())"

definition dates_apart :: "int \<Rightarrow> string option \<Rightarrow> string option \<Rightarrow> error + bool" where
  "dates_apart days recorded scanned =
     (case (recorded, scanned) of
        (Some a, Some b) \<Rightarrow> rbind (daysBetween a b) (\<lambda>n. Inr (\<bar>n\<bar> > days))
      | _ \<Rightarrow> Inr False)"

definition merchant_matches :: "ScanWorker \<Rightarrow> string \<Rightarrow> ScanResult \<Rightarrow> bool act" where
  "merchant_matches sw recorded result =
     (let threshold = cf_merchantMatchThreshold (sw_config sw) in
      bindM (case sr_merchant result of
               None \<Rightarrow> ret dzero
             | Some m \<Rightarrow> sw_matcher sw recorded m) (\<lambda>similarity.
      bindM (case sr_storeNameRaw result of
               None \<Rightarrow> ret similarity
             | Some s \<Rightarrow>
                 if dless similarity threshold
                 then bindM (sw_matcher sw recorded s) (\<lambda>storeSimilarity. ret (dmax similarity storeSimilarity))
                 else ret similarity) (\<lambda>best.
      ret (\<not> dless best threshold))))"

definition compare_verify :: "ScanWorker \<Rightarrow> ScanResult \<Rightarrow> Snapshot \<Rightarrow> bool act" where
  "compare_verify sw result before =
     (if \<not> sn_reviewed before then ret True
      else
      bindM (lift (dates_apart (cf_matchDateDays (sw_config sw)) (sn_purchaseDate before) (sr_purchaseDate result))) (\<lambda>apart.
      bindM (case sn_merchant before of
               None \<Rightarrow> ret True
             | Some m \<Rightarrow>
                 if sr_merchant result = None \<and> sr_storeNameRaw result = None then ret True
                 else merchant_matches sw m result) (\<lambda>similar.
      ret (sr_totalCents result = sn_totalCents before \<and> sr_currency result = sn_currency before \<and>
           \<not> apart \<and> similar))))"

definition unchanged :: "Snapshot \<Rightarrow> Snapshot \<Rightarrow> bool" where
  "unchanged locked before \<longleftrightarrow> sn_updatedAt locked = sn_updatedAt before \<and>
     sn_reviewed locked = sn_reviewed before \<and> sn_itemCount locked = sn_itemCount before"

datatype attempt_result = Stale | Written | Changed

definition write_result ::
    "host \<Rightarrow> Claim \<Rightarrow> ScanResult \<Rightarrow> Taxonomy \<Rightarrow> Snapshot \<Rightarrow> bool \<Rightarrow> attempt_result act" where
  "write_result h claim result taxonomy before allMatch =
     transaction (
       bindM (readSnapshot claim) (\<lambda>locked.
       case locked of
         None \<Rightarrow> ret (Rollback Stale)
       | Some now_row \<Rightarrow>
           if unchanged now_row before then
             bindM (if sn_reviewed now_row then writeVerify h claim result taxonomy now_row allMatch
                    else writeExtraction h claim result taxonomy now_row) (\<lambda>_. ret (Commit Written))
           else ret (Rollback Changed)))"

fun apply_attempts :: "nat \<Rightarrow> host \<Rightarrow> ScanWorker \<Rightarrow> Claim \<Rightarrow> ScanResult \<Rightarrow> Taxonomy \<Rightarrow> unit act" where
  "apply_attempts 0 h sw claim result taxonomy =
     raise (RuntimeError ''receipt kept changing while its scan result was being written'')"
| "apply_attempts (Suc n) h sw claim result taxonomy =
     bindM (readSnapshot claim) (\<lambda>before.
     case before of
       None \<Rightarrow> ret ()
     | Some b \<Rightarrow>
         bindM (compare_verify sw result b) (\<lambda>allMatch.
         bindM (write_result h claim result taxonomy b allMatch) (\<lambda>outcome.
         case outcome of
           Stale \<Rightarrow> ret ()
         | Written \<Rightarrow> ret ()
         | Changed \<Rightarrow> apply_attempts n h sw claim result taxonomy)))"

definition applyResult :: "host \<Rightarrow> ScanWorker \<Rightarrow> Claim \<Rightarrow> ScanResult \<Rightarrow> unit act" where
  "applyResult h sw claim result =
     bindM (loadTaxonomy (cl_userId claim)) (\<lambda>taxonomy. apply_attempts 2 h sw claim result taxonomy)"

section \<open>Failures and the queue\<close>

definition notifyScanFailed :: "ScanWorker \<Rightarrow> int \<Rightarrow> int \<Rightarrow> string \<Rightarrow> unit act" where
  "notifyScanFailed sw userId receiptId reason =
     tryM (sw_notifier sw userId ''scan_failed''
        (JObject [(''reason'', JString reason), (''receipt_id'', JInteger (of_int receiptId))])) (\<lambda>_. ret ())"

definition fail_row :: "bool \<Rightarrow> int \<Rightarrow> receipt_row \<Rightarrow> receipt_row" where
  "fail_row scanError cap r =
     (if scanError
      then r\<lparr>r_scan_attempts := r_scan_attempts r + 1, r_scan_started_at := None,
             r_scan_state := (if r_scan_attempts r + 1 \<ge> cap then kScanFailed else kUploaded)\<rparr>
      else r\<lparr>r_reclaim_count := r_reclaim_count r + 1, r_scan_started_at := None,
             r_scan_state := (if r_reclaim_count r + 1 \<ge> cap then kScanFailed else kUploaded)\<rparr>)"

definition spend_failure :: "host \<Rightarrow> Claim \<Rightarrow> bool \<Rightarrow> int \<Rightarrow> string option act" where
  "spend_failure h claim scanError cap =
     exec h (\<lambda>_ d. Inr (d\<lparr>d_receipts := update_where (claimed_row claim) (fail_row scanError cap) (d_receipts d)\<rparr>,
        map_option (\<lambda>r. r_scan_state (fail_row scanError cap r)) (find_row (claimed_row claim) (d_receipts d))))"

definition failure_cap :: "ScanWorkerConfig \<Rightarrow> bool \<Rightarrow> bool \<Rightarrow> int" where
  "failure_cap cfg scanError terminal =
     (if terminal then 0 else if scanError then cf_maxScanAttempts cfg else cf_maxReclaims cfg)"

definition recordFailure :: "host \<Rightarrow> ScanWorker \<Rightarrow> Claim \<Rightarrow> bool \<Rightarrow> bool \<Rightarrow> string \<Rightarrow> unit act" where
  "recordFailure h sw claim scanError terminal err =
     bindM (spend_failure h claim scanError (failure_cap (sw_config sw) scanError terminal)) (\<lambda>state.
     if state = Some kScanFailed
     then notifyScanFailed sw (cl_userId claim) (cl_receiptId claim) err
     else ret ())"

definition stuck :: "ScanWorkerConfig \<Rightarrow> instant \<Rightarrow> receipt_row \<Rightarrow> bool" where
  "stuck cfg now r \<longleftrightarrow> r_scan_state r = kScanning \<and>
     (case r_scan_started_at r of
        None \<Rightarrow> False
      | Some t \<Rightarrow> t < now - cf_reclaimAfterSeconds cfg * 1000000)"

definition reclaim_rows :: "host \<Rightarrow> ScanWorkerConfig \<Rightarrow> receipt_row list act" where
  "reclaim_rows h cfg =
     exec h (\<lambda>now d. Inr (d\<lparr>d_receipts := update_where (stuck cfg now) (fail_row False (cf_maxReclaims cfg)) (d_receipts d)\<rparr>,
        map (fail_row False (cf_maxReclaims cfg)) (filter (stuck cfg now) (d_receipts d))))"

definition reclaimStuck :: "host \<Rightarrow> ScanWorker \<Rightarrow> unit act" where
  "reclaimStuck h sw =
     bindM (reclaim_rows h (sw_config sw)) (\<lambda>rows.
     forM rows (\<lambda>row.
       if r_scan_state row = kScanFailed
       then notifyScanFailed sw (r_user_id row) (r_id row) ''the scan kept timing out''
       else ret ()))"

definition oldest_first :: "receipt_row \<Rightarrow> receipt_row \<Rightarrow> bool" where
  "oldest_first a b \<longleftrightarrow>
     r_created_at a < r_created_at b \<or> (r_created_at a = r_created_at b \<and> r_id a \<le> r_id b)"

definition claimable :: "ScanWorkerConfig \<Rightarrow> db \<Rightarrow> receipt_row list" where
  "claimable cfg d =
     take (nat (cf_concurrency cfg - int (length (filter (\<lambda>r. r_scan_state r = kScanning) (d_receipts d)))))
       (order_by oldest_first (filter (\<lambda>r. r_scan_state r = kUploaded) (d_receipts d)))"

definition claim_row :: "(int \<Rightarrow> instant) \<Rightarrow> receipt_row \<Rightarrow> receipt_row" where
  "claim_row clock r = r\<lparr>r_scan_state := kScanning, r_scan_started_at := Some (clock (r_id r))\<rparr>"

definition claim_of :: "(int \<Rightarrow> instant) \<Rightarrow> receipt_row \<Rightarrow> Claim" where
  "claim_of clock r = \<lparr>cl_receiptId = r_id r, cl_userId = r_user_id r, cl_claimedAt = clock (r_id r)\<rparr>"

text \<open>\<open>ScanWorker::claim\<close>\<close>

definition claim_receipts :: "host \<Rightarrow> ScanWorkerConfig \<Rightarrow> (int \<Rightarrow> instant) \<Rightarrow> Claim list act" where
  "claim_receipts h cfg clock =
     exec h (\<lambda>_ d.
       let hit = (\<lambda>r. r_id r \<in> r_id ` set (claimable cfg d))
       in Inr (d\<lparr>d_receipts := update_where hit (claim_row clock) (d_receipts d)\<rparr>,
               map (claim_of clock) (filter hit (d_receipts d))))"

section \<open>One scan, one tick\<close>

definition image_keys :: "int \<Rightarrow> string list act" where
  "image_keys receiptId =
     query (\<lambda>_ d. map g_image_key (sort_key g_created_at (sort_key g_id
       (filter (\<lambda>g. g_receipt_id g = receiptId) (d_images d)))))"

text \<open>The try block of \<open>process\<close>: nothing on success, the terminal failure of a receipt without images
  as a value, every other failure as the exception it throws.\<close>

definition scan_claim :: "host \<Rightarrow> ScanWorker \<Rightarrow> Claim \<Rightarrow> error option act" where
  "scan_claim h sw claim =
     bindM (readSnapshot claim) (\<lambda>snapshot.
     case snapshot of
       None \<Rightarrow> ret None
     | Some s \<Rightarrow>
         bindM (image_keys (cl_receiptId claim)) (\<lambda>keys.
         if keys = [] then ret (Some (ScanError ''receipt has no images''))
         else
         bindM (mapM keys (is_get (sw_store sw))) (\<lambda>images.
         bindM (loadTaxonomy (cl_userId claim)) (\<lambda>taxonomy.
         let context = makeContext taxonomy (if sn_reviewed s then Some (sn_kind s) else None) in
         bindM (sw_provider sw images context) (\<lambda>result.
         bindM (lift (validateResult result (sc_knownKind context \<noteq> None))) (\<lambda>valid.
         bindM (applyResult h sw claim valid) (\<lambda>_.
         ret None)))))))"

fun is_scan_error :: "error \<Rightarrow> bool" where
  "is_scan_error (ScanError _) = True"
| "is_scan_error _ = False"

definition process :: "host \<Rightarrow> ScanWorker \<Rightarrow> Claim \<Rightarrow> unit act" where
  "process h sw claim =
     bindM (tryM (bindM (scan_claim h sw claim) (\<lambda>failure. ret (map_option (\<lambda>e. (True, e)) failure)))
        (\<lambda>e. ret (Some (False, e)))) (\<lambda>failure.
     case failure of
       None \<Rightarrow> ret ()
     | Some (terminal, e) \<Rightarrow>
         tryM (recordFailure h sw claim (is_scan_error e) terminal (what_of e)) (\<lambda>_. ret ()))"

definition tick :: "host \<Rightarrow> ScanWorker \<Rightarrow> (int \<Rightarrow> instant) \<Rightarrow> nat act" where
  "tick h sw clock =
     tryM (bindM (reclaimStuck h sw) (\<lambda>_.
        bindM (claim_receipts h (sw_config sw) clock) (\<lambda>claims.
        bindM (forM claims (process h sw)) (\<lambda>_. ret (length claims))))) (\<lambda>_. ret 0)"

end
