(* ===== verification/RowSteps.thy ===== *)
theory RowSteps
  imports ReferenceData ScanWorker
begin

text \<open>
  What no operation does to a receipt: reuse an id, change an owner, or take back a review; and what only a claim
  does: start a scan.
  \<open>row_step\<close> relates the worlds before and after. The operations are shown to honour it through the
  locale \<open>row_relation\<close>: any relation that survives rollbacks and that the single statements honour is
  honoured by every operation, at every failure.
\<close>

text \<open>A row that is in \<open>scanning\<close> after the statement was so before, under the same claim.\<close>

definition no_new_scan :: "receipt_row \<Rightarrow> receipt_row \<Rightarrow> bool" where
  "no_new_scan r r' \<longleftrightarrow>
     (r_scan_state r' = kScanning \<longrightarrow> r_scan_state r = kScanning \<and> r_scan_started_at r' = r_scan_started_at r)"

definition rows_from :: "db \<Rightarrow> db \<Rightarrow> bool" where
  "rows_from d d' \<longleftrightarrow>
     (\<forall>r' \<in> set (d_receipts d'). \<exists>r \<in> set (d_receipts d). r_id r = r_id r' \<and> r_user_id r = r_user_id r' \<and>
        (r_reviewed_at r \<noteq> None \<longrightarrow> r_reviewed_at r' \<noteq> None) \<and> no_new_scan r r') \<and>
     set (d_images d') \<subseteq> set (d_images d)"

definition row_step :: "world \<Rightarrow> world \<Rightarrow> bool" where
  "row_step w w' \<longleftrightarrow> w_seq w Receipts \<le> w_seq w' Receipts \<and>
     (\<forall>r' \<in> set (d_receipts (w_db w')).
        (w_seq w Receipts \<le> r_id r' \<and> r_id r' < w_seq w' Receipts) \<or>
        (\<exists>r \<in> set (d_receipts (w_db w)). r_id r = r_id r' \<and> r_user_id r = r_user_id r' \<and>
           (r_reviewed_at r \<noteq> None \<longrightarrow> r_reviewed_at r' \<noteq> None)))"

lemma row_step_trans: "row_step a b \<Longrightarrow> row_step b c \<Longrightarrow> row_step a c"
  unfolding row_step_def
proof (intro conjI ballI)
  assume a: "w_seq a Receipts \<le> w_seq b Receipts \<and>
     (\<forall>r' \<in> set (d_receipts (w_db b)). (w_seq a Receipts \<le> r_id r' \<and> r_id r' < w_seq b Receipts) \<or>
        (\<exists>r \<in> set (d_receipts (w_db a)). r_id r = r_id r' \<and> r_user_id r = r_user_id r' \<and>
           (r_reviewed_at r \<noteq> None \<longrightarrow> r_reviewed_at r' \<noteq> None)))"
    and b: "w_seq b Receipts \<le> w_seq c Receipts \<and>
     (\<forall>r' \<in> set (d_receipts (w_db c)). (w_seq b Receipts \<le> r_id r' \<and> r_id r' < w_seq c Receipts) \<or>
        (\<exists>r \<in> set (d_receipts (w_db b)). r_id r = r_id r' \<and> r_user_id r = r_user_id r' \<and>
           (r_reviewed_at r \<noteq> None \<longrightarrow> r_reviewed_at r' \<noteq> None)))"
  show "w_seq a Receipts \<le> w_seq c Receipts" using a b by linarith
  fix r' assume r': "r' \<in> set (d_receipts (w_db c))"
  show "(w_seq a Receipts \<le> r_id r' \<and> r_id r' < w_seq c Receipts) \<or>
        (\<exists>r \<in> set (d_receipts (w_db a)). r_id r = r_id r' \<and> r_user_id r = r_user_id r' \<and>
           (r_reviewed_at r \<noteq> None \<longrightarrow> r_reviewed_at r' \<noteq> None))"
  proof (cases "w_seq b Receipts \<le> r_id r' \<and> r_id r' < w_seq c Receipts")
    case True
    then show ?thesis using a by linarith
  next
    case False
    then obtain r where r: "r \<in> set (d_receipts (w_db b))" "r_id r = r_id r'" "r_user_id r = r_user_id r'"
        "r_reviewed_at r \<noteq> None \<longrightarrow> r_reviewed_at r' \<noteq> None"
      using b r' by blast
    then consider "w_seq a Receipts \<le> r_id r' \<and> r_id r' < w_seq c Receipts"
      | "\<exists>r0 \<in> set (d_receipts (w_db a)). r_id r0 = r_id r \<and> r_user_id r0 = r_user_id r \<and>
           (r_reviewed_at r0 \<noteq> None \<longrightarrow> r_reviewed_at r \<noteq> None)"
      using a b by fastforce
    then show ?thesis using r by cases auto
  qed
qed

lemmas lane_states = kIdle_def kUploaded_def kScanning_def kScanFailed_def

lemma honours_option:
  "honours R a \<Longrightarrow> (\<And>y. honours R (b y)) \<Longrightarrow> honours R (case x of None \<Rightarrow> a | Some y \<Rightarrow> b y)"
  by (cases x) auto

lemma honours_if: "honours R a \<Longrightarrow> honours R b \<Longrightarrow> honours R (if c then a else b)"
  by simp

lemma rows_from_refl: "d_receipts d' = d_receipts d \<Longrightarrow> set (d_images d') \<subseteq> set (d_images d) \<Longrightarrow> rows_from d d'"
  by (auto simp: rows_from_def no_new_scan_def)

lemma rows_from_update:
  assumes "\<And>r. r_id (f r) = r_id r \<and> r_user_id (f r) = r_user_id r \<and> (r_reviewed_at r \<noteq> None \<longrightarrow> r_reviewed_at (f r) \<noteq> None) \<and>
      no_new_scan r (f r)"
  shows "rows_from d (d\<lparr>d_receipts := update_where P f (d_receipts d)\<rparr>)"
  unfolding rows_from_def
proof (intro conjI ballI)
  fix r' assume "r' \<in> set (d_receipts (d\<lparr>d_receipts := update_where P f (d_receipts d)\<rparr>))"
  then obtain r where "r \<in> set (d_receipts d)" "r' = (if P r then f r else r)"
    by (auto simp: update_where_def)
  then show "\<exists>r \<in> set (d_receipts d). r_id r = r_id r' \<and> r_user_id r = r_user_id r' \<and>
      (r_reviewed_at r \<noteq> None \<longrightarrow> r_reviewed_at r' \<noteq> None) \<and> no_new_scan r r'"
    using assms [of r] by (intro bexI [of _ r]) (auto simp: no_new_scan_def)
qed simp

lemma drop_items_rows: "rows_from d (drop_items P d)"
  by (rule rows_from_refl) (simp_all add: drop_items_def)

lemma drop_payment_methods_rows: "rows_from d (drop_payment_methods P d)"
  by (auto simp: rows_from_def drop_payment_methods_def Let_def no_new_scan_def)

lemma drop_receipts_rows: "rows_from d (drop_receipts P d)"
  by (auto simp: rows_from_def drop_receipts_def drop_items_def Let_def no_new_scan_def)

section \<open>The interface\<close>

text \<open>A relation that every statement honours which keeps the ids, owners and reviews of the receipts
  it leaves and adds no image row, and that the insertion of a receipt under a new id honours.\<close>

locale row_relation = step_relation +
  assumes R_write: "rows_from (w_db w) d' \<Longrightarrow> R w (w\<lparr>w_db := d'\<rparr>)"
    and R_seq: "R w (next_id t w)"
    and R_random: "R w (w\<lparr>w_rpos := n\<rparr>)"
    and R_receipt: "r_id row = w_seq w Receipts \<Longrightarrow>
      R w ((next_id Receipts w)\<lparr>w_db := (w_db w)\<lparr>d_receipts := d_receipts (w_db w) @ [row]\<rparr>\<rparr>)"
begin

lemma honours_exec_row:
  assumes "\<And>t d d' x. f t d = Inr (d', x) \<Longrightarrow> rows_from d d'"
  shows "honours R (exec h f)"
  unfolding exec_def
proof (rule honours_attempt, unfold honours_def, rule allI)
  fix w
  show "R w (snd (commit_write h (f (w_now w) (w_db w)) w))"
    using assms [of "w_now w" "w_db w"]
    by (auto simp: commit_write_def R_refl intro: R_write split: sum.splits prod.splits option.splits)
qed

lemma honours_insert_row:
  assumes "\<And>n t d d' x. f n t d = Inr (d', x) \<Longrightarrow> rows_from d d'"
  shows "honours R (insert_row h tb f)"
  unfolding insert_row_def
proof (rule honours_attempt, unfold honours_def, rule allI)
  fix w
  show "R w (snd (commit_write h (f (w_seq w tb) (w_now w) (w_db w)) (next_id tb w)))"
    using assms [of "w_seq w tb" "w_now w" "w_db w"] R_seq [of w tb] R_trans [OF R_seq R_write]
    by (auto simp: commit_write_def split: sum.splits prod.splits option.splits)
qed

lemma honours_insert_receipt:
  assumes "\<And>n t row. mk n t = Inr row \<Longrightarrow> r_id row = n"
  shows "honours R (insert_receipt h mk)"
  unfolding insert_receipt_def insert_row_def
proof (rule honours_attempt, unfold honours_def, rule allI)
  fix w
  show "R w (snd (commit_write h (rbind (mk (w_seq w Receipts) (w_now w)) (\<lambda>row.
      Inr ((w_db w)\<lparr>d_receipts := d_receipts (w_db w) @ [row]\<rparr>, w_seq w Receipts))) (next_id Receipts w)))"
    using R_seq [of w Receipts] assms [of "w_seq w Receipts" "w_now w"]
    by (cases "mk (w_seq w Receipts) (w_now w)")
       (auto simp: commit_write_def intro: R_receipt split: option.splits)
qed

lemmas row_rules = honours_rules honours_option honours_if


lemma replaceTags_row: "honours R (replaceTags h u n tags)"
  unfolding replaceTags_def clear_tags_def add_tag_def
  by (intro row_rules honours_exec_row rows_from_refl) auto

lemma item_insert_row: "honours R (item_insert h u rid kind item)"
  unfolding item_insert_def requireCategoryFitsKind_def insert_item_def
  by (intro row_rules honours_insert_row replaceTags_row rows_from_refl) auto

lemma fetchItem_row: "honours R (fetchItem n)"
  unfolding fetchItem_def tagIdsFor_def by (intro row_rules)

lemma ownedReceiptKind_row: "honours R (ownedReceiptKind u rid)"
  unfolding ownedReceiptKind_def by (intro row_rules)

lemma requireCategoryFitsKind_row: "honours R (requireCategoryFitsKind u c kind)"
  unfolding requireCategoryFitsKind_def by (intro row_rules)

lemma item_ops_row:
  "honours R (item_create h u rid body)" "honours R (item_update h u rid n body)"
  "honours R (item_remove h u rid n)"
proof -
  show "honours R (item_create h u rid body)"
    unfolding item_create_def
    by (intro row_rules ownedReceiptKind_row item_insert_row fetchItem_row)
  show "honours R (item_update h u rid n body)"
    unfolding item_update_def update_item_def case_prod_beta
    by (intro row_rules ownedReceiptKind_row requireCategoryFitsKind_row replaceTags_row fetchItem_row
        honours_exec_row rows_from_refl) auto
  show "honours R (item_remove h u rid n)"
    unfolding item_remove_def
    by (intro row_rules ownedReceiptKind_row honours_exec_row) (auto intro: drop_items_rows)
qed

lemma removeOwned_row:
  assumes "\<And>d. rows_from d (drp d)"
  shows "honours R (removeOwned h look drp noun)"
  unfolding removeOwned_def using assms by (intro row_rules honours_exec_row) auto

lemma rethrow_row: "honours R (rethrowAsConflictIfDuplicate noun e)"
  unfolding rethrowAsConflictIfDuplicate_def by (intro row_rules)

lemma reference_remove_row:
  "honours R (category_remove h u n)" "honours R (tag_remove h u n)"
  "honours R (payment_method_remove h u n)"
proof -
  show "honours R (category_remove h u n)"
    unfolding category_remove_def by (intro removeOwned_row rows_from_refl) (simp_all add: drop_categories_def Let_def)
  show "honours R (tag_remove h u n)"
    unfolding tag_remove_def by (intro removeOwned_row rows_from_refl) (simp_all add: drop_tags_def)
  show "honours R (payment_method_remove h u n)"
    unfolding payment_method_remove_def by (intro removeOwned_row drop_payment_methods_rows)
qed

lemma reference_create_row:
  "honours R (category_create h u body)" "honours R (tag_create h u body)"
  "honours R (payment_method_create h u body)"
  unfolding category_create_def tag_create_def payment_method_create_def insert_category_def insert_tag_def
    insert_payment_method_def Let_def
  by (intro row_rules rethrow_row honours_insert_row rows_from_refl; simp)+

lemma category_update_row: "honours R (category_update h u n body)"
  unfolding category_update_def category_update_body_def update_category_def Let_def
  by (intro row_rules rethrow_row honours_exec_row rows_from_refl; auto)

lemma tag_update_row: "honours R (tag_update h u n body)"
  unfolding tag_update_def rename_tag_def Let_def
  by (intro row_rules rethrow_row honours_exec_row rows_from_refl; auto)

lemma payment_method_update_row: "honours R (payment_method_update h u n body)"
  unfolding payment_method_update_def set_payment_method_def Let_def
  by (intro row_rules rethrow_row honours_exec_row rows_from_refl; auto)

section \<open>Receipts\<close>

lemma validateReferences_row: "honours R (validateReferences u n r)"
  unfolding validateReferences_def by (intro row_rules)

lemma createManual_row: "honours R (createManual h u body)"
  unfolding createManual_def Let_def
  by (intro row_rules validateReferences_row item_insert_row honours_insert_receipt)
     (auto simp: manual_receipt_def new_receipt_def rbind_def split: sum.splits)

lemma sql_update_row:
  assumes "\<And>t x r. r_id (f t x r) = r_id r \<and> r_user_id (f t x r) = r_user_id r \<and>
      (r_reviewed_at r \<noteq> None \<longrightarrow> r_reviewed_at (f t x r) \<noteq> None) \<and> no_new_scan r (f t x r)"
  shows "honours R (exec h (\<lambda>t d. rbind (g t) (\<lambda>x.
      Inr (d\<lparr>d_receipts := update_where (P t) (f t x) (d_receipts d)\<rparr>, y t d))))"
  by (rule honours_exec_row) (auto simp: rbind_def split: sum.splits intro: rows_from_update [OF assms])

lemma plain_update_row:
  assumes "\<And>t r. r_id (f t r) = r_id r \<and> r_user_id (f t r) = r_user_id r \<and>
      (r_reviewed_at r \<noteq> None \<longrightarrow> r_reviewed_at (f t r) \<noteq> None) \<and> no_new_scan r (f t r)"
  shows "honours R (exec h (\<lambda>t d. Inr (d\<lparr>d_receipts := update_where (P t d) (f t) (d_receipts d)\<rparr>, y t d)))"
  by (rule honours_exec_row) (auto intro: rows_from_update [OF assms])

lemma update_receipt_row: "honours R (update_receipt h n r aud reviewed)"
  unfolding update_receipt_def by (rule sql_update_row) (simp add: set_receipt_def no_new_scan_def)

lemma updateReceipt_row: "honours R (updateReceipt h u n body)"
  unfolding updateReceipt_def require_sides_fit_def case_prod_beta
  by (intro row_rules validateReferences_row update_receipt_row)

lemma retryScan_row: "honours R (retryScan h u n)"
  unfolding retryScan_def requeue_failed_def getReceipt_def Let_def
  by (intro row_rules plain_update_row) (simp add: no_new_scan_def lane_states)

lemma generateImageKey_row: "honours R (generateImageKey u n)"
  unfolding generateImageKey_def generateToken_def randombytes_def
  by (intro row_rules) (simp add: honours_def R_random)

lemma findConflict_row: "honours R (findConflict h u imgs)"
  by (induction imgs) (auto intro!: row_rules)

section \<open>The scan worker's statements\<close>

lemma insertScannedItems_row: "honours R (insertScannedItems h c k items tx)"
  unfolding insertScannedItems_def insertScannedItem_def by (intro row_rules item_insert_row)

lemma write_result_row: "honours R (write_result h c res tx b m)"
  unfolding write_result_def readSnapshot_def writeVerify_def writeExtraction_def delete_items_def
    update_verified_def update_extracted_def
proof (intro row_rules insertScannedItems_row)
  show "honours R (exec h (\<lambda>_ d. Inr (drop_items (\<lambda>i. i_receipt_id i = cl_receiptId c) d, ())))"
    by (rule honours_exec_row) (auto intro: drop_items_rows)
qed (rule honours_exec_row, auto simp: rbind_def verify_row_def extract_row_def no_new_scan_def lane_states split: sum.splits intro!: rows_from_update)+

lemma spend_failure_row: "honours R (spend_failure h c e cap)"
  unfolding spend_failure_def by (rule plain_update_row) (simp add: fail_row_def no_new_scan_def lane_states)

lemma reclaim_rows_row: "honours R (reclaim_rows h cfg)"
  unfolding reclaim_rows_def by (rule plain_update_row) (simp add: fail_row_def no_new_scan_def lane_states)

end

text \<open>The claim is the one statement that starts scans.\<close>

locale claim_relation = row_relation +
  assumes R_claim: "R w (w\<lparr>w_db := (w_db w)\<lparr>d_receipts := update_where hit (claim_row clock) (d_receipts (w_db w))\<rparr>\<rparr>)"
begin

lemma claim_receipts_row: "honours R (claim_receipts h cfg clock)"
  unfolding claim_receipts_def exec_def
proof (rule honours_attempt, unfold honours_def, rule allI)
  fix w
  show "R w (snd (commit_write h (let hit = (\<lambda>r. r_id r \<in> r_id ` set (claimable cfg (w_db w)))
      in Inr ((w_db w)\<lparr>d_receipts := update_where hit (claim_row clock) (d_receipts (w_db w))\<rparr>,
           map (claim_of clock) (filter hit (d_receipts (w_db w))))) w))"
    by (auto simp: commit_write_def Let_def R_refl intro: R_claim split: option.splits)
qed

end

section \<open>Image uploads\<close>

lemma prepared_normalized:
  "prepareImages h raws = Inr imgs \<Longrightarrow> img \<in> set imgs \<Longrightarrow> \<exists>raw. normalize_image h raw = Inr (pi_normalized img)"
  unfolding prepareImages_def rmap_eq_Inr
  by (induction rule: list_all2_induct) (auto simp: rbind_eq_Inr)

locale upload_relation = row_relation +
  fixes h :: host and st :: image_store
  assumes store_image_R: "normalize_image h raw = Inr (pi_normalized img) \<Longrightarrow> honours R (storeImage h st u n img)"
begin

lemma storeImages_R: "prepareImages h raws = Inr imgs \<Longrightarrow> honours R (storeImages h st u n imgs)"
  unfolding storeImages_def by (intro honours_forM) (auto dest!: prepared_normalized intro: store_image_R)

lemma uploadReceipt_R: "honours R (uploadReceipt h st u imgs force)"
  unfolding uploadReceipt_def lockUserImages_def conflict_unless_def
  by (intro honours_bind_lift row_rules findConflict_row storeImages_R honours_insert_receipt)
     (auto simp: new_receipt_def)

lemma addImages_R: "honours R (addImages h st u n imgs force)"
  unfolding addImages_def lockUserImages_def conflict_unless_def queue_receipt_def
  by (intro honours_bind_lift row_rules findConflict_row storeImages_R plain_update_row) (auto simp: no_new_scan_def lane_states)

end

section \<open>The history of a receipt\<close>

interpretation row: claim_relation row_step
proof unfold_locales
  show "row_step a b \<Longrightarrow> row_step b c \<Longrightarrow> row_step a c" for a b c by (rule row_step_trans)
  show "row_step w (w\<lparr>w_db := (w_db w)\<lparr>d_receipts := update_where hit (claim_row clock) (d_receipts (w_db w))\<rparr>\<rparr>)" for w hit clock
    by (force simp: row_step_def update_where_def claim_row_def)
qed (force simp: row_step_def tick_step_def rolled_back_def rows_from_def next_id_def)+

lemma same_but_store_row: "same_but_store w w' \<Longrightarrow> row_step w w'"
  unfolding same_but_store_def row_step_def
  by (metis (no_types, lifting) order_refl world.select_convs(1,2) world.surjective world.update_convs(3,8))

lemma insert_image_row: "honours row_step (insert_image h u n key sha)"
  unfolding insert_image_def insert_row_def
proof (rule row.honours_attempt, unfold honours_def, rule allI)
  fix w :: world
  let ?d = "(w_db w)\<lparr>d_images := d_images (w_db w) @ [\<lparr>g_id = w_seq w Images, g_receipt_id = n, g_user_id = u,
      g_image_key = key, g_image_sha256 = sha, g_created_at = w_now w\<rparr>]\<rparr>"
  show "row_step w (snd (commit_write h (Inr (?d, ())) (next_id Images w)))"
    by (auto simp: commit_write_def row_step_def next_id_def split: option.splits)
qed

context image_store_contract
begin

lemma store_row:
  "honours row_step (is_put st k ct b)" "honours row_step (is_get st k)" "honours row_step (is_remove st k)"
  unfolding honours_def
  by (metis prod.collapse put_frame get_frame remove_frame same_but_store_row)+

sublocale rows: upload_relation row_step h st for h
proof unfold_locales
  show "honours row_step (storeImage h st u n img)" for u n img
    unfolding storeImage_def by (intro row.row_rules row.generateImageKey_row store_row insert_image_row)
qed

lemma deleteReceipt_row: "honours row_step (deleteReceipt h st u n)"
  unfolding deleteReceipt_def delete_receipt_row_def
  by (intro row.row_rules store_row row.honours_exec_row) (auto intro: drop_receipts_rows)

end

end
