(* ===== verification/Routes.thy ===== *)
theory Routes
  imports Http RowSteps
begin

text \<open>
  From the statements to the routes: a relation that the statements and the storing of an image honour
  (\<open>RowSteps\<close>) is honoured by every account operation and by every route but the one that deletes a
  receipt, whose removal of objects the interface leaves out.
\<close>

lemma honours_sum:
  "(\<And>x. honours R (a x)) \<Longrightarrow> (\<And>y. honours R (b y)) \<Longrightarrow> honours R (case s of Inl x \<Rightarrow> a x | Inr y \<Rightarrow> b y)"
  by (cases s) auto

lemma honours_upload:
  "(\<And>x. honours R (a x)) \<Longrightarrow> (\<And>y. honours R (b y)) \<Longrightarrow>
   honours R (case s of Uploaded x \<Rightarrow> a x | UploadConflict y \<Rightarrow> b y)"
  by (cases s) auto

text \<open>The shape both rate-limited handlers share.\<close>

lemma honours_limited:
  assumes "\<And>resp :: Response. honours R (ret resp)" "\<And>e. honours R (raise e :: Response act)" "\<And>email password. honours R (act email password)"
  shows "honours R (fst (case credentials req of
        Inl (Inl resp) \<Rightarrow> (ret resp, lims)
      | Inl (Inr e) \<Rightarrow> (raise e, lims)
      | Inr (email, password) \<Rightarrow>
          (case check email of (ok, byIp, byAccount) \<Rightarrow> (if \<not> ok then ret resp429 else act email password, upd byIp byAccount))))"
  using assms by (auto split: sum.splits prod.splits)

lemmas handler_defs = receipt_upload_def receipt_addImages_def receipt_listImages_def receipt_list_def receipt_get_def
  receipt_remove_def receipt_image_def receipt_createManual_def receipt_update_def receipt_retryScan_def
  items_list_def items_create_def items_update_def items_remove_def listCategories_def createCategory_def
  updateCategory_def removeCategory_def listTags_def createTag_def updateTag_def removeTag_def
  listPaymentMethods_def createPaymentMethod_def updatePaymentMethod_def removePaymentMethod_def auth_logout_def

lemmas read_defs = listImages_def listReceipts_def getReceipt_def findImage_def item_list_def ownedReceiptKind_def
  category_list_def tag_list_def payment_method_list_def

lemmas auth_defs = login_def insert_session_def validateSession_def touch_session_def logout_def delete_sessions_def
  requestPasswordReset_def insert_auth_token_def confirmPasswordReset_def set_password_def delete_token_def
  requestEmailVerification_def confirmEmailVerification_def set_verified_def Let_def

context row_relation
begin

lemma random_R: "honours R (generateToken n)" "honours R (pw_hash h p)"
proof -
  show "honours R (generateToken n)"
    unfolding generateToken_def randombytes_def by (intro row_rules) (simp add: honours_def R_random)
  show "honours R (pw_hash h p)"
    by (auto simp: honours_def pw_hash_def R_random R_refl split: option.splits)
qed

lemma registerUser_R: "honours R (registerUser h email password)"
  unfolding registerUser_def insert_user_def seed_user_def insert_category_def insert_payment_method_def Let_def
  by (intro row_rules random_R honours_insert_row rows_from_refl) auto

lemma auth_R:
  "honours R (login h email password)" "honours R (validateSession h token)" "honours R (logout h token)"
  "honours R (requestPasswordReset h email)" "honours R (confirmPasswordReset h token password)"
  "honours R (requestEmailVerification h u)" "honours R (confirmEmailVerification h token)"
  unfolding auth_defs
  by (intro row_rules random_R honours_insert_row honours_exec_row rows_from_refl; auto)+

lemma read_R:
  "honours R (listImages h u n)" "honours R (listReceipts h u lim off)" "honours R (getReceipt h u n)"
  "honours R (findImage n)" "honours R (item_list u n)" "honours R (category_list h u)"
  "honours R (tag_list h u)" "honours R (payment_method_list h u)"
  unfolding read_defs by (intro row_rules)+

lemma guarded_R: "honours R m \<Longrightarrow> honours R (guarded m)"
  unfolding guarded_def by (intro row_rules)

lemmas service_rules = row_rules honours_sum honours_upload guarded_R read_R auth_R registerUser_R item_ops_row
  reference_create_row reference_remove_row category_update_row tag_update_row payment_method_update_row
  createManual_row updateReceipt_row retryScan_row

lemma public_R: "honours R (fst (public_action h now req lims r))"
proof (cases r)
  case Register
  have "honours R (register_action h email password)" for email password
    unfolding register_action_def by (intro service_rules)
  then show ?thesis
    unfolding Register public_action.simps auth_register_def by (intro honours_limited service_rules)
next
  case Login
  have "honours R (login_action h email password)" for email password
    unfolding login_action_def by (intro service_rules)
  then show ?thesis
    unfolding Login public_action.simps auth_login_def by (intro honours_limited service_rules)
qed (simp only: public_action.simps fst_conv;
     unfold verifyEmail_def auth_requestPasswordReset_def auth_confirmPasswordReset_def health_def;
     intro service_rules)+

end

locale route_relation = upload_relation +
  assumes get_R: "honours R (is_get st key)"
begin

lemma dispatch_R: "\<forall>n. r \<noteq> RemoveReceipt n \<Longrightarrow> honours R (dispatch h st u req r)"
  by (cases r; simp only: dispatch.simps; (unfold handler_defs)?;
      (intro service_rules uploadReceipt_R addImages_R get_R)?; simp)

end

context image_store_contract
begin

sublocale route_rows: route_relation row_step h st for h
  by unfold_locales (rule store_row)

end

end
