(* ===== verification/Tenancy.thy ===== *)
theory Tenancy
  imports ItemService ReferenceData ReceiptService
begin

text \<open>
  The invariant of the ledger that no constraint of the schema states: every reference stays
  within one user's data, and the category of an item is on the expense or income side of its
  receipt's kind. Foreign keys alone would accept another user's category, tag, payment method
  or receipt, so each operation has to check; the lemmas show that each does, whatever the
  infrastructure does.
\<close>

section \<open>The invariant\<close>

definition rsig :: "db \<Rightarrow> (int \<times> int \<times> bool) set" where
  "rsig d = (\<lambda>r. (r_id r, r_user_id r, income_kind (r_kind r))) ` set (d_receipts d)"

definition csig :: "db \<Rightarrow> (int \<times> int \<times> bool) set" where
  "csig d = (\<lambda>c. (c_id c, c_user_id c, c_is_income c)) ` set (d_categories d)"

definition tsig :: "db \<Rightarrow> (int \<times> int) set" where
  "tsig d = (\<lambda>t. (t_id t, t_user_id t)) ` set (d_tags d)"

definition psig :: "db \<Rightarrow> (int \<times> int) set" where
  "psig d = (\<lambda>p. (p_id p, p_user_id p)) ` set (d_payment_methods d)"

definition isig :: "db \<Rightarrow> (int \<times> int) set" where
  "isig d = (\<lambda>i. (i_id i, i_receipt_id i)) ` set (d_items d)"

lemmas sigs = rsig_def csig_def tsig_def psig_def isig_def

definition item_ok :: "db \<Rightarrow> item_row \<Rightarrow> bool" where
  "item_ok d i \<longleftrightarrow>
     (\<forall>c. i_category_id i = Some c \<longrightarrow> (\<exists>u s. (i_receipt_id i, u, s) \<in> rsig d \<and> (c, u, s) \<in> csig d))"

definition tag_ok :: "db \<Rightarrow> int \<times> int \<Rightarrow> bool" where
  "tag_ok d x \<longleftrightarrow> (\<exists>rid u s. (fst x, rid) \<in> isig d \<and> (rid, u, s) \<in> rsig d \<and> (snd x, u) \<in> tsig d)"

definition receipt_ok :: "db \<Rightarrow> receipt_row \<Rightarrow> bool" where
  "receipt_ok d r \<longleftrightarrow>
     (\<forall>p. r_payment_method_id r = Some p \<longrightarrow> (p, r_user_id r) \<in> psig d) \<and>
     (\<forall>q. r_offsets_receipt_id r = Some q \<longrightarrow> (\<exists>s. (q, r_user_id r, s) \<in> rsig d))"

definition image_ok :: "db \<Rightarrow> image_row \<Rightarrow> bool" where
  "image_ok d g \<longleftrightarrow>
     (\<exists>s. (g_receipt_id g, g_user_id g, s) \<in> rsig d) \<and>
     (\<exists>bytes. g_image_key g = image_key (g_user_id g) (g_receipt_id g) (toHex bytes))"

definition tenant_ok :: "db \<Rightarrow> bool" where
  "tenant_ok d \<longleftrightarrow>
     (\<forall>i \<in> set (d_items d). item_ok d i) \<and> (\<forall>x \<in> set (d_item_tags d). tag_ok d x) \<and>
     (\<forall>r \<in> set (d_receipts d). receipt_ok d r) \<and> (\<forall>g \<in> set (d_images d). image_ok d g)"

definition ledger_ok :: "host \<Rightarrow> db \<Rightarrow> bool" where
  "ledger_ok h d \<longleftrightarrow> violation h d = None \<and> tenant_ok d"

lemmas tenant_defs = tenant_ok_def item_ok_def tag_ok_def receipt_ok_def image_ok_def

text \<open>A signature depends on its own table only.\<close>

lemma sig_frame [simp]:
  "rsig (d\<lparr>d_categories := c\<rparr>) = rsig d" "rsig (d\<lparr>d_tags := t\<rparr>) = rsig d" "rsig (d\<lparr>d_payment_methods := p\<rparr>) = rsig d" "rsig (d\<lparr>d_images := g\<rparr>) = rsig d"
  "rsig (d\<lparr>d_items := i\<rparr>) = rsig d" "rsig (d\<lparr>d_item_tags := it\<rparr>) = rsig d" "rsig (d\<lparr>d_users := us\<rparr>) = rsig d" "rsig (d\<lparr>d_sessions := ss\<rparr>) = rsig d" "rsig (d\<lparr>d_auth_tokens := at\<rparr>) = rsig d"
  "csig (d\<lparr>d_tags := t\<rparr>) = csig d" "csig (d\<lparr>d_payment_methods := p\<rparr>) = csig d" "csig (d\<lparr>d_receipts := r\<rparr>) = csig d" "csig (d\<lparr>d_images := g\<rparr>) = csig d"
  "csig (d\<lparr>d_items := i\<rparr>) = csig d" "csig (d\<lparr>d_item_tags := it\<rparr>) = csig d" "csig (d\<lparr>d_users := us\<rparr>) = csig d" "csig (d\<lparr>d_sessions := ss\<rparr>) = csig d" "csig (d\<lparr>d_auth_tokens := at\<rparr>) = csig d"
  "tsig (d\<lparr>d_categories := c\<rparr>) = tsig d" "tsig (d\<lparr>d_payment_methods := p\<rparr>) = tsig d" "tsig (d\<lparr>d_receipts := r\<rparr>) = tsig d" "tsig (d\<lparr>d_images := g\<rparr>) = tsig d"
  "tsig (d\<lparr>d_items := i\<rparr>) = tsig d" "tsig (d\<lparr>d_item_tags := it\<rparr>) = tsig d" "tsig (d\<lparr>d_users := us\<rparr>) = tsig d" "tsig (d\<lparr>d_sessions := ss\<rparr>) = tsig d" "tsig (d\<lparr>d_auth_tokens := at\<rparr>) = tsig d"
  "psig (d\<lparr>d_categories := c\<rparr>) = psig d" "psig (d\<lparr>d_tags := t\<rparr>) = psig d" "psig (d\<lparr>d_receipts := r\<rparr>) = psig d" "psig (d\<lparr>d_images := g\<rparr>) = psig d"
  "psig (d\<lparr>d_items := i\<rparr>) = psig d" "psig (d\<lparr>d_item_tags := it\<rparr>) = psig d" "psig (d\<lparr>d_users := us\<rparr>) = psig d" "psig (d\<lparr>d_sessions := ss\<rparr>) = psig d" "psig (d\<lparr>d_auth_tokens := at\<rparr>) = psig d"
  "isig (d\<lparr>d_categories := c\<rparr>) = isig d" "isig (d\<lparr>d_tags := t\<rparr>) = isig d" "isig (d\<lparr>d_payment_methods := p\<rparr>) = isig d" "isig (d\<lparr>d_receipts := r\<rparr>) = isig d" "isig (d\<lparr>d_images := g\<rparr>) = isig d"
  "isig (d\<lparr>d_item_tags := it\<rparr>) = isig d" "isig (d\<lparr>d_users := us\<rparr>) = isig d" "isig (d\<lparr>d_sessions := ss\<rparr>) = isig d" "isig (d\<lparr>d_auth_tokens := at\<rparr>) = isig d"
  by (simp_all add: sigs)

lemma income_kind_rules: "findKind kind = Some rules \<Longrightarrow> income_kind kind = kr_usesIncomeCategories rules"
  by (erule kind_cases) (simp_all add: income_kind_def kKinds_def)

lemma find_row_SomeD: "find_row P xs = Some x \<Longrightarrow> x \<in> set xs \<and> P x"
  by (auto simp: find_row_def find_Some_iff)

text \<open>Primary keys identify rows.\<close>

lemma violation_None:
  "violation h d = None \<longleftrightarrow> \<not> check_violation d \<and> \<not> unique_violation h d \<and> \<not> fk_violation d"
  by (simp add: violation_def)

lemma unique_ids:
  assumes "violation h d = None"
  shows "inj_on r_id (set (d_receipts d))" "inj_on c_id (set (d_categories d))"
    "inj_on t_id (set (d_tags d))" "inj_on p_id (set (d_payment_methods d))"
    "inj_on i_id (set (d_items d))" "inj_on g_id (set (d_images d))"
  using assms by (auto simp: violation_None unique_violation_def distinct_map)

lemma rsig_fun:
  assumes "violation h d = None" and "(rid, u, s) \<in> rsig d" and "(rid, u', s') \<in> rsig d"
  shows "u' = u \<and> s' = s"
  using assms inj_onD [OF unique_ids(1) [OF assms(1)]] by (auto simp: rsig_def)

lemma isig_fun:
  assumes "violation h d = None" and "(n, rid) \<in> isig d" and "(n, rid') \<in> isig d"
  shows "rid' = rid"
  using assms inj_onD [OF unique_ids(5) [OF assms(1)]] by (auto simp: isig_def)

definition receipt_is :: "int \<Rightarrow> int \<Rightarrow> string \<Rightarrow> db \<Rightarrow> bool" where
  "receipt_is u rid kind d \<longleftrightarrow> (rid, u, income_kind kind) \<in> rsig d \<and> findKind kind \<noteq> None"

lemma receipt_kind_known:
  assumes "violation h d = None" and "r \<in> set (d_receipts d)"
  shows "findKind (r_kind r) \<noteq> None"
  using assms unfolding violation_None check_violation_def findKind_known
  by (auto simp: list_all_iff receipt_checks_def)

lemma item_okI:
  "(i_receipt_id i, u, s) \<in> rsig d \<Longrightarrow> (\<And>c. i_category_id i = Some c \<Longrightarrow> (c, u, s) \<in> csig d) \<Longrightarrow> item_ok d i"
  unfolding item_ok_def by blast

lemma tag_okI: "(n, rid) \<in> isig d \<Longrightarrow> (rid, u, s) \<in> rsig d \<Longrightarrow> (t, u) \<in> tsig d \<Longrightarrow> tag_ok d (n, t)"
  unfolding tag_ok_def by auto

lemma tenant_ok_mono:
  assumes "tenant_ok d" and "rsig d \<subseteq> rsig d'" "csig d \<subseteq> csig d'" "tsig d \<subseteq> tsig d'"
    "psig d \<subseteq> psig d'" "isig d \<subseteq> isig d'"
    and "\<And>i. i \<in> set (d_items d') \<Longrightarrow> i \<in> set (d_items d) \<or> item_ok d' i"
    and "\<And>x. x \<in> set (d_item_tags d') \<Longrightarrow> x \<in> set (d_item_tags d) \<or> tag_ok d' x"
    and "\<And>r. r \<in> set (d_receipts d') \<Longrightarrow> r \<in> set (d_receipts d) \<or> receipt_ok d' r"
    and "\<And>g. g \<in> set (d_images d') \<Longrightarrow> g \<in> set (d_images d) \<or> image_ok d' g"
  shows "tenant_ok d'"
proof -
  have "item_ok d i \<Longrightarrow> item_ok d' i" for i
    using assms(2,3) unfolding item_ok_def by blast
  moreover have "tag_ok d x \<Longrightarrow> tag_ok d' x" for x
    using assms(2,4,6) unfolding tag_ok_def by blast
  moreover have "receipt_ok d r \<Longrightarrow> receipt_ok d' r" for r
    using assms(2,5) unfolding receipt_ok_def by blast
  moreover have "image_ok d g \<Longrightarrow> image_ok d' g" for g
    using assms(2) unfolding image_ok_def by blast
  ultimately show ?thesis
    using assms(1,7-10) unfolding tenant_ok_def by blast
qed

lemma update_where_set:
  "y \<in> set (update_where P f xs) \<Longrightarrow> (\<exists>x \<in> set xs. P x \<and> y = f x) \<or> (y \<in> set xs \<and> \<not> P y)"
  by (auto simp: update_where_def split: if_splits)

lemma update_where_hit: "x \<in> set xs \<Longrightarrow> P x \<Longrightarrow> f x \<in> set (update_where P f xs)"
  by (auto simp: update_where_def image_iff intro!: bexI [of _ x])

lemma update_where_miss: "x \<in> set xs \<Longrightarrow> \<not> P x \<Longrightarrow> x \<in> set (update_where P f xs)"
  by (auto simp: update_where_def image_iff intro!: bexI [of _ x])

lemma image_update_where:
  "(\<And>x. x \<in> set xs \<Longrightarrow> P x \<Longrightarrow> g (f x) = g x) \<Longrightarrow> g ` set (update_where P f xs) = g ` set xs"
  unfolding update_where_def set_map image_image by (rule image_cong) auto

section \<open>ON DELETE rules keep the invariant\<close>

lemma tenantD:
  assumes "tenant_ok d"
  shows "i \<in> set (d_items d) \<Longrightarrow> item_ok d i" "x \<in> set (d_item_tags d) \<Longrightarrow> tag_ok d x"
    "r \<in> set (d_receipts d) \<Longrightarrow> receipt_ok d r" "g \<in> set (d_images d) \<Longrightarrow> image_ok d g"
  using assms by (auto simp: tenant_ok_def)

lemma null_if_Some: "null_if P x = Some n \<longleftrightarrow> x = Some n \<and> \<not> P n"
  by (auto simp: null_if_def split: option.splits)

lemma drop_items_tenant:
  assumes t: "tenant_ok d"
  shows "tenant_ok (drop_items P d)"
proof -
  have sig: "rsig (drop_items P d) = rsig d" "csig (drop_items P d) = csig d" "tsig (drop_items P d) = tsig d"
    "psig (drop_items P d) = psig d"
    by (simp_all add: drop_items_def)
  have tag: "tag_ok (drop_items P d) (n, tid)" if "(n, tid) \<in> set (d_item_tags (drop_items P d))" for n tid
  proof -
    have kept: "(n, tid) \<in> set (d_item_tags d)" "\<not> (\<exists>x \<in> set (d_items d). i_id x = n \<and> P x)"
      using that by (auto simp: drop_items_def)
    obtain rid u s where ok: "(n, rid) \<in> isig d" "(rid, u, s) \<in> rsig d" "(tid, u) \<in> tsig d"
      using tenantD(2) [OF t kept(1)] by (auto simp: tag_ok_def)
    have "(n, rid) \<in> isig (drop_items P d)"
      using ok(1) kept(2) by (auto simp: isig_def drop_items_def)
    then show ?thesis by (rule tag_okI) (use ok in \<open>simp_all add: sig\<close>)
  qed
  show ?thesis
    unfolding tenant_ok_def
    using tenantD [OF t] tag
    by (auto simp: drop_items_def item_ok_def receipt_ok_def image_ok_def)
qed

lemma drop_receipts_tenant:
  assumes t: "tenant_ok d"
  shows "tenant_ok (drop_receipts P d)"
proof -
  define gone where "gone = (\<lambda>n. \<exists>r \<in> set (d_receipts d). r_id r = n \<and> P r)"
  define d1 where "d1 = drop_items (\<lambda>i. gone (i_receipt_id i)) d"
  define d' where "d' = drop_receipts P d"
  have t1: "tenant_ok d1" unfolding d1_def by (rule drop_items_tenant [OF t])
  have same: "d_receipts d1 = d_receipts d" "d_images d1 = d_images d"
    by (simp_all add: d1_def drop_items_def)
  have d': "d' = d1\<lparr>d_receipts := map (\<lambda>r. r\<lparr>r_offsets_receipt_id := null_if gone (r_offsets_receipt_id r)\<rparr>)
        (filter (\<lambda>r. \<not> P r) (d_receipts d)), d_images := filter (\<lambda>g. \<not> gone (g_receipt_id g)) (d_images d)\<rparr>"
    by (simp add: d'_def drop_receipts_def Let_def d1_def gone_def)
  have sig: "csig d' = csig d1" "tsig d' = tsig d1" "psig d' = psig d1" "isig d' = isig d1"
    by (simp_all add: d')
  have rs: "(rid, u, s) \<in> rsig d'" if "(rid, u, s) \<in> rsig d1" "\<not> gone rid" for rid u s
    using that unfolding rsig_def same by (auto simp: d' gone_def image_iff)
  have live: "\<not> gone (i_receipt_id i)" if "i \<in> set (d_items d1)" for i
    using that by (simp add: d1_def drop_items_def)
  have "item_ok d' i" if "i \<in> set (d_items d1)" for i
    using tenantD(1) [OF t1 that] live [OF that] rs unfolding item_ok_def sig by blast
  moreover have "tag_ok d' x" if x: "x \<in> set (d_item_tags d1)" for x
  proof -
    obtain rid u s where ok: "(fst x, rid) \<in> isig d1" "(rid, u, s) \<in> rsig d1" "(snd x, u) \<in> tsig d1"
      using tenantD(2) [OF t1 x] by (auto simp: tag_ok_def)
    have "\<not> gone rid" using ok(1) live by (auto simp: isig_def)
    then show ?thesis using ok rs unfolding tag_ok_def sig by blast
  qed
  moreover have "receipt_ok d' (r\<lparr>r_offsets_receipt_id := null_if gone (r_offsets_receipt_id r)\<rparr>)"
    if "r \<in> set (d_receipts d1)" for r
    using tenantD(3) [OF t1 that] rs unfolding receipt_ok_def sig by (simp add: null_if_Some) blast
  moreover have "image_ok d' g" if "g \<in> set (d_images d1)" "\<not> gone (g_receipt_id g)" for g
    using tenantD(4) [OF t1 that(1)] that(2) rs unfolding image_ok_def by blast
  ultimately have "tenant_ok d'"
    unfolding tenant_ok_def by (auto simp: d' same)
  then show ?thesis by (simp add: d'_def)
qed

lemma drop_categories_tenant:
  assumes t: "tenant_ok d"
  shows "tenant_ok (drop_categories P d)"
proof -
  define gone where "gone = (\<lambda>n. \<exists>c \<in> set (d_categories d). c_id c = n \<and> P c)"
  define d' where "d' = drop_categories P d"
  have d': "d' = d\<lparr>d_categories := filter (\<lambda>c. \<not> P c) (d_categories d),
      d_items := map (\<lambda>i. i\<lparr>i_category_id := null_if gone (i_category_id i)\<rparr>) (d_items d)\<rparr>"
    by (simp add: d'_def drop_categories_def Let_def gone_def)
  have sig: "rsig d' = rsig d" "tsig d' = tsig d" "psig d' = psig d" by (simp_all add: d')
  have isig: "isig d' = isig d" by (simp add: d' isig_def image_image)
  have cs: "(c, u, s) \<in> csig d'" if "(c, u, s) \<in> csig d" "\<not> gone c" for c u s
    using that by (auto simp: csig_def d' gone_def)
  have "item_ok d' (i\<lparr>i_category_id := null_if gone (i_category_id i)\<rparr>)" if "i \<in> set (d_items d)" for i
    using tenantD(1) [OF t that] cs unfolding item_ok_def sig by (simp add: null_if_Some) blast
  then have "tenant_ok d'"
    using tenantD(2-4) [OF t] unfolding tenant_ok_def tag_ok_def receipt_ok_def image_ok_def sig isig
    by (auto simp: d')
  then show ?thesis by (simp add: d'_def)
qed

lemma drop_tags_tenant:
  assumes t: "tenant_ok d"
  shows "tenant_ok (drop_tags P d)"
proof -
  define d' where "d' = drop_tags P d"
  have d': "d' = d\<lparr>d_tags := filter (\<lambda>t. \<not> P t) (d_tags d),
      d_item_tags := filter (\<lambda>(i, t). \<not> (\<exists>x \<in> set (d_tags d). t_id x = t \<and> P x)) (d_item_tags d)\<rparr>"
    by (simp add: d'_def drop_tags_def)
  have sig: "rsig d' = rsig d" "csig d' = csig d" "psig d' = psig d" "isig d' = isig d"
    by (simp_all add: d')
  have "tag_ok d' x" if "x \<in> set (d_item_tags d')" for x
    using tenantD(2) [OF t, of x] that unfolding tag_ok_def sig
    by (force simp: d' tsig_def)
  then have "tenant_ok d'"
    using tenantD(1,3,4) [OF t] unfolding tenant_ok_def item_ok_def receipt_ok_def image_ok_def sig
    by (auto simp: d')
  then show ?thesis by (simp add: d'_def)
qed

lemma drop_payment_methods_tenant:
  assumes t: "tenant_ok d"
  shows "tenant_ok (drop_payment_methods P d)"
proof -
  define gone where "gone = (\<lambda>n. \<exists>p \<in> set (d_payment_methods d). p_id p = n \<and> P p)"
  define d' where "d' = drop_payment_methods P d"
  have d': "d' = d\<lparr>d_payment_methods := filter (\<lambda>p. \<not> P p) (d_payment_methods d),
      d_receipts := map (\<lambda>r. r\<lparr>r_payment_method_id := null_if gone (r_payment_method_id r)\<rparr>) (d_receipts d)\<rparr>"
    by (simp add: d'_def drop_payment_methods_def Let_def gone_def)
  have sig: "csig d' = csig d" "tsig d' = tsig d" "isig d' = isig d" by (simp_all add: d')
  have rsig: "rsig d' = rsig d" by (simp add: d' rsig_def image_image)
  have ps: "(p, u) \<in> psig d'" if "(p, u) \<in> psig d" "\<not> gone p" for p u
    using that by (auto simp: psig_def d' gone_def)
  have "receipt_ok d' (r\<lparr>r_payment_method_id := null_if gone (r_payment_method_id r)\<rparr>)" if "r \<in> set (d_receipts d)" for r
    using tenantD(3) [OF t that] ps unfolding receipt_ok_def sig rsig by (simp add: null_if_Some)
  then have "tenant_ok d'"
    using tenantD(1,2,4) [OF t] unfolding tenant_ok_def item_ok_def tag_ok_def image_ok_def sig rsig
    by (auto simp: d')
  then show ?thesis by (simp add: d'_def)
qed

lemmas drops_tenant = drop_items_tenant drop_receipts_tenant drop_categories_tenant drop_tags_tenant
  drop_payment_methods_tenant

section \<open>Updates\<close>

definition flip_ok :: "int \<Rightarrow> int \<Rightarrow> bool \<Rightarrow> db \<Rightarrow> bool" where
  "flip_ok u cid inc d \<longleftrightarrow> (cid, u, inc) \<in> csig d \<or> ((\<exists>s. (cid, u, s) \<in> csig d) \<and> \<not> category_clash cid inc d)"

lemma csig_fun:
  assumes "violation h d = None" and "(c, u, s) \<in> csig d" and "(c, u', s') \<in> csig d"
  shows "u' = u \<and> s' = s"
  using assms inj_onD [OF unique_ids(2) [OF assms(1)]] by (auto simp: csig_def)

lemma flip_tenant:
  assumes t: "tenant_ok d" and v: "violation h d = None" and f: "flip_ok u cid inc d"
  shows "tenant_ok (d\<lparr>d_categories := update_where (\<lambda>c. c_id c = cid)
     (\<lambda>c. c\<lparr>c_name := name, c_is_income := inc\<rparr>) (d_categories d)\<rparr>)" (is "tenant_ok ?d")
proof -
  have other: "(c, w, s) \<in> csig ?d" if "(c, w, s) \<in> csig d" "c \<noteq> cid" for c w s
    using that by (auto simp: csig_def intro!: imageI update_where_miss)
  have this': "(cid, w, inc) \<in> csig ?d" if m: "(cid, w, s) \<in> csig d" for w s
  proof -
    obtain x where "x \<in> set (d_categories d)" "c_id x = cid" "c_user_id x = w"
      using m by (auto simp: csig_def)
    then show ?thesis
      using update_where_hit [of x "d_categories d" "\<lambda>c. c_id c = cid" "\<lambda>c. c\<lparr>c_name := name, c_is_income := inc\<rparr>"]
      by (auto simp: csig_def intro!: rev_image_eqI)
  qed
  have item: "item_ok ?d i" if i: "i \<in> set (d_items d)" for i
    unfolding item_ok_def
  proof (intro allI impI)
    fix c assume c: "i_category_id i = Some c"
    obtain w s where ok: "(i_receipt_id i, w, s) \<in> rsig d" "(c, w, s) \<in> csig d"
      using tenantD(1) [OF t i] c unfolding item_ok_def by blast
    have "s = inc" if "c = cid"
    proof (cases "(cid, u, inc) \<in> csig d")
      case True
      then show ?thesis using csig_fun [OF v, of cid w s u inc] ok(2) that by simp
    next
      case False
      then have "\<not> category_clash cid inc d" using f by (simp add: flip_ok_def)
      then show ?thesis using ok(1) i c that by (auto simp: category_clash_def rsig_def)
    qed
    then have "(c, w, s) \<in> csig ?d" using other ok(2) this' by (cases "c = cid") auto
    then show "\<exists>w s. (i_receipt_id i, w, s) \<in> rsig ?d \<and> (c, w, s) \<in> csig ?d" using ok(1) by auto
  qed
  show ?thesis
    using item tenantD(2-4) [OF t] unfolding tenant_ok_def tag_ok_def receipt_ok_def image_ok_def by auto
qed

text \<open>The row an edit writes keeps its owner; its side may change only to that of its items' categories.\<close>

definition editing :: "host \<Rightarrow> int \<Rightarrow> int \<Rightarrow> EditableReceipt \<Rightarrow> db \<Rightarrow> bool" where
  "editing h u rid r d \<longleftrightarrow> ledger_ok h d \<and>
     (\<forall>p. er_paymentMethodId r = Some p \<longrightarrow> (p, u) \<in> psig d) \<and>
     (\<forall>q. er_offsetsReceiptId r = Some q \<longrightarrow> (\<exists>s. (q, u, s) \<in> rsig d)) \<and>
     ((rid, u, income_kind (er_kind r)) \<in> rsig d \<or>
      (\<exists>s. (rid, u, s) \<in> rsig d) \<and> \<not> (\<exists>s \<in> set (item_sides rid d). s \<noteq> income_kind (er_kind r)))"

lemma item_sides_mem:
  assumes "i \<in> set (d_items d)" "i_receipt_id i = rid" "i_category_id i = Some c" "(c, w, s) \<in> csig d"
  shows "s \<in> set (item_sides rid d)"
  using assms by (force simp: item_sides_def csig_def)

lemma edit_tenant:
  assumes e: "editing h u rid r d"
    and f: "\<And>x. r_id (f x) = r_id x \<and> r_user_id (f x) = r_user_id x \<and> r_kind (f x) = er_kind r \<and>
       r_payment_method_id (f x) = er_paymentMethodId r \<and> r_offsets_receipt_id (f x) = er_offsetsReceiptId r"
  shows "tenant_ok (d\<lparr>d_receipts := update_where (\<lambda>x. r_id x = rid) f (d_receipts d)\<rparr>)" (is "tenant_ok ?d")
proof -
  have l: "tenant_ok d" "violation h d = None" using e by (auto simp: editing_def ledger_ok_def)
  have rid: "(q, w, s) \<in> rsig d \<Longrightarrow> q = rid \<Longrightarrow> w = u" for q w s
    using e rsig_fun [OF l(2)] unfolding editing_def by blast
  have other: "(q, w, s) \<in> rsig ?d" if "(q, w, s) \<in> rsig d" "q \<noteq> rid" for q w s
    using that by (auto simp: rsig_def intro!: imageI update_where_miss)
  have mine: "(rid, w, income_kind (er_kind r)) \<in> rsig ?d" if m: "(rid, w, s) \<in> rsig d" for w s
  proof -
    obtain x where "x \<in> set (d_receipts d)" "r_id x = rid" "r_user_id x = w" using m by (auto simp: rsig_def)
    then show ?thesis
      using update_where_hit [of x "d_receipts d" "\<lambda>x. r_id x = rid" f] f [of x]
      by (auto simp: rsig_def intro!: rev_image_eqI)
  qed
  have some: "\<exists>s. (q, w, s) \<in> rsig ?d" if "(q, w, s) \<in> rsig d" for q w s
    using other mine that by (cases "q = rid") blast+
  have item: "item_ok ?d i" if i: "i \<in> set (d_items d)" for i
    unfolding item_ok_def
  proof (intro allI impI)
    fix c assume c: "i_category_id i = Some c"
    obtain w s where ok: "(i_receipt_id i, w, s) \<in> rsig d" "(c, w, s) \<in> csig d"
      using tenantD(1) [OF l(1) i] c unfolding item_ok_def by blast
    have "s = income_kind (er_kind r)" if "i_receipt_id i = rid"
      using e rsig_fun [OF l(2) ok(1)] item_sides_mem [OF i that c ok(2)] that unfolding editing_def by blast
    then have "(i_receipt_id i, w, s) \<in> rsig ?d" using ok(1) other mine by (cases "i_receipt_id i = rid") auto
    then show "\<exists>w s. (i_receipt_id i, w, s) \<in> rsig ?d \<and> (c, w, s) \<in> csig ?d" using ok(2) by auto
  qed
  have "tag_ok ?d x" if "x \<in> set (d_item_tags d)" for x
    using tenantD(2) [OF l(1) that] some unfolding tag_ok_def by simp blast
  moreover have "receipt_ok ?d x" if x: "x \<in> set (d_receipts ?d)" for x
  proof -
    consider y where "y \<in> set (d_receipts d)" "r_id y = rid" "x = f y" | "x \<in> set (d_receipts d)"
      using update_where_set [of x "\<lambda>x. r_id x = rid" f "d_receipts d"] x by auto
    then show ?thesis
    proof cases
      case 1
      then have "r_user_id y = u" using rid [of rid "r_user_id y" "income_kind (r_kind y)"] by (auto simp: rsig_def)
      then show ?thesis using e f [of y] 1(3) some unfolding receipt_ok_def editing_def by simp blast
    next
      case 2
      then show ?thesis using tenantD(3) [OF l(1)] some unfolding receipt_ok_def by simp blast
    qed
  qed
  moreover have "image_ok ?d g" if "g \<in> set (d_images d)" for g
    using tenantD(4) [OF l(1) that] some unfolding image_ok_def by blast
  ultimately show ?thesis using item unfolding tenant_ok_def by simp
qed

text \<open>Updates of the scan lane and of the timestamps leave every reference alone.\<close>

definition same_refs :: "(receipt_row \<Rightarrow> receipt_row) \<Rightarrow> bool" where
  "same_refs f \<longleftrightarrow> (\<forall>x. r_id (f x) = r_id x \<and> r_user_id (f x) = r_user_id x \<and> r_kind (f x) = r_kind x \<and>
     r_payment_method_id (f x) = r_payment_method_id x \<and> r_offsets_receipt_id (f x) = r_offsets_receipt_id x)"

lemma same_refs_tenant:
  assumes "tenant_ok d" and f: "same_refs f"
  shows "tenant_ok (d\<lparr>d_receipts := update_where P f (d_receipts d)\<rparr>)" (is "tenant_ok ?d")
proof (rule tenant_ok_mono [OF assms(1)])
  have rsig: "rsig ?d = rsig d"
    unfolding rsig_def by (simp, rule image_update_where) (use f in \<open>simp add: same_refs_def\<close>)
  then show "rsig d \<subseteq> rsig ?d" by simp
  fix r assume "r \<in> set (d_receipts ?d)"
  then have "(\<exists>x \<in> set (d_receipts d). r = f x) \<or> r \<in> set (d_receipts d)"
    using update_where_set [of r P f "d_receipts d"] by auto
  moreover have "receipt_ok ?d (f x)" if "x \<in> set (d_receipts d)" for x
    using tenantD(3) [OF assms(1) that] f unfolding receipt_ok_def rsig same_refs_def by simp
  ultimately show "r \<in> set (d_receipts d) \<or> receipt_ok ?d r" by blast
qed auto

end
