(* ===== verification/Views.thy ===== *)
theory Views
  imports Tenancy
begin

text \<open>
  What one user has in the database, and what a statement executed for another leaves of it. \<open>view v d\<close> lists
  the rows of user \<open>v\<close> in every table of the ledger; \<open>same_others u d d'\<close> says that a statement for \<open>u\<close> that led from
  \<open>d\<close> to \<open>d'\<close> changed no other user's rows. Deletes cascade along foreign keys, so what they leave alone rests on
  references staying within one user's data (\<open>tenant_ok\<close>).
\<close>

definition owned :: "int \<Rightarrow> db \<Rightarrow> int set" where
  "owned v d = r_id ` set (filter (\<lambda>r. r_user_id r = v) (d_receipts d))"

definition items_owned :: "int \<Rightarrow> db \<Rightarrow> item_row list" where
  "items_owned v d = filter (\<lambda>i. i_receipt_id i \<in> owned v d) (d_items d)"

definition view ::
    "int \<Rightarrow> db \<Rightarrow> category_row list \<times> tag_row list \<times> payment_method_row list \<times> receipt_row list \<times> image_row list \<times>
     item_row list \<times> (int \<times> int) list" where
  "view v d =
     (filter (\<lambda>c. c_user_id c = v) (d_categories d), filter (\<lambda>t. t_user_id t = v) (d_tags d),
      filter (\<lambda>p. p_user_id p = v) (d_payment_methods d), filter (\<lambda>r. r_user_id r = v) (d_receipts d),
      filter (\<lambda>g. g_user_id g = v) (d_images d), items_owned v d,
      filter (\<lambda>x. fst x \<in> i_id ` set (items_owned v d)) (d_item_tags d))"

definition same_others :: "int \<Rightarrow> db \<Rightarrow> db \<Rightarrow> bool" where
  "same_others u d d' \<longleftrightarrow> (\<forall>v. v \<noteq> u \<longrightarrow> view v d' = view v d)"

text \<open>The invariant, while the data of every user but \<open>u\<close> is \<open>V\<close>.\<close>

definition acting :: "host \<Rightarrow> int \<Rightarrow> (int \<Rightarrow> category_row list \<times> tag_row list \<times> payment_method_row list \<times> receipt_row list \<times>
     image_row list \<times> item_row list \<times> (int \<times> int) list) \<Rightarrow> db \<Rightarrow> bool" where
  "acting h u V d \<longleftrightarrow> ledger_ok h d \<and> (\<forall>v. v \<noteq> u \<longrightarrow> view v d = V v)"

lemma acting_ledger [dest]: "acting h u V d \<Longrightarrow> ledger_ok h d"
  by (simp add: acting_def)

lemma acting_step: "acting h u V d \<Longrightarrow> ledger_ok h d' \<Longrightarrow> same_others u d d' \<Longrightarrow> acting h u V d'"
  by (simp add: acting_def same_others_def)

lemma acting_keeps:
  assumes "\<And>V. keeps (acting h u V) m"
  shows "keeps (ledger_ok h) m"
  unfolding keeps_def
proof (intro allI impI)
  fix w :: world assume "ledger_ok h (w_db w)"
  then have "acting h u (\<lambda>v. view v (w_db w)) (w_db w)" by (simp add: acting_def)
  then show "ledger_ok h (w_db (snd (m w)))" using assms unfolding keeps_def by blast
qed

lemma acting_same_others:
  assumes "\<And>V. keeps (acting h u V) m" and "ledger_ok h (w_db w)"
  shows "same_others u (w_db w) (w_db (snd (m w)))"
proof -
  have "acting h u (\<lambda>v. view v (w_db w)) (w_db w)" using assms(2) by (simp add: acting_def)
  then have "acting h u (\<lambda>v. view v (w_db w)) (w_db (snd (m w)))" using assms(1) unfolding keeps_def by blast
  then show ?thesis by (simp add: acting_def same_others_def)
qed

lemma same_others_trans: "same_others u a b \<Longrightarrow> same_others u b c \<Longrightarrow> same_others u a c"
  by (simp add: same_others_def)

section \<open>Statements on one table\<close>

text \<open>A statement for \<open>u\<close> leaves the rows of the others as they are when it leaves all rows but those of \<open>u\<close> as they are.\<close>

lemma filter_others:
  assumes "filter (\<lambda>x. k x \<noteq> u) xs = filter (\<lambda>x. k x \<noteq> u) ys" and "v \<noteq> u"
  shows "filter (\<lambda>x. k x = v) xs = filter (\<lambda>x. k x = v) ys"
proof -
  have "filter (\<lambda>x. k x = v) zs = filter (\<lambda>x. k x = v) (filter (\<lambda>x. k x \<noteq> u) zs)" for zs
    using assms(2) by (auto intro!: filter_cong)
  then show ?thesis using assms(1) by metis
qed

lemma others_categories: "filter (\<lambda>c. c_user_id c \<noteq> u) cs = filter (\<lambda>c. c_user_id c \<noteq> u) (d_categories d) \<Longrightarrow>
    same_others u d (d\<lparr>d_categories := cs\<rparr>)"
  by (auto simp: same_others_def view_def items_owned_def owned_def intro: filter_others)

lemma others_tags: "filter (\<lambda>t. t_user_id t \<noteq> u) ts = filter (\<lambda>t. t_user_id t \<noteq> u) (d_tags d) \<Longrightarrow>
    same_others u d (d\<lparr>d_tags := ts\<rparr>)"
  by (auto simp: same_others_def view_def items_owned_def owned_def intro: filter_others)

lemma others_payment_methods: "filter (\<lambda>p. p_user_id p \<noteq> u) ps = filter (\<lambda>p. p_user_id p \<noteq> u) (d_payment_methods d) \<Longrightarrow>
    same_others u d (d\<lparr>d_payment_methods := ps\<rparr>)"
  by (auto simp: same_others_def view_def items_owned_def owned_def intro: filter_others)

lemma others_images: "filter (\<lambda>g. g_user_id g \<noteq> u) gs = filter (\<lambda>g. g_user_id g \<noteq> u) (d_images d) \<Longrightarrow>
    same_others u d (d\<lparr>d_images := gs\<rparr>)"
  by (auto simp: same_others_def view_def items_owned_def owned_def intro: filter_others)

lemma others_receipts:
  assumes "filter (\<lambda>r. r_user_id r \<noteq> u) rs = filter (\<lambda>r. r_user_id r \<noteq> u) (d_receipts d)"
  shows "same_others u d (d\<lparr>d_receipts := rs\<rparr>)"
  unfolding same_others_def
proof (intro allI impI)
  fix v assume "v \<noteq> u"
  then have "filter (\<lambda>r. r_user_id r = v) rs = filter (\<lambda>r. r_user_id r = v) (d_receipts d)" by (rule filter_others [OF assms])
  then show "view v (d\<lparr>d_receipts := rs\<rparr>) = view v d" by (simp add: view_def items_owned_def owned_def)
qed

text \<open>Items and their tags belong to whoever owns the receipt.\<close>

definition ids_ok :: "db \<Rightarrow> bool" where
  "ids_ok d \<longleftrightarrow> distinct (map r_id (d_receipts d)) \<and> distinct (map i_id (d_items d))"

lemma violation_ids: "violation h d = None \<Longrightarrow> ids_ok d"
  by (simp add: ids_ok_def violation_None unique_violation_def)

lemma ledger_ids: "ledger_ok h d \<Longrightarrow> ids_ok d"
  using violation_ids by (auto simp: ledger_ok_def)

lemma owned_disjoint: "ids_ok d \<Longrightarrow> rid \<in> owned v d \<Longrightarrow> rid \<in> owned u d \<Longrightarrow> v = u"
  by (auto simp: owned_def ids_ok_def distinct_map dest: inj_onD)

lemma others_items:
  assumes "ids_ok d" and "filter (\<lambda>i. i_receipt_id i \<notin> owned u d) is = filter (\<lambda>i. i_receipt_id i \<notin> owned u d) (d_items d)"
  shows "same_others u d (d\<lparr>d_items := is\<rparr>)"
  unfolding same_others_def
proof (intro allI impI)
  fix v assume v: "v \<noteq> u"
  let ?Q = "\<lambda>i. i_receipt_id i \<in> owned v d"
  have "filter ?Q zs = filter ?Q (filter (\<lambda>i. i_receipt_id i \<notin> owned u d) zs)" for zs
    using owned_disjoint [OF assms(1)] v by (auto intro!: filter_cong)
  then have "filter ?Q is = filter ?Q (d_items d)" using assms(2) by metis
  then show "view v (d\<lparr>d_items := is\<rparr>) = view v d" by (simp add: view_def items_owned_def owned_def)
qed

lemma items_disjoint:
  assumes "ids_ok d" and "n \<in> i_id ` set (items_owned v d)" and "n \<in> i_id ` set (items_owned u d)"
  shows "v = u"
  using assms owned_disjoint [OF assms(1)] by (auto simp: items_owned_def ids_ok_def distinct_map dest!: inj_onD)

lemma others_item_tags:
  assumes "ids_ok d" and "filter (\<lambda>x. fst x \<notin> i_id ` set (items_owned u d)) ts =
      filter (\<lambda>x. fst x \<notin> i_id ` set (items_owned u d)) (d_item_tags d)"
  shows "same_others u d (d\<lparr>d_item_tags := ts\<rparr>)"
  unfolding same_others_def
proof (intro allI impI)
  fix v assume v: "v \<noteq> u"
  let ?Q = "\<lambda>x. fst x \<in> i_id ` set (items_owned v d)"
  have "filter ?Q zs = filter ?Q (filter (\<lambda>x. fst x \<notin> i_id ` set (items_owned u d)) zs)" for zs :: "(int \<times> int) list"
    using items_disjoint [OF assms(1)] v by (auto intro!: filter_cong)
  then have "filter ?Q ts = filter ?Q (d_item_tags d)" using assms(2) by metis
  then show "view v (d\<lparr>d_item_tags := ts\<rparr>) = view v d" by (simp add: view_def items_owned_def owned_def)
qed

section \<open>Filtering and updating rows\<close>

lemma filter_update_where:
  assumes "\<And>x. x \<in> set xs \<Longrightarrow> P x \<Longrightarrow> \<not> Q x \<and> \<not> Q (f x)"
  shows "filter Q (update_where P f xs) = filter Q xs"
  using assms by (induction xs) (auto simp: update_where_def)

lemma filter_filter_where:
  assumes "\<And>x. x \<in> set xs \<Longrightarrow> Q x \<Longrightarrow> R x"
  shows "filter Q (filter R xs) = filter Q xs"
  using assms by (induction xs) auto

lemma filter_map_where:
  assumes "\<And>x. x \<in> set xs \<Longrightarrow> Q (f x) = Q x" and "\<And>x. x \<in> set xs \<Longrightarrow> Q x \<Longrightarrow> f x = x"
  shows "filter Q (map f xs) = filter Q xs"
  using assms by (induction xs) auto

lemma owned_rsig: "rid \<in> owned v d \<longleftrightarrow> (\<exists>s. (rid, v, s) \<in> rsig d)"
  by (auto simp: owned_def rsig_def)

lemma owned_frame [simp]:
  "owned v (d\<lparr>d_categories := c\<rparr>) = owned v d" "owned v (d\<lparr>d_tags := t\<rparr>) = owned v d"
  "owned v (d\<lparr>d_payment_methods := p\<rparr>) = owned v d" "owned v (d\<lparr>d_images := g\<rparr>) = owned v d"
  "owned v (d\<lparr>d_items := i\<rparr>) = owned v d" "owned v (d\<lparr>d_item_tags := it\<rparr>) = owned v d"
  by (simp_all add: owned_def)

section \<open>ON DELETE\<close>

lemma drop_items_others:
  assumes ids: "ids_ok d" and P: "\<And>i. i \<in> set (d_items d) \<Longrightarrow> P i \<Longrightarrow> i_receipt_id i \<in> owned u d"
  shows "same_others u d (drop_items P d)"
proof -
  define d1 where "d1 = d\<lparr>d_item_tags := filter (\<lambda>(i, t). \<not> (\<exists>x \<in> set (d_items d). i_id x = i \<and> P x)) (d_item_tags d)\<rparr>"
  have "same_others u d d1"
    unfolding d1_def by (rule others_item_tags [OF ids], rule filter_filter_where) (use P in \<open>auto simp: items_owned_def\<close>)
  moreover have "same_others u d1 (d1\<lparr>d_items := filter (\<lambda>i. \<not> P i) (d_items d)\<rparr>)"
    by (rule others_items) (use ids P in \<open>auto simp: d1_def ids_ok_def intro!: filter_cong\<close>)
  moreover have "drop_items P d = d1\<lparr>d_items := filter (\<lambda>i. \<not> P i) (d_items d)\<rparr>" by (simp add: drop_items_def d1_def)
  ultimately show ?thesis using same_others_trans by simp
qed

lemma drop_categories_others:
  assumes ok: "ledger_ok h d" and P: "\<And>c. P c \<Longrightarrow> c_user_id c = u"
  shows "same_others u d (drop_categories P d)"
proof -
  define gone where "gone = (\<lambda>n. \<exists>c \<in> set (d_categories d). c_id c = n \<and> P c)"
  define d1 where "d1 = d\<lparr>d_items := map (\<lambda>i. i\<lparr>i_category_id := null_if gone (i_category_id i)\<rparr>) (d_items d)\<rparr>"
  have mine: "i_receipt_id i \<in> owned u d" if i: "i \<in> set (d_items d)" and c: "i_category_id i = Some c" "gone c" for i c
  proof -
    obtain v s where v: "(i_receipt_id i, v, s) \<in> rsig d" "(c, v, s) \<in> csig d"
      using tenantD(1) [OF _ i] c(1) ok unfolding ledger_ok_def item_ok_def by blast
    moreover obtain s' where "(c, u, s') \<in> csig d" using c(2) P by (auto simp: gone_def csig_def)
    ultimately have "v = u" using csig_fun [of h d c u s' v s] ok by (simp add: ledger_ok_def)
    then show ?thesis using v by (auto simp: owned_rsig)
  qed
  have "null_if gone (i_category_id i) = i_category_id i" if "i \<in> set (d_items d)" "i_receipt_id i \<notin> owned u d" for i
    using mine [OF that(1)] that(2) by (auto simp: null_if_def split: option.split)
  then have "same_others u d d1"
    unfolding d1_def by (intro others_items [OF ledger_ids [OF ok]] filter_map_where) simp_all
  moreover have "same_others u d1 (d1\<lparr>d_categories := filter (\<lambda>c. \<not> P c) (d_categories d)\<rparr>)"
    by (rule others_categories) (use P in \<open>auto simp: d1_def intro!: filter_cong\<close>)
  moreover have "drop_categories P d = d1\<lparr>d_categories := filter (\<lambda>c. \<not> P c) (d_categories d)\<rparr>"
    by (simp add: drop_categories_def d1_def gone_def Let_def)
  ultimately show ?thesis using same_others_trans by simp
qed

lemma drop_tags_others:
  assumes ok: "ledger_ok h d" and P: "\<And>t. P t \<Longrightarrow> t_user_id t = u"
  shows "same_others u d (drop_tags P d)"
proof -
  define d1 where "d1 = d\<lparr>d_item_tags := filter (\<lambda>(i, t). \<not> (\<exists>x \<in> set (d_tags d). t_id x = t \<and> P x)) (d_item_tags d)\<rparr>"
  have mine: "fst x \<in> i_id ` set (items_owned u d)"
    if x: "x \<in> set (d_item_tags d)" and t: "t \<in> set (d_tags d)" "t_id t = snd x" "P t" for x t
  proof -
    obtain rid v s where v: "(fst x, rid) \<in> isig d" "(rid, v, s) \<in> rsig d" "(snd x, v) \<in> tsig d"
      using tenantD(2) [OF _ x] ok unfolding ledger_ok_def tag_ok_def by blast
    obtain t' where "t' \<in> set (d_tags d)" "t_id t' = snd x" "t_user_id t' = v" using v(3) by (auto simp: tsig_def)
    then have "v = u" using inj_onD [OF unique_ids(3), of h d t' t] t P ok by (auto simp: ledger_ok_def)
    then show ?thesis using v by (auto simp: isig_def items_owned_def owned_rsig)
  qed
  have "same_others u d d1"
    unfolding d1_def by (rule others_item_tags [OF ledger_ids [OF ok]], rule filter_filter_where) (use mine in force)
  moreover have "same_others u d1 (d1\<lparr>d_tags := filter (\<lambda>t. \<not> P t) (d_tags d)\<rparr>)"
    by (rule others_tags) (use P in \<open>auto simp: d1_def intro!: filter_cong\<close>)
  moreover have "drop_tags P d = d1\<lparr>d_tags := filter (\<lambda>t. \<not> P t) (d_tags d)\<rparr>" by (simp add: drop_tags_def d1_def)
  ultimately show ?thesis using same_others_trans by simp
qed

lemma drop_payment_methods_others:
  assumes ok: "ledger_ok h d" and P: "\<And>p. P p \<Longrightarrow> p_user_id p = u"
  shows "same_others u d (drop_payment_methods P d)"
proof -
  define gone where "gone = (\<lambda>n. \<exists>p \<in> set (d_payment_methods d). p_id p = n \<and> P p)"
  define d1 where "d1 = d\<lparr>d_receipts := map (\<lambda>r. r\<lparr>r_payment_method_id := null_if gone (r_payment_method_id r)\<rparr>) (d_receipts d)\<rparr>"
  have mine: "r_user_id r = u" if r: "r \<in> set (d_receipts d)" and p: "r_payment_method_id r = Some p" "gone p" for r p
  proof -
    obtain x where x: "x \<in> set (d_payment_methods d)" "p_id x = p" "P x" using p(2) by (auto simp: gone_def)
    obtain x' where "x' \<in> set (d_payment_methods d)" "p_id x' = p" "p_user_id x' = r_user_id r"
      using tenantD(3) [OF _ r] p(1) ok unfolding ledger_ok_def receipt_ok_def psig_def by auto
    then show ?thesis using inj_onD [OF unique_ids(4), of h d x' x] x P ok by (auto simp: ledger_ok_def)
  qed
  have "null_if gone (r_payment_method_id r) = r_payment_method_id r" if "r \<in> set (d_receipts d)" "r_user_id r \<noteq> u" for r
    using mine [OF that(1)] that(2) by (auto simp: null_if_def split: option.split)
  then have "same_others u d d1" unfolding d1_def by (intro others_receipts filter_map_where) simp_all
  moreover have "same_others u d1 (d1\<lparr>d_payment_methods := filter (\<lambda>p. \<not> P p) (d_payment_methods d)\<rparr>)"
    by (rule others_payment_methods) (use P in \<open>auto simp: d1_def intro!: filter_cong\<close>)
  moreover have "drop_payment_methods P d = d1\<lparr>d_payment_methods := filter (\<lambda>p. \<not> P p) (d_payment_methods d)\<rparr>"
    by (simp add: drop_payment_methods_def d1_def gone_def Let_def)
  ultimately show ?thesis using same_others_trans by simp
qed

lemma drop_receipts_others:
  assumes ok: "ledger_ok h d" and P: "\<And>r. P r \<Longrightarrow> r_user_id r = u"
  shows "same_others u d (drop_receipts P d)"
proof -
  define gone where "gone = (\<lambda>n. \<exists>r \<in> set (d_receipts d). r_id r = n \<and> P r)"
  define d1 where "d1 = drop_items (\<lambda>i. gone (i_receipt_id i)) d"
  define d2 where "d2 = d1\<lparr>d_images := filter (\<lambda>g. \<not> gone (g_receipt_id g)) (d_images d)\<rparr>"
  let ?f = "\<lambda>r. r\<lparr>r_offsets_receipt_id := null_if gone (r_offsets_receipt_id r)\<rparr>"
  have mine: "v = u" if n: "(n, v, s) \<in> rsig d" and g: "gone n" for n v s
  proof -
    obtain s' where s': "(n, u, s') \<in> rsig d" using g P by (auto simp: gone_def rsig_def)
    then show ?thesis using rsig_fun [of h, OF _ s' n] ok by (simp add: ledger_ok_def)
  qed
  have tables: "d_images d1 = d_images d" "d_receipts d1 = d_receipts d" by (simp_all add: d1_def drop_items_def)
  have "same_others u d d1"
    unfolding d1_def
    by (rule drop_items_others [OF ledger_ids [OF ok]]) (use P in \<open>auto simp: gone_def owned_def image_iff\<close>)
  moreover have "same_others u d1 d2"
  proof -
    have "g_user_id g = u" if "g \<in> set (d_images d)" "gone (g_receipt_id g)" for g
      using tenantD(4) [OF _ that(1)] that(2) mine ok unfolding ledger_ok_def image_ok_def by blast
    then show ?thesis unfolding d2_def tables by (intro others_images) (auto simp: tables intro!: filter_cong)
  qed
  moreover have "same_others u d2 (d2\<lparr>d_receipts := map ?f (filter (\<lambda>r. \<not> P r) (d_receipts d))\<rparr>)"
  proof (rule others_receipts)
    have "?f r = r" if r: "r \<in> set (d_receipts d)" "r_user_id r \<noteq> u" for r
      using tenantD(3) [OF _ r(1)] r(2) mine ok unfolding ledger_ok_def receipt_ok_def
      by (auto simp: null_if_def split: option.split)
    then have "filter (\<lambda>r. r_user_id r \<noteq> u) (map ?f (filter (\<lambda>r. \<not> P r) (d_receipts d))) =
        filter (\<lambda>r. r_user_id r \<noteq> u) (filter (\<lambda>r. \<not> P r) (d_receipts d))"
      by (intro filter_map_where) auto
    also have "\<dots> = filter (\<lambda>r. r_user_id r \<noteq> u) (d_receipts d)" using P by (intro filter_filter_where) auto
    finally show "filter (\<lambda>r. r_user_id r \<noteq> u) (map ?f (filter (\<lambda>r. \<not> P r) (d_receipts d))) =
        filter (\<lambda>r. r_user_id r \<noteq> u) (d_receipts d2)" by (simp add: d2_def tables)
  qed
  moreover have "drop_receipts P d = d2\<lparr>d_receipts := map ?f (filter (\<lambda>r. \<not> P r) (d_receipts d))\<rparr>"
    by (simp add: drop_receipts_def d1_def d2_def gone_def Let_def)
  ultimately show ?thesis using same_others_trans by metis
qed

section \<open>Rows of the acting user\<close>

lemma others_update_receipt:
  assumes "ledger_ok h d" and "(rid, u, s) \<in> rsig d" and "\<And>x. r_user_id (f x) = r_user_id x"
  shows "same_others u d (d\<lparr>d_receipts := update_where (\<lambda>x. r_id x = rid) f (d_receipts d)\<rparr>)"
proof (intro others_receipts filter_update_where)
  fix x assume x: "x \<in> set (d_receipts d)" "r_id x = rid"
  then have "(rid, r_user_id x, income_kind (r_kind x)) \<in> rsig d" by (auto simp: rsig_def)
  then have "r_user_id x = u" using rsig_fun [OF _ assms(2)] assms(1) by (auto simp: ledger_ok_def)
  then show "\<not> r_user_id x \<noteq> u \<and> \<not> r_user_id (f x) \<noteq> u" using assms(3) by simp
qed

lemma others_update_category:
  assumes "ledger_ok h d" and "(cid, u, s) \<in> csig d" and "\<And>x. c_user_id (f x) = c_user_id x"
  shows "same_others u d (d\<lparr>d_categories := update_where (\<lambda>x. c_id x = cid) f (d_categories d)\<rparr>)"
proof (intro others_categories filter_update_where)
  fix x assume x: "x \<in> set (d_categories d)" "c_id x = cid"
  then have "(cid, c_user_id x, c_is_income x) \<in> csig d" by (auto simp: csig_def)
  then have "c_user_id x = u" using csig_fun [OF _ assms(2)] assms(1) by (auto simp: ledger_ok_def)
  then show "\<not> c_user_id x \<noteq> u \<and> \<not> c_user_id (f x) \<noteq> u" using assms(3) by simp
qed

lemma others_add_item:
  assumes "ledger_ok h d" and "(i_receipt_id i, u, s) \<in> rsig d"
  shows "same_others u d (d\<lparr>d_items := d_items d @ [i]\<rparr>)"
  using assms by (intro others_items [OF ledger_ids]) (auto simp: owned_rsig)

lemma owned_item:
  assumes "(n, rid) \<in> isig d" and "(rid, u, s) \<in> rsig d"
  shows "n \<in> i_id ` set (items_owned u d)"
  using assms by (auto simp: isig_def items_owned_def owned_rsig)

lemma others_update_item:
  assumes "ledger_ok h d" and "(n, rid) \<in> isig d" and "(rid, u, s) \<in> rsig d"
    and "\<And>x. i_receipt_id (f x) = i_receipt_id x"
  shows "same_others u d (d\<lparr>d_items := update_where (\<lambda>i. i_id i = n) f (d_items d)\<rparr>)"
proof (intro others_items [OF ledger_ids [OF assms(1)]] filter_update_where)
  fix x assume x: "x \<in> set (d_items d)" "i_id x = n"
  then have "(n, i_receipt_id x) \<in> isig d" by (auto simp: isig_def)
  then have "i_receipt_id x = rid" using isig_fun [OF _ assms(2)] assms(1) by (auto simp: ledger_ok_def)
  then show "\<not> i_receipt_id x \<notin> owned u d \<and> \<not> i_receipt_id (f x) \<notin> owned u d"
    using assms(3,4) by (auto simp: owned_rsig)
qed

lemma others_tag_item:
  assumes "ledger_ok h d" and "(n, rid) \<in> isig d" and "(rid, u, s) \<in> rsig d"
    and "filter (\<lambda>x. fst x \<noteq> n) ts = filter (\<lambda>x. fst x \<noteq> n) (d_item_tags d)"
  shows "same_others u d (d\<lparr>d_item_tags := ts\<rparr>)"
proof (rule others_item_tags [OF ledger_ids [OF assms(1)]])
  let ?Q = "\<lambda>x. fst x \<notin> i_id ` set (items_owned u d)"
  have "filter ?Q zs = filter ?Q (filter (\<lambda>x. fst x \<noteq> n) zs)" for zs :: "(int \<times> int) list"
    using owned_item [OF assms(2,3)] by (auto intro!: filter_cong)
  then show "filter ?Q ts = filter ?Q (d_item_tags d)" using assms(4) by metis
qed

end
