(* ===== verification/TenantOps.thy ===== *)
theory TenantOps
  imports Views
begin

text \<open>
  Every operation of the services keeps the invariant of \<open>Tenancy\<close> and leaves the data of every user but its own
  as it is: one triple per statement and one lemma per operation, whatever the infrastructure does.
\<close>

lemma triple_exec_acting:
  assumes "\<And>d. P d \<Longrightarrow> acting h u V d"
    and "\<And>t d d' x. P d \<Longrightarrow> ledger_ok h d \<Longrightarrow> f t d = Inr (d', x) \<Longrightarrow> tenant_ok d' \<and> same_others u d d' \<and> Q x d'"
  shows "triple P (exec h f) (\<lambda>x d. acting h u V d \<and> Q x d)"
proof (rule triple_exec)
  fix t d d' x assume "P d" "f t d = Inr (d', x)" "violation h d' = None"
  then show "acting h u V d' \<and> Q x d'"
    using assms acting_ledger acting_step [of h u V d d'] unfolding ledger_ok_def by blast
qed

lemma triple_insert_acting:
  assumes "\<And>d. P d \<Longrightarrow> acting h u V d"
    and "\<And>n t d d' x. P d \<Longrightarrow> ledger_ok h d \<Longrightarrow> f n t d = Inr (d', x) \<Longrightarrow> tenant_ok d' \<and> same_others u d d' \<and> Q x d'"
  shows "triple P (insert_row h tb f) (\<lambda>x d. acting h u V d \<and> Q x d)"
proof (rule triple_insert_row)
  fix n t d d' x assume "P d" "f n t d = Inr (d', x)" "violation h d' = None"
  then show "acting h u V d' \<and> Q x d'"
    using assms acting_ledger acting_step [of h u V d d'] unfolding ledger_ok_def by blast
qed

section \<open>Statements on items\<close>

lemma ownedReceiptKind_triple:
  "triple (acting h u V) (ownedReceiptKind u rid) (\<lambda>kind d. acting h u V d \<and> receipt_is u rid kind d)"
proof -
  have *: "acting h u V d \<Longrightarrow> find_row (\<lambda>r. r_id r = rid \<and> r_user_id r = u) (d_receipts d) = Some r \<Longrightarrow>
      receipt_is u rid (r_kind r) d" for d r
    using receipt_kind_known [of h d r] unfolding receipt_is_def acting_def ledger_ok_def rsig_def
    by (auto dest!: find_row_SomeD)
  show ?thesis
    unfolding ownedReceiptKind_def
    by (intro triple_bind_query triple_option triple_raise triple_ret) (auto dest: * sym)
qed

lemma requireCategoryFitsKind_triple:
  assumes "findKind kind \<noteq> None"
  shows "triple P (requireCategoryFitsKind u c kind) (\<lambda>_ d. P d \<and> (c, u, income_kind kind) \<in> csig d)"
proof -
  obtain rules where r: "findKind kind = Some rules" using assms by blast
  have *: "find_row (\<lambda>x. c_id x = c \<and> c_user_id x = u) (d_categories d) = Some cat \<Longrightarrow>
      (c, u, c_is_income cat) \<in> csig d" for d cat
    by (auto simp: csig_def dest!: find_row_SomeD)
  show ?thesis
    unfolding requireCategoryFitsKind_def
    by (intro triple_bind_query triple_option triple_raise triple_bind_lift triple_if triple_ret)
       (auto simp: categoryFitsKind_def rulesFor_def r income_kind_rules [OF r] dest!: * [OF sym])
qed

text \<open>What the code knows about an item it is writing: its receipt, owner and kind.\<close>

definition writing :: "host \<Rightarrow> int \<Rightarrow> (int \<Rightarrow> category_row list \<times> tag_row list \<times> payment_method_row list \<times> receipt_row list \<times>
     image_row list \<times> item_row list \<times> (int \<times> int) list) \<Rightarrow> int \<Rightarrow> string \<Rightarrow> db \<Rightarrow> bool" where
  "writing h u V rid kind d \<longleftrightarrow> acting h u V d \<and> receipt_is u rid kind d"

lemma insert_item_triple:
  "triple (\<lambda>d. writing h u V rid kind d \<and> (\<forall>c. ii_categoryId item = Some c \<longrightarrow> (c, u, income_kind kind) \<in> csig d))
     (insert_item h rid item) (\<lambda>n d. writing h u V rid kind d \<and> (n, rid) \<in> isig d)"
proof -
  have "item_ok (d\<lparr>d_items := xs\<rparr>) (new_item h n rid item)"
    if "receipt_is u rid kind d" "\<forall>c. ii_categoryId item = Some c \<longrightarrow> (c, u, income_kind kind) \<in> csig d"
    for d n xs
    by (rule item_okI [of _ u "income_kind kind"]) (use that in \<open>auto simp: new_item_def receipt_is_def\<close>)
  then have "tenant_ok (d\<lparr>d_items := d_items d @ [new_item h n rid item]\<rparr>)"
    if "tenant_ok d" "receipt_is u rid kind d" "\<forall>c. ii_categoryId item = Some c \<longrightarrow> (c, u, income_kind kind) \<in> csig d"
    for d n
    by (intro tenant_ok_mono [OF that(1)]) (use that(2,3) in \<open>auto simp: isig_def\<close>)
  moreover have "same_others u d (d\<lparr>d_items := d_items d @ [new_item h n rid item]\<rparr>)"
    if "ledger_ok h d" "receipt_is u rid kind d" for d n
    using that by (intro others_add_item [of h]) (auto simp: new_item_def receipt_is_def)
  ultimately show ?thesis
    unfolding insert_item_def writing_def conj_assoc
    by (intro triple_insert_acting) (auto simp: ledger_ok_def receipt_is_def isig_def new_item_def)
qed

lemma clear_tags_triple:
  "triple (\<lambda>d. writing h u V rid kind d \<and> (n, rid) \<in> isig d) (clear_tags h n)
     (\<lambda>_ d. writing h u V rid kind d \<and> (n, rid) \<in> isig d)"
proof -
  let ?ts = "\<lambda>d. filter (\<lambda>(i, t). i \<noteq> n) (d_item_tags d)"
  have "tenant_ok (d\<lparr>d_item_tags := ?ts d\<rparr>)" if "tenant_ok d" for d
    by (rule tenant_ok_mono [OF that]) auto
  moreover have "same_others u d (d\<lparr>d_item_tags := ?ts d\<rparr>)"
    if "ledger_ok h d" "receipt_is u rid kind d" "(n, rid) \<in> isig d" for d
    using that by (intro others_tag_item [of h _ n rid]) (auto simp: receipt_is_def intro!: filter_cong)
  ultimately show ?thesis
    unfolding clear_tags_def writing_def conj_assoc
    by (intro triple_exec_acting) (auto simp: ledger_ok_def receipt_is_def)
qed

lemma add_tag_triple:
  "triple (\<lambda>d. writing h u V rid kind d \<and> (n, rid) \<in> isig d \<and> (t, u) \<in> tsig d) (add_tag h n t)
     (\<lambda>_ d. writing h u V rid kind d \<and> (n, rid) \<in> isig d)"
proof -
  have "tenant_ok (d\<lparr>d_item_tags := d_item_tags d @ [(n, t)]\<rparr>)"
    if "tenant_ok d" "receipt_is u rid kind d" "(n, rid) \<in> isig d" "(t, u) \<in> tsig d" for d
  proof (rule tenant_ok_mono [OF that(1)])
    fix x assume "x \<in> set (d_item_tags (d\<lparr>d_item_tags := d_item_tags d @ [(n, t)]\<rparr>))"
    then show "x \<in> set (d_item_tags d) \<or> tag_ok (d\<lparr>d_item_tags := d_item_tags d @ [(n, t)]\<rparr>) x"
      using that(2-4) tag_okI [of n rid _ u "income_kind kind" t] by (auto simp: receipt_is_def)
  qed auto
  moreover have "same_others u d (d\<lparr>d_item_tags := d_item_tags d @ [(n, t)]\<rparr>)"
    if "ledger_ok h d" "receipt_is u rid kind d" "(n, rid) \<in> isig d" for d
    using that by (intro others_tag_item [of h _ n rid]) (auto simp: receipt_is_def)
  ultimately show ?thesis
    unfolding add_tag_def writing_def conj_assoc
    by (intro triple_exec_acting) (auto simp: ledger_ok_def receipt_is_def)
qed

lemma replaceTags_triple:
  "triple (\<lambda>d. writing h u V rid kind d \<and> (n, rid) \<in> isig d) (replaceTags h u n tags)
     (\<lambda>_ d. writing h u V rid kind d \<and> (n, rid) \<in> isig d)"
proof -
  have *: "find_row (\<lambda>x. t_id x = t \<and> t_user_id x = u) (d_tags d) \<noteq> None \<Longrightarrow> (t, u) \<in> tsig d" for t d
    by (auto simp: tsig_def dest!: find_row_SomeD)
  show ?thesis
    unfolding replaceTags_def
    by (intro triple_bindM [OF clear_tags_triple] triple_forM triple_bind_query triple_if triple_raise
        triple_conseq [OF add_tag_triple]) (auto intro: *)
qed

lemma item_insert_triple:
  assumes "findKind kind \<noteq> None"
  shows "triple (writing h u V rid kind) (item_insert h u rid kind item)
     (\<lambda>n d. writing h u V rid kind d \<and> (n, rid) \<in> isig d)"
proof -
  have check: "triple (writing h u V rid kind)
      (case ii_categoryId item of None \<Rightarrow> ret () | Some c \<Rightarrow> requireCategoryFitsKind u c kind)
      (\<lambda>_ d. writing h u V rid kind d \<and> (\<forall>c. ii_categoryId item = Some c \<longrightarrow> (c, u, income_kind kind) \<in> csig d))"
    by (intro triple_option triple_ret triple_conseq [OF requireCategoryFitsKind_triple [OF assms]]) auto
  show ?thesis
    unfolding item_insert_def
    by (intro triple_bindM [OF check] triple_bindM [OF insert_item_triple] triple_bindM [OF replaceTags_triple]
        triple_ret)
qed

lemma update_item_triple:
  "triple (\<lambda>d. writing h u V rid kind d \<and> (n, rid) \<in> isig d \<and>
       (\<forall>c. ii_categoryId item = Some c \<longrightarrow> (c, u, income_kind kind) \<in> csig d))
     (update_item h n item) (\<lambda>_ d. writing h u V rid kind d \<and> (n, rid) \<in> isig d)"
proof -
  have isig': "isig (d\<lparr>d_items := update_where (\<lambda>i. i_id i = n) (set_item h item) (d_items d)\<rparr>) = isig d" for d
    unfolding isig_def by (simp, rule image_update_where) (simp add: set_item_def)
  have "tenant_ok (d\<lparr>d_items := update_where (\<lambda>i. i_id i = n) (set_item h item) (d_items d)\<rparr>)" (is "tenant_ok ?d")
    if l: "ledger_ok h d" and rc: "receipt_is u rid kind d" and n: "(n, rid) \<in> isig d"
      and c: "\<forall>c. ii_categoryId item = Some c \<longrightarrow> (c, u, income_kind kind) \<in> csig d" for d
  proof (rule tenant_ok_mono)
    show "tenant_ok d" using l by (simp add: ledger_ok_def)
    fix i assume "i \<in> set (d_items ?d)"
    then have "(\<exists>x \<in> set (d_items d). i_id x = n \<and> i = set_item h item x) \<or> i \<in> set (d_items d)"
      using update_where_set [of i "\<lambda>i. i_id i = n"] by auto
    moreover have "item_ok ?d (set_item h item x)" if "x \<in> set (d_items d)" "i_id x = n" for x
    proof (rule item_okI [of _ u "income_kind kind"])
      have "i_receipt_id x = rid"
        using isig_fun [OF _ n, of h "i_receipt_id x"] that l by (auto simp: isig_def ledger_ok_def)
      then show "(i_receipt_id (set_item h item x), u, income_kind kind) \<in> rsig ?d"
        using rc by (simp add: set_item_def receipt_is_def)
    qed (use c in \<open>simp add: set_item_def\<close>)
    ultimately show "i \<in> set (d_items d) \<or> item_ok ?d i" by blast
  qed (use isig' in auto)
  moreover have "same_others u d (d\<lparr>d_items := update_where (\<lambda>i. i_id i = n) (set_item h item) (d_items d)\<rparr>)"
    if "ledger_ok h d" "receipt_is u rid kind d" "(n, rid) \<in> isig d" for d
    using that by (intro others_update_item [of h _ n rid]) (auto simp: receipt_is_def set_item_def)
  ultimately show ?thesis
    unfolding update_item_def writing_def conj_assoc
    by (intro triple_exec_acting) (auto simp: receipt_is_def isig')
qed

lemma fetchItem_triple: "triple P (fetchItem n) (\<lambda>_. P)"
  unfolding fetchItem_def tagIdsFor_def
  by (intro triple_bind_query triple_option triple_raise triple_ret) auto

lemma writing_known: "writing h u V rid kind d \<Longrightarrow> findKind kind \<noteq> None"
  by (simp add: writing_def receipt_is_def)

lemmas owned_writing = ownedReceiptKind_triple [folded writing_def]

lemma item_create_keeps: "keeps (acting h u V) (item_create h u rid body)"
  unfolding item_create_def
proof (intro keeps_bind_pure keeps_in_transaction triple_bindM [OF owned_writing])
  fix input kind
  show "triple (writing h u V rid kind)
      (bindM (item_insert h u rid kind input) fetchItem) (\<lambda>_. acting h u V)"
    by (rule triple_pure [OF writing_known],
        assumption, rule triple_bindM [OF item_insert_triple], assumption,
        rule triple_conseq [OF fetchItem_triple]) (auto simp: writing_def)
qed

text \<open>The category an accepted item patch leaves on a row: one it named, or the one it had.\<close>

lemma item_patch_category:
  assumes "applyItemPatch (itemToInput (rowToItem row)) body = Inr (item, g)"
    and "\<not> jcontains body ''category_id''"
  shows "ii_categoryId item = i_category_id row"
proof -
  have "applyItemFields (itemToInput (rowToItem row)) body = Inr item"
    using assms(1) unfolding applyItemPatch_def rbind_eq_Inr by auto
  from applyItemFields_fields(5) [OF this] show ?thesis
    using assms(2) by (simp add: setIfPresent_def itemToInput_def rowToItem_def split: option.splits)
qed

lemma item_update_keeps: "keeps (acting h u V) (item_update h u rid n body)"
  unfolding item_update_def
proof (intro keeps_in_transaction triple_bindM [OF owned_writing] triple_bind_query triple_option triple_raise)
  fix kind current row
  let ?P = "\<lambda>d. writing h u V rid kind d \<and>
     (\<exists>t::instant. current = find_row (\<lambda>i. i_id i = n \<and> i_receipt_id i = rid) (d_items d))"
  assume row: "current = Some row"
  have found: "(n, rid) \<in> isig d \<and> row \<in> set (d_items d) \<and> i_receipt_id row = rid" if "?P d" for d
    using that row unfolding isig_def by (auto dest!: find_row_SomeD [OF sym])
  have kept: "(c, u, income_kind kind) \<in> csig d" if P: "?P d" and cat: "i_category_id row = Some c" for d c
  proof -
    have "acting h u V d" "(rid, u, income_kind kind) \<in> rsig d"
      using P by (auto simp: writing_def receipt_is_def)
    moreover obtain u' s' where "(rid, u', s') \<in> rsig d" "(c, u', s') \<in> csig d"
      using \<open>acting h u V d\<close> found [OF P] cat unfolding acting_def ledger_ok_def tenant_ok_def item_ok_def by blast
    ultimately show ?thesis using rsig_fun [of h d rid u "income_kind kind" u' s'] by (simp add: acting_def ledger_ok_def)
  qed
  have step: "triple ?P
      (bindM (case ii_categoryId item of None \<Rightarrow> ret ()
         | Some c \<Rightarrow> if jcontains body ''category_id'' then requireCategoryFitsKind u c kind else ret ()) (\<lambda>_.
       bindM (update_item h n item) (\<lambda>_.
       bindM (if g then replaceTags h u n (ii_tagIds item) else ret ()) (\<lambda>_. fetchItem n)))) (\<lambda>_. acting h u V)"
    if patch: "applyItemPatch (itemToInput (rowToItem row)) body = Inr (item, g)" for item g
  proof (rule triple_pure [where c = "findKind kind \<noteq> None"])
    assume known: "findKind kind \<noteq> None"
    let ?Q = "\<lambda>d. writing h u V rid kind d \<and> (n, rid) \<in> isig d"
    have check: "triple ?P (case ii_categoryId item of None \<Rightarrow> ret ()
         | Some c \<Rightarrow> if jcontains body ''category_id'' then requireCategoryFitsKind u c kind else ret ())
      (\<lambda>_ d. writing h u V rid kind d \<and> (n, rid) \<in> isig d \<and>
          (\<forall>c. ii_categoryId item = Some c \<longrightarrow> (c, u, income_kind kind) \<in> csig d))"
      by (intro triple_option triple_if triple_ret
            triple_conseq [OF requireCategoryFitsKind_triple [OF known, where P = ?P]])
         (use found kept item_patch_category [OF patch] in \<open>auto simp del: jcontains_iff\<close>)
    have tags: "triple ?Q (if g then replaceTags h u n (ii_tagIds item) else ret ()) (\<lambda>_. ?Q)"
      by (intro triple_if replaceTags_triple triple_ret)
    show ?thesis
      by (rule triple_bindM [OF check], rule triple_bindM [OF update_item_triple], rule triple_bindM [OF tags],
          rule triple_conseq [OF fetchItem_triple]) (auto simp: writing_def)
  qed (auto dest: writing_known)
  show "triple ?P
     (bindM (lift (applyItemPatch (itemToInput (rowToItem row)) body)) (\<lambda>(item, g).
       bindM (case ii_categoryId item of None \<Rightarrow> ret ()
         | Some c \<Rightarrow> if jcontains body ''category_id'' then requireCategoryFitsKind u c kind else ret ()) (\<lambda>_.
       bindM (update_item h n item) (\<lambda>_.
       bindM (if g then replaceTags h u n (ii_tagIds item) else ret ()) (\<lambda>_. fetchItem n))))) (\<lambda>_. acting h u V)"
    by (rule triple_bind_lift) (use step in \<open>auto split: prod.splits\<close>)
qed

section \<open>Item removal and the reference lists\<close>

lemma keeps_exec_acting:
  assumes "\<And>t d d' x. ledger_ok h d \<Longrightarrow> f t d = Inr (d', x) \<Longrightarrow> tenant_ok d' \<and> same_others u d d'"
  shows "keeps (acting h u V) (exec h f)"
  by (rule keeps_exec, rule triple_conseq [OF triple_exec_acting [where Q = "\<lambda>_ _. True" and P = "acting h u V"]])
     (use assms in auto)

lemma keeps_insert_acting:
  assumes "\<And>n t d d' x. ledger_ok h d \<Longrightarrow> f n t d = Inr (d', x) \<Longrightarrow> tenant_ok d' \<and> same_others u d d'"
  shows "keeps (acting h u V) (insert_row h tb f)"
  by (rule keeps_insert_row, rule triple_conseq [OF triple_insert_acting [where Q = "\<lambda>_ _. True" and P = "acting h u V"]])
     (use assms in auto)

lemma keeps_exec_ledger:
  assumes "\<And>t d d' x. tenant_ok d \<Longrightarrow> violation h d = None \<Longrightarrow> f t d = Inr (d', x) \<Longrightarrow> tenant_ok d'"
  shows "keeps (ledger_ok h) (exec h f)"
  by (rule keeps_exec, rule triple_exec) (use assms in \<open>auto simp: ledger_ok_def\<close>)

lemma keeps_insert_ledger:
  assumes "\<And>n t d d' x. tenant_ok d \<Longrightarrow> f n t d = Inr (d', x) \<Longrightarrow> tenant_ok d'"
  shows "keeps (ledger_ok h) (insert_row h tb f)"
  by (rule keeps_insert_row, rule triple_insert_row) (use assms in \<open>auto simp: ledger_ok_def\<close>)

lemma keeps_option:
  "keeps G a \<Longrightarrow> (\<And>y. keeps G (b y)) \<Longrightarrow> keeps G (case x of None \<Rightarrow> a | Some y \<Rightarrow> b y)"
  by (cases x) auto

lemma keeps_if: "(c \<Longrightarrow> keeps G a) \<Longrightarrow> (\<not> c \<Longrightarrow> keeps G b) \<Longrightarrow> keeps G (if c then a else b)"
  by simp

lemma keeps_rethrow: "keeps G (rethrowAsConflictIfDuplicate noun e)"
  by (simp add: rethrowAsConflictIfDuplicate_def keeps_raise)

lemma keeps_owned: "keeps G (ownedReceiptKind u rid)"
  unfolding ownedReceiptKind_def by (intro keeps_bindM keeps_query keeps_option keeps_raise keeps_ret)

lemmas keeps_rules = keeps_bind_pure keeps_bindM keeps_query keeps_ret keeps_raise keeps_option keeps_if
  keeps_tryM keeps_rethrow keeps_owned

lemma bindM_assoc: "bindM (bindM m f) g = bindM m (\<lambda>x. bindM (f x) g)"
  by (auto simp: bindM_def fun_eq_iff split: prod.splits sum.splits)

lemma bindM_ret: "bindM (ret x) f = f x"
  by (simp add: bindM_def ret_def fun_eq_iff)

lemma bindM_raise: "bindM (raise e) f = raise e"
  by (simp add: bindM_def raise_def fun_eq_iff)

text \<open>A check that a row is the user's own, before the statement that relies on it.\<close>

lemma keeps_pre_exec_acting:
  assumes "\<And>t d d' x. P d \<Longrightarrow> ledger_ok h d \<Longrightarrow> f t d = Inr (d', x) \<Longrightarrow> tenant_ok d' \<and> same_others u d d'"
  shows "keeps_pre P (acting h u V) (bindM (exec h f) (\<lambda>x. if c x then raise e else ret ()))"
  unfolding keeps_pre_def
proof (intro allI impI)
  fix w :: world assume P: "P (w_db w)" and a: "acting h u V (w_db w)"
  have "triple (\<lambda>d. P d \<and> acting h u V d) (exec h f) (\<lambda>_ d. acting h u V d \<and> True)"
    by (rule triple_exec_acting) (use assms in auto)
  then have ok: "exec h f w = (Inr x, w') \<Longrightarrow> acting h u V (w_db w')" for x w' using P a unfolding triple_def by blast
  obtain r w' where run: "exec h f w = (r, w')" by fastforce
  have "acting h u V (w_db w')"
  proof (cases r)
    case (Inl e)
    then show ?thesis using exec_throws [of h f w e w'] run a by simp
  next
    case (Inr x)
    then show ?thesis using ok run by simp
  qed
  then show "acting h u V (w_db (snd (bindM (exec h f) (\<lambda>x. if c x then raise e else ret ()) w)))"
    using run by (cases r) (simp_all add: bindM_def raise_def ret_def)
qed

lemma item_remove_keeps: "keeps (acting h u V) (item_remove h u rid n)"
proof -
  let ?drop = "bindM (exec h (\<lambda>_ d. Inr (drop_items (\<lambda>i. i_id i = n \<and> i_receipt_id i = rid) d,
      find_row (\<lambda>i. i_id i = n \<and> i_receipt_id i = rid) (d_items d))))
      (\<lambda>result. if result = None then raise (NotFoundError ''item not found'') else ret ())"
  have "keeps_pre (\<lambda>d. rid \<in> owned u d) (acting h u V) ?drop"
    by (rule keeps_pre_exec_acting) (auto simp: ledger_ok_def intro: drop_items_tenant intro!: drop_items_others ledger_ids [of h])
  then have "keeps_pre (\<lambda>d. \<exists>t::instant. Some r = find_row (\<lambda>r. r_id r = rid \<and> r_user_id r = u) (d_receipts d)) (acting h u V) ?drop" for r
    unfolding keeps_pre_def owned_def by (force dest!: find_row_SomeD [OF sym])
  then show ?thesis
    unfolding item_remove_def ownedReceiptKind_def bindM_assoc
    by (intro keeps_bind_query) (simp split: option.split add: bindM_ret bindM_raise keeps_pre_keeps keeps_raise)
qed

lemma removeOwned_keeps:
  "(\<And>d. ledger_ok h d \<Longrightarrow> tenant_ok (drp d) \<and> same_others u d (drp d)) \<Longrightarrow> keeps (acting h u V) (removeOwned h look drp noun)"
  unfolding removeOwned_def by (intro keeps_rules keeps_exec_acting) auto

lemma reference_remove_keeps:
  "keeps (acting h u V) (category_remove h u n)" "keeps (acting h u V) (tag_remove h u n)"
  "keeps (acting h u V) (payment_method_remove h u n)"
proof -
  show "keeps (acting h u V) (category_remove h u n)"
    unfolding category_remove_def
    by (rule removeOwned_keeps) (auto simp: ledger_ok_def drop_categories_tenant intro!: drop_categories_others [of h])
  show "keeps (acting h u V) (tag_remove h u n)"
    unfolding tag_remove_def
    by (rule removeOwned_keeps) (auto simp: ledger_ok_def drop_tags_tenant intro!: drop_tags_others [of h])
  show "keeps (acting h u V) (payment_method_remove h u n)"
    unfolding payment_method_remove_def
    by (rule removeOwned_keeps) (auto simp: ledger_ok_def drop_payment_methods_tenant intro!: drop_payment_methods_others [of h])
qed

lemma insert_category_keeps: "keeps (acting h u V) (insert_category h u name inc)"
  unfolding insert_category_def
proof (rule keeps_insert_acting)
  fix n t d d' x
  assume "ledger_ok h d" and "(let row = \<lparr>c_id = n, c_user_id = u, c_name = name, c_is_income = inc\<rparr>
       in Inr (d\<lparr>d_categories := d_categories d @ [row]\<rparr>, row)) = Inr (d', x)"
  then have t: "tenant_ok d" and d': "\<exists>row. d' = d\<lparr>d_categories := d_categories d @ [row]\<rparr> \<and> c_user_id row = u"
    by (auto simp: Let_def ledger_ok_def)
  have "tenant_ok d'" by (rule tenant_ok_mono [OF t]) (use d' in \<open>auto simp: csig_def\<close>)
  moreover have "same_others u d d'" using d' by (auto intro!: others_categories)
  ultimately show "tenant_ok d' \<and> same_others u d d'" ..
qed

lemma insert_tag_keeps: "keeps (acting h u V) (insert_tag h u name)"
  unfolding insert_tag_def
proof (rule keeps_insert_acting)
  fix n t d d' x
  assume "ledger_ok h d" and "(let row = \<lparr>t_id = n, t_user_id = u, t_name = name\<rparr>
       in Inr (d\<lparr>d_tags := d_tags d @ [row]\<rparr>, row)) = Inr (d', x)"
  then have t: "tenant_ok d" and d': "\<exists>row. d' = d\<lparr>d_tags := d_tags d @ [row]\<rparr> \<and> t_user_id row = u"
    by (auto simp: Let_def ledger_ok_def)
  have "tenant_ok d'" by (rule tenant_ok_mono [OF t]) (use d' in \<open>auto simp: tsig_def\<close>)
  moreover have "same_others u d d'" using d' by (auto intro!: others_tags)
  ultimately show "tenant_ok d' \<and> same_others u d d'" ..
qed

lemma insert_payment_method_keeps: "keeps (acting h u V) (insert_payment_method h u name sv)"
  unfolding insert_payment_method_def
proof (rule keeps_insert_acting)
  fix n t d d' x
  assume "ledger_ok h d" and "(let row = \<lparr>p_id = n, p_user_id = u, p_name = name, p_stored_value = sv\<rparr>
       in Inr (d\<lparr>d_payment_methods := d_payment_methods d @ [row]\<rparr>, row)) = Inr (d', x)"
  then have t: "tenant_ok d" and d': "\<exists>row. d' = d\<lparr>d_payment_methods := d_payment_methods d @ [row]\<rparr> \<and> p_user_id row = u"
    by (auto simp: Let_def ledger_ok_def)
  have "tenant_ok d'" by (rule tenant_ok_mono [OF t]) (use d' in \<open>auto simp: psig_def\<close>)
  moreover have "same_others u d d'" using d' by (auto intro!: others_payment_methods)
  ultimately show "tenant_ok d' \<and> same_others u d d'" ..
qed

lemma rename_tag_keeps: "keeps (acting h u V) (rename_tag h u n name)"
  unfolding rename_tag_def
proof (rule keeps_exec_acting)
  fix t d d' x
  assume t: "ledger_ok h d" and "(let tags = update_where (\<lambda>t. t_id t = n \<and> t_user_id t = u)
         (\<lambda>t. t\<lparr>t_name := name\<rparr>) (d_tags d)
       in Inr (d\<lparr>d_tags := tags\<rparr>, find_row (\<lambda>t. t_id t = n \<and> t_user_id t = u) tags)) = Inr (d', x)"
  then have d': "d' = d\<lparr>d_tags := update_where (\<lambda>t. t_id t = n \<and> t_user_id t = u)
      (\<lambda>t. t\<lparr>t_name := name\<rparr>) (d_tags d)\<rparr>" by (simp add: Let_def)
  have "tsig d' = tsig d" unfolding tsig_def d' by (simp, rule image_update_where) simp
  moreover have "tenant_ok d" using t by (simp add: ledger_ok_def)
  ultimately have "tenant_ok d'" by (intro tenant_ok_mono [of d d']) (simp_all add: d')
  moreover have "same_others u d d'" unfolding d' by (intro others_tags filter_update_where) simp
  ultimately show "tenant_ok d' \<and> same_others u d d'" ..
qed

lemma set_payment_method_keeps: "keeps (acting h u V) (set_payment_method h u n name sv)"
proof -
  define f :: "payment_method_row \<Rightarrow> payment_method_row" where
    "f = (\<lambda>p. p\<lparr>p_name := (case name of Some n \<Rightarrow> n | None \<Rightarrow> p_name p),
      p_stored_value := (case sv of Some s \<Rightarrow> s | None \<Rightarrow> p_stored_value p)\<rparr>)"
  let ?P = "\<lambda>p. p_id p = n \<and> p_user_id p = u"
  have "tenant_ok (d\<lparr>d_payment_methods := update_where ?P f (d_payment_methods d)\<rparr>)" (is "tenant_ok ?d")
    if "tenant_ok d" for d
  proof -
    have "psig ?d = psig d" unfolding psig_def by (simp, rule image_update_where) (simp add: f_def)
    then show ?thesis by (intro tenant_ok_mono [OF that]) auto
  qed
  moreover have "same_others u d (d\<lparr>d_payment_methods := update_where ?P f (d_payment_methods d)\<rparr>)" for d
    by (intro others_payment_methods filter_update_where) (simp add: f_def)
  ultimately show ?thesis
    unfolding set_payment_method_def f_def [symmetric] by (intro keeps_exec_acting) (auto simp: Let_def ledger_ok_def)
qed

lemma reference_create_keeps:
  "keeps (acting h u V) (category_create h u body)" "keeps (acting h u V) (tag_create h u body)"
  "keeps (acting h u V) (payment_method_create h u body)" "keeps (acting h u V) (tag_update h u n body)"
  "keeps (acting h u V) (payment_method_update h u n body)"
  unfolding category_create_def tag_create_def payment_method_create_def tag_update_def payment_method_update_def
  by (intro keeps_rules insert_category_keeps insert_tag_keeps insert_payment_method_keeps rename_tag_keeps
      set_payment_method_keeps)+

lemma rethrow_raise:
  "rethrowAsConflictIfDuplicate noun e = raise (if has_substr kDuplicateKey (what_of e)
     then ConflictError (''a '' @ noun @ '' with that name already exists'') else e)"
  by (simp add: rethrowAsConflictIfDuplicate_def)

lemma category_update_body_triple:
  "triple (acting h u V) (category_update_body h u cid name isIncome) (\<lambda>_. acting h u V)"
  unfolding category_update_body_def
proof (intro triple_bind_query triple_option triple_raise)
  fix current row
  let ?P = "\<lambda>d. acting h u V d \<and> (\<exists>t::instant. current = find_row (\<lambda>c. c_id c = cid \<and> c_user_id c = u) (d_categories d))"
  assume row: "current = Some row"
  have found: "(cid, u, c_is_income row) \<in> csig d" if "?P d" for d
    using that row unfolding csig_def by (auto dest!: find_row_SomeD [OF sym])
  define inc where "inc = (case isIncome of Some i \<Rightarrow> i | None \<Rightarrow> c_is_income row)"
  define nm where "nm = (case name of Some n \<Rightarrow> n | None \<Rightarrow> c_name row)"
  have check: "triple ?P (case isIncome of None \<Rightarrow> ret ()
       | Some i \<Rightarrow> if i = c_is_income row then ret ()
           else bindM (query (\<lambda>_ d. category_clash cid i d)) (\<lambda>clash.
             if clash then raise (ValidationError (if i then ''category is used by items on non-income receipts''
                else ''category is used by items on income receipts'')) else ret ()))
      (\<lambda>_ d. acting h u V d \<and> flip_ok u cid inc d)"
    by (intro triple_option triple_if triple_bind_query triple_raise triple_ret)
       (use found in \<open>auto simp: inc_def flip_ok_def\<close>)
  have upd: "triple (\<lambda>d. acting h u V d \<and> flip_ok u cid inc d)
      (update_category h \<lparr>ca_id = cid, ca_name = nm, ca_isIncome = inc\<rparr>) (\<lambda>_. acting h u V)"
  proof -
    have "same_others u d (d\<lparr>d_categories := update_where (\<lambda>c. c_id c = cid)
        (\<lambda>c. c\<lparr>c_name := nm, c_is_income := inc\<rparr>) (d_categories d)\<rparr>)" if "ledger_ok h d" "flip_ok u cid inc d" for d
      using that by (auto simp: flip_ok_def intro: others_update_category)
    then have "triple (\<lambda>d. acting h u V d \<and> flip_ok u cid inc d)
        (update_category h \<lparr>ca_id = cid, ca_name = nm, ca_isIncome = inc\<rparr>) (\<lambda>_ d. acting h u V d \<and> True)"
      unfolding update_category_def by (intro triple_exec_acting) (auto simp: ledger_ok_def intro: flip_tenant)
    then show ?thesis by simp
  qed
  show "triple ?P
     (bindM (case isIncome of None \<Rightarrow> ret ()
       | Some i \<Rightarrow> if i = c_is_income row then ret ()
           else bindM (query (\<lambda>_ d. category_clash cid i d)) (\<lambda>clash.
             if clash then raise (ValidationError (if i then ''category is used by items on non-income receipts''
                else ''category is used by items on income receipts'')) else ret ())) (\<lambda>_.
       let category = \<lparr>ca_id = cid, ca_name = (case name of Some n \<Rightarrow> n | None \<Rightarrow> c_name row),
             ca_isIncome = (case isIncome of Some i \<Rightarrow> i | None \<Rightarrow> c_is_income row)\<rparr>
       in bindM (update_category h category) (\<lambda>_. ret category))) (\<lambda>_. acting h u V)"
    unfolding Let_def inc_def [symmetric] nm_def [symmetric]
    by (rule triple_bindM [OF check], rule triple_bindM [OF upd], rule triple_ret)
qed

lemma category_update_keeps: "keeps (acting h u V) (category_update h u cid body)"
  unfolding category_update_def
  by (intro keeps_bind_pure keeps_in_transaction triple_tryM [OF category_update_body_triple rethrow_raise])

section \<open>Receipts\<close>

lemma validateReferences_triple:
  "triple P (validateReferences u self r)
     (\<lambda>_ d. P d \<and> (\<forall>p. er_paymentMethodId r = Some p \<longrightarrow> (p, u) \<in> psig d) \<and>
        (\<forall>q. er_offsetsReceiptId r = Some q \<longrightarrow> (\<exists>s. (q, u, s) \<in> rsig d)))"
proof -
  have pm: "find_row (\<lambda>p. p_id p = n \<and> p_user_id p = u) (d_payment_methods d) \<noteq> None \<Longrightarrow> (n, u) \<in> psig d" for n d
    by (auto simp: psig_def dest!: find_row_SomeD)
  have rc: "owns_receipt u n d = Some t \<Longrightarrow> \<exists>s. (n, u, s) \<in> rsig d" for n d t
    by (auto simp: rsig_def owns_receipt_def dest!: find_row_SomeD)
  let ?Q = "\<lambda>d. P d \<and> (\<forall>p. er_paymentMethodId r = Some p \<longrightarrow> (p, u) \<in> psig d)"
  have first: "triple P (case er_paymentMethodId r of None \<Rightarrow> ret ()
       | Some pm \<Rightarrow> bindM (query (\<lambda>_ d. find_row (\<lambda>p. p_id p = pm \<and> p_user_id p = u) (d_payment_methods d)))
           (\<lambda>owned. if owned = None then raise (ValidationError ''payment_method_id does not exist'') else ret ()))
      (\<lambda>_. ?Q)"
    by (intro triple_option triple_bind_query triple_if triple_raise triple_ret) (auto intro: pm)
  show ?thesis
    unfolding validateReferences_def
    by (rule triple_bindM [OF first],
        intro triple_option triple_if triple_raise triple_bind_query triple_bind_lift triple_ret)
       (auto dest!: rc [OF sym])
qed

lemma insert_receipt_triple:
  assumes mk: "\<And>n t row. mk n t = Inr row \<Longrightarrow> r_id row = n \<and> r_user_id row = u \<and> r_kind row = kind \<and>
      r_payment_method_id row = pm \<and> r_offsets_receipt_id row = offs"
    and known: "findKind kind \<noteq> None"
  shows "triple (\<lambda>d. acting h u V d \<and> (\<forall>p. pm = Some p \<longrightarrow> (p, u) \<in> psig d) \<and>
        (\<forall>q. offs = Some q \<longrightarrow> (\<exists>s. (q, u, s) \<in> rsig d)))
     (insert_receipt h mk) (\<lambda>n. writing h u V n kind)"
proof -
  have "tenant_ok (d\<lparr>d_receipts := d_receipts d @ [row]\<rparr>)" (is "tenant_ok ?d")
    if t: "tenant_ok d" and row: "mk n now = Inr row" and pm: "\<forall>p. pm = Some p \<longrightarrow> (p, u) \<in> psig d"
      and offs: "\<forall>q. offs = Some q \<longrightarrow> (\<exists>s. (q, u, s) \<in> rsig d)" for d row n now
  proof (rule tenant_ok_mono [OF t])
    show ext: "rsig d \<subseteq> rsig ?d" by (auto simp: rsig_def)
    have "receipt_ok ?d row" using mk [OF row] pm offs ext unfolding receipt_ok_def by (simp, blast)
    then show "\<And>r. r \<in> set (d_receipts ?d) \<Longrightarrow> r \<in> set (d_receipts d) \<or> receipt_ok ?d r" by auto
  qed auto
  note tenant = this
  show ?thesis
    unfolding insert_receipt_def
  proof (rule triple_insert_row)
    fix n t d d' x
    assume P: "acting h u V d \<and> (\<forall>p. pm = Some p \<longrightarrow> (p, u) \<in> psig d) \<and>
        (\<forall>q. offs = Some q \<longrightarrow> (\<exists>s. (q, u, s) \<in> rsig d))" and v: "violation h d' = None"
      and run: "rbind (mk n t) (\<lambda>row. Inr (d\<lparr>d_receipts := d_receipts d @ [row]\<rparr>, n)) = Inr (d', x)"
    from run obtain row where row: "mk n t = Inr row" "d' = d\<lparr>d_receipts := d_receipts d @ [row]\<rparr>" "x = n"
      by (auto simp: rbind_eq_Inr)
    have "(n, u, income_kind kind) \<in> rsig d'" using mk [OF row(1)] by (auto simp: rsig_def row(2))
    moreover have "tenant_ok d'"
      unfolding row(2) by (rule tenant [OF _ row(1)]) (use P in \<open>auto simp: acting_def ledger_ok_def\<close>)
    moreover have "same_others u d d'" unfolding row(2) by (rule others_receipts) (use mk [OF row(1)] in simp)
    ultimately show "writing h u V x kind d'"
      using P v known row(3) acting_step [of h u V d d'] by (simp add: writing_def ledger_ok_def receipt_is_def)
  qed
qed

lemma manual_receipt_row:
  "manual_receipt h u r aud n t = Inr row \<Longrightarrow> r_id row = n \<and> r_user_id row = u \<and> r_kind row = er_kind r \<and>
     r_payment_method_id row = er_paymentMethodId r \<and> r_offsets_receipt_id row = er_offsetsReceiptId r"
  by (auto simp: manual_receipt_def rbind_eq_Inr new_receipt_def)

lemma createManual_keeps: "keeps (acting h u V) (createManual h u body)"
proof (cases "parseManualEntry body")
  case (Inl e)
  then show ?thesis by (simp add: createManual_def keeps_def bindM_def lift_def)
next
  case (Inr input)
  have known: "findKind (er_kind (me_receipt input)) \<noteq> None"
    using parseManualEntry_wf [OF Inr] by (auto simp: wf_editable_def kind_rules_hold_def split: option.splits)
  have items: "triple (writing h u V rid kind) (forM items (\<lambda>item. bindM (item_insert h u rid kind item) (\<lambda>_. ret ())))
      (\<lambda>_. writing h u V rid kind)" if "findKind kind \<noteq> None" for rid kind items
    by (intro triple_forM triple_bindM [OF item_insert_triple [OF that]] triple_ret) simp
  have eq: "bindM (lift (Inr x)) f = f x" for x :: ManualEntryInput and f :: "_ \<Rightarrow> int act"
    by (simp add: bindM_def lift_def fun_eq_iff)
  show ?thesis
    unfolding createManual_def Inr Let_def eq
    by (intro keeps_in_transaction triple_bindM [OF validateReferences_triple]
        triple_bindM [OF insert_receipt_triple [OF manual_receipt_row known]]
        triple_bindM [OF items [OF known]] triple_ret) (simp_all add: writing_def)
qed

lemma updateReceipt_keeps: "keeps (acting h u V) (updateReceipt h u rid body)"
  unfolding updateReceipt_def
proof (intro keeps_in_transaction triple_bind_query triple_option triple_raise triple_bind_lift)
  fix current row was rm
  let ?P = "\<lambda>d. acting h u V d \<and> (\<exists>t::instant. current = owns_receipt u rid d)"
  assume row: "current = Some row" and was: "rulesFor (r_kind row) = Inr was"
    and patch: "applyReceiptPatch (rowToEditable row) body = Inr rm"
  obtain r mark where rm: "rm = (r, mark)" by (cases rm)
  have mine: "(rid, u, income_kind (r_kind row)) \<in> rsig d" if "?P d" for d
    using that row unfolding rsig_def owns_receipt_def by (auto dest!: find_row_SomeD [OF sym])
  let ?Q = "\<lambda>d. ?P d \<and> (\<forall>p. er_paymentMethodId r = Some p \<longrightarrow> (p, u) \<in> psig d) \<and>
        (\<forall>q. er_offsetsReceiptId r = Some q \<longrightarrow> (\<exists>s. (q, u, s) \<in> rsig d))"
  have sides: "triple ?Q (require_sides_fit rid (kr_usesIncomeCategories was) (kr_usesIncomeCategories now))
      (\<lambda>_ d. acting h u V d \<and> editing h u rid r d)" if now: "rulesFor (er_kind r) = Inr now" for now
    unfolding require_sides_fit_def
    by (intro triple_if triple_bind_query triple_raise triple_ret)
       (use mine was now in \<open>auto simp: editing_def rulesFor_eq_Inr income_kind_rules\<close>)
  have upd: "triple (\<lambda>d. acting h u V d \<and> editing h u rid r d) (update_receipt h rid r aud mark) (\<lambda>_. acting h u V)" for aud
    unfolding update_receipt_def
  proof (rule triple_exec)
    fix t d d' x
    assume P: "acting h u V d \<and> editing h u rid r d" and v: "violation h d' = None"
      and run: "rbind (sql_date h (er_purchaseDate r)) (\<lambda>pdate. Inr (d\<lparr>d_receipts :=
         update_where (\<lambda>row. r_id row = rid) (set_receipt h r pdate aud mark t) (d_receipts d)\<rparr>, ())) = Inr (d', x)"
    then obtain pdate where d': "d' = d\<lparr>d_receipts :=
         update_where (\<lambda>row. r_id row = rid) (set_receipt h r pdate aud mark t) (d_receipts d)\<rparr>"
      by (auto simp: rbind_eq_Inr)
    have "tenant_ok d'"
      using P edit_tenant [of h u rid r d "set_receipt h r pdate aud mark t"] by (simp add: d' set_receipt_def)
    moreover obtain s where "(rid, u, s) \<in> rsig d" using P by (auto simp: editing_def)
    then have "same_others u d d'"
      unfolding d' using P by (intro others_update_receipt [of h]) (auto simp: editing_def set_receipt_def)
    ultimately show "acting h u V d'" using P v acting_step [of h u V d d'] by (simp add: ledger_ok_def)
  qed
  show "triple ?P
     (case rm of (r, mark) \<Rightarrow>
       bindM (validateReferences u (Some rid) r) (\<lambda>_.
       bindM (lift (rulesFor (er_kind r))) (\<lambda>is_now.
       bindM (require_sides_fit rid (kr_usesIncomeCategories was) (kr_usesIncomeCategories is_now)) (\<lambda>_.
       bindM (update_receipt h rid r (audEquivalentCents (h_llround h) (er_totalCents r) (er_fxRateToAud r)) mark) (\<lambda>_.
       bindM (query (\<lambda>_ d. find_row (\<lambda>x. r_id x = rid) (d_receipts d))) (\<lambda>updated.
       case updated of None \<Rightarrow> raise empty_result | Some x \<Rightarrow> ret (rowToSummary h x)))))))
     (\<lambda>_. acting h u V)"
    unfolding rm prod.case
    by (rule triple_bindM [OF validateReferences_triple], rule triple_bind_lift, rule triple_bindM [OF sides], assumption,
        rule triple_bindM [OF upd], intro triple_bind_query triple_option triple_raise triple_ret) simp
qed

lemma retryScan_keeps: "keeps (acting h u V) (retryScan h u rid)"
  unfolding retryScan_def requeue_failed_def getReceipt_def
  by (intro keeps_rules keeps_exec_acting)
     (auto simp: Let_def same_refs_def ledger_ok_def intro!: same_refs_tenant others_receipts filter_update_where)

section \<open>Images\<close>

lemma generateImageKey_triple:
  "triple P (generateImageKey u rid) (\<lambda>key d. P d \<and> (\<exists>bytes. key = image_key u rid (toHex bytes)))"
  by (auto simp: triple_def generateImageKey_def generateToken_def randombytes_def bindM_def ret_def)

lemma insert_image_triple:
  "triple (\<lambda>d. acting h u V d \<and> (\<exists>s. (rid, u, s) \<in> rsig d) \<and> (\<exists>bytes. key = image_key u rid (toHex bytes)))
     (insert_image h u rid key sha) (\<lambda>_ d. acting h u V d \<and> (\<exists>s. (rid, u, s) \<in> rsig d))"
proof -
  have "tenant_ok (d\<lparr>d_images := d_images d @ [\<lparr>g_id = n, g_receipt_id = rid, g_user_id = u,
          g_image_key = image_key u rid (toHex bytes), g_image_sha256 = sha, g_created_at = t\<rparr>]\<rparr>)"
    if "tenant_ok d" "(rid, u, s) \<in> rsig d" for d n t s bytes
    by (rule tenant_ok_mono [OF that(1)]) (use that(2) in \<open>auto simp: image_ok_def\<close>)
  moreover have "same_others u d (d\<lparr>d_images := d_images d @ [\<lparr>g_id = n, g_receipt_id = rid, g_user_id = u,
          g_image_key = k, g_image_sha256 = sha, g_created_at = t\<rparr>]\<rparr>)" for d n t k
    by (rule others_images) simp
  ultimately show ?thesis
    unfolding insert_image_def by (intro triple_insert_acting) (auto simp: ledger_ok_def)
qed

lemma query_triple: "triple P (query f) (\<lambda>_. P)"
  by (rule triple_query)

lemma findConflict_triple: "triple P (findConflict h u prepared) (\<lambda>_. P)"
  by (induction prepared) (auto intro!: triple_bindM [OF query_triple] triple_ret triple_option)

lemma conflict_unless_triple: "triple P (conflict_unless force h u prepared) (\<lambda>_. P)"
  unfolding conflict_unless_def by (intro triple_if triple_ret findConflict_triple)

lemma receipt_is_mono: "writing h u V rid kind d \<Longrightarrow> acting h u V d \<and> (\<exists>s. (rid, u, s) \<in> rsig d)"
  by (auto simp: writing_def receipt_is_def)

lemma owns_receipt_rsig: "Some x = owns_receipt u rid d \<Longrightarrow> \<exists>s. (rid, u, s) \<in> rsig d"
  by (auto simp: rsig_def owns_receipt_def dest!: find_row_SomeD [OF sym])

lemma queue_receipt_triple:
  "triple (\<lambda>d. acting h u V d \<and> (\<exists>s. (rid, u, s) \<in> rsig d)) (queue_receipt h rid) (\<lambda>_ d. acting h u V d \<and> True)"
  unfolding queue_receipt_def
  by (intro triple_exec_acting)
     (auto simp: ledger_ok_def same_refs_def intro!: same_refs_tenant others_update_receipt [of h])

lemma new_receipt_row:
  "Inr (new_receipt n t u kind dir src st) = Inr row \<Longrightarrow> r_id row = n \<and> r_user_id row = u \<and> r_kind row = kind \<and>
     r_payment_method_id row = None \<and> r_offsets_receipt_id row = None" for row :: receipt_row
  by (auto simp: new_receipt_def)

lemma upload_insert:
  "triple (acting h u V) (insert_receipt h (\<lambda>n now. Inr (new_receipt n now u kDefaultKind dir src state)))
     (\<lambda>n d. acting h u V d \<and> (\<exists>s. (n, u, s) \<in> rsig d))"
  by (rule triple_conseq [OF insert_receipt_triple [OF new_receipt_row default_kind_known]])
     (auto dest: receipt_is_mono)

context image_store_contract
begin

lemma put_triple: "triple P (is_put st key ctype bytes) (\<lambda>_. P)"
  using put_db by (auto simp: triple_def)

lemma storeImages_triple:
  "triple (\<lambda>d. acting h u V d \<and> (\<exists>s. (rid, u, s) \<in> rsig d)) (storeImages h st u rid prepared)
     (\<lambda>_ d. acting h u V d \<and> (\<exists>s. (rid, u, s) \<in> rsig d))"
  unfolding storeImages_def storeImage_def
proof (intro triple_forM)
  fix prep
  show "triple (\<lambda>d. acting h u V d \<and> (\<exists>s. (rid, u, s) \<in> rsig d))
      (bindM (generateImageKey u rid) (\<lambda>key. bindM (is_put st key ''image/webp'' (ni_bytes (pi_normalized prep)))
         (\<lambda>_. insert_image h u rid key (pi_sha256Hex prep))))
      (\<lambda>_ d. acting h u V d \<and> (\<exists>s. (rid, u, s) \<in> rsig d))"
    by (rule triple_bindM [OF generateImageKey_triple], rule triple_bindM [OF put_triple],
        rule triple_conseq [OF insert_image_triple]) auto
qed

lemma uploadReceipt_keeps: "keeps (acting h u V) (uploadReceipt h st u images force)"
  unfolding uploadReceipt_def lockUserImages_def
proof (intro keeps_bind_pure keeps_if keeps_raise keeps_transaction)
  fix cap prepared rules
  let ?Q = "\<lambda>x d. case x of Commit _ \<Rightarrow> acting h u V d | Rollback _ \<Rightarrow> True"
  have body: "triple (acting h u V)
      (bindM (insert_receipt h (\<lambda>n now. Inr (new_receipt n now u kDefaultKind (canonical_or_empty rules) kScanned kUploaded)))
        (\<lambda>receiptId. bindM (storeImages h st u receiptId prepared) (\<lambda>_. ret (Commit (Uploaded receiptId))))) ?Q"
    by (rule triple_bindM [OF upload_insert], rule triple_bindM [OF storeImages_triple], rule triple_ret) simp
  show "triple (acting h u V)
     (bindM (query (\<lambda>_ _. ())) (\<lambda>_. bindM (conflict_unless force h u prepared) (\<lambda>conflict.
       case conflict of None \<Rightarrow>
         bindM (insert_receipt h (\<lambda>n now. Inr (new_receipt n now u kDefaultKind (canonical_or_empty rules) kScanned kUploaded)))
           (\<lambda>receiptId. bindM (storeImages h st u receiptId prepared) (\<lambda>_. ret (Commit (Uploaded receiptId))))
       | Some c \<Rightarrow> ret (Rollback (UploadConflict c))))) ?Q"
    by (rule triple_bindM [OF query_triple], rule triple_bindM [OF conflict_unless_triple],
        intro triple_option body triple_ret) simp
qed

lemma addImages_keeps: "keeps (acting h u V) (addImages h st u rid images force)"
  unfolding addImages_def lockUserImages_def
proof (rule keeps_bind_query)
  fix owned
  let ?P = "\<lambda>d. \<exists>t::instant. owned = owns_receipt u rid d"
  let ?Q = "\<lambda>x d. case x of Commit _ \<Rightarrow> acting h u V d | Rollback _ \<Rightarrow> True"
  have body: "triple (\<lambda>d. ?P d \<and> acting h u V d)
      (bindM (storeImages h st u rid prepared) (\<lambda>_. bindM (queue_receipt h rid) (\<lambda>_. ret (Commit None)))) ?Q"
    if "owned \<noteq> None" for prepared
    by (rule triple_conseq, rule triple_bindM [OF storeImages_triple],
        rule triple_bindM [OF triple_conseq [OF queue_receipt_triple]], simp, assumption, rule triple_ret)
       (use that owns_receipt_rsig in \<open>auto\<close>)
  show "keeps_pre ?P (acting h u V) (if owned = None then raise ReceiptNotFoundError else
     bindM (lift (prepareImages h images)) (\<lambda>prepared. transaction (
       bindM (query (\<lambda>_ _. ())) (\<lambda>_.
       bindM (query (\<lambda>_ d. length (filter (\<lambda>g. g_receipt_id g = rid) (d_images d)))) (\<lambda>currentCount.
       bindM (lift (maxImagesPerReceipt h)) (\<lambda>cap.
       if cap < int currentCount + int (length prepared) then raise TooManyImagesError
       else bindM (conflict_unless force h u prepared) (\<lambda>conflict.
       case conflict of
         None \<Rightarrow> bindM (storeImages h st u rid prepared) (\<lambda>_. bindM (queue_receipt h rid) (\<lambda>_. ret (Commit None)))
       | Some c \<Rightarrow> ret (Rollback (Some c)))))))))"
    by (cases "owned = None", simp add: keeps_pre_keeps keeps_raise, simp only: if_False,
        intro keeps_pre_lift keeps_pre_transaction triple_bindM [OF query_triple] triple_bind_lift triple_if
          triple_raise triple_bindM [OF conflict_unless_triple] triple_option body triple_ret) simp_all
qed

lemma deleteReceipt_keeps: "keeps (acting h u V) (deleteReceipt h st u rid)"
proof -
  have "keeps (acting h u V) (is_remove st key)" for key
    using remove_db by (auto simp: keeps_def) (metis prod.collapse)
  then have rem: "keeps (acting h u V) (forM keys (\<lambda>key. tryM (is_remove st key) (\<lambda>_. ret ())))" for keys
    by (induction keys) (auto intro: keeps_rules)
  show ?thesis
    unfolding deleteReceipt_def delete_receipt_row_def
    by (intro keeps_bindM keeps_query keeps_if keeps_ret rem keeps_exec_acting)
       (auto simp: ledger_ok_def intro!: drop_receipts_tenant drop_receipts_others [of h])
qed

end

end
