(* ===== verification/Backing.thy ===== *)
theory Backing
  imports Routes TenantOps
begin

text \<open>
  The two stores together: Postgres holds the image rows, the bucket the objects, and no transaction spans
  them. \<open>backed\<close> says that no row points at an object that is not there. The service puts an object
  before it inserts the row and removes it only after the row is gone; a rollback in between leaves
  orphaned objects at worst. \<open>grow\<close> is the step relation that makes this precise for everything but
  the deletion of a receipt, for which image keys have to be told apart.
\<close>

definition backed :: "(world \<Rightarrow> string \<Rightarrow> string option) \<Rightarrow> world \<Rightarrow> bool" where
  "backed object w \<longleftrightarrow> (\<forall>g \<in> set (d_images (w_db w)). g_image_key g \<in> dom (object w))"

definition grow :: "(world \<Rightarrow> string \<Rightarrow> string option) \<Rightarrow> world \<Rightarrow> world \<Rightarrow> bool" where
  "grow object w w' \<longleftrightarrow> dom (object w) \<subseteq> dom (object w') \<and> (backed object w \<longrightarrow> backed object w')"

section \<open>Image keys name their receipt\<close>

lemma to_string_no_slash: "CHR ''/'' \<notin> set (to_string n)"
  using nat_to_string_digits [of "nat n"] nat_to_string_digits [of "nat (- n)"]
  by (auto simp: to_string_def isdigit_def less_eq_char_def)

lemma to_string_inj: "to_string m = to_string n \<Longrightarrow> m = n"
proof -
  have dash: "CHR ''-'' \<notin> set (nat_to_string k)" for k
    using nat_to_string_digits [of k] by (auto simp: isdigit_def less_eq_char_def)
  show "to_string m = to_string n \<Longrightarrow> m = n"
    using dash [of "nat m"] dash [of "nat n"]
    by (auto simp: to_string_def split: if_splits dest!: nat_to_string_inj) (metis list.set_intros(1))+
qed

lemma split_at_slash:
  assumes "a @ CHR ''/'' # b = c @ CHR ''/'' # d" and "CHR ''/'' \<notin> set a" and "CHR ''/'' \<notin> set c"
  shows "a = c \<and> b = d"
  using assms
proof (induction a arbitrary: c)
  case Nil
  then show ?case by (cases c) auto
next
  case (Cons x a)
  then show ?case by (cases c) auto
qed

lemma image_key_receipt:
  assumes "image_key u n tok = image_key u' n' tok'"
  shows "u = u' \<and> n = n'"
proof -
  have "to_string u @ CHR ''/'' # (to_string n @ CHR ''/'' # tok @ ''.webp'') =
      to_string u' @ CHR ''/'' # (to_string n' @ CHR ''/'' # tok' @ ''.webp'')"
    using assms by (simp add: image_key_def)
  note outer = split_at_slash [OF this to_string_no_slash to_string_no_slash]
  then have "to_string n @ CHR ''/'' # (tok @ ''.webp'') = to_string n' @ CHR ''/'' # (tok' @ ''.webp'')" by simp
  from split_at_slash [OF this to_string_no_slash to_string_no_slash] outer show ?thesis
    by (auto dest: to_string_inj)
qed

section \<open>Everything but deletion\<close>

context image_store_contract
begin

lemma object_db [simp]: "object (w\<lparr>w_db := d\<rparr>) = object w" "object (tick_step w) = object w"
  "object (next_id t w) = object w" "object (w\<lparr>w_rpos := n\<rparr>) = object w" "object (rolled_back w0 w) = object w"
  by (rule object_local; simp add: tick_step_def next_id_def rolled_back_def)+

lemma insert_image_grow:
  assumes "object w key \<noteq> None"
  shows "grow object w (snd (insert_image h u n key sha w))"
  using assms unfolding insert_image_def insert_row_def attempt_def
  by (auto simp: grow_def backed_def commit_write_def split: option.splits)

lemma put_grow: "is_put st key ct bytes w = (r, w') \<Longrightarrow> grow object w w'"
  using put_extends [of key ct bytes w r w'] put_db [of key ct bytes w r w']
  unfolding grow_def backed_def by (metis subsetD)

lemma grow_trans: "grow object a b \<Longrightarrow> grow object b c \<Longrightarrow> grow object a c"
  by (auto simp: grow_def)

lemma storeImage_grow: "honours (grow object) (storeImage h st u n img)"
  unfolding honours_def
proof
  fix w :: world
  let ?key = "image_key u n (toHex (map (w_random w) [w_rpos w ..< w_rpos w + 16]))"
  let ?w1 = "w\<lparr>w_rpos := w_rpos w + 16\<rparr>"
  have key: "generateImageKey u n w = (Inr ?key, ?w1)"
    by (simp add: generateImageKey_def generateToken_def randombytes_def bindM_def ret_def)
  obtain r w2 where put: "is_put st ?key ''image/webp'' (ni_bytes (pi_normalized img)) ?w1 = (r, w2)"
    by (cases "is_put st ?key ''image/webp'' (ni_bytes (pi_normalized img)) ?w1")
  have "grow object w ?w1" by (simp add: grow_def backed_def)
  then have step: "grow object w w2" using put_grow [OF put] grow_trans by blast
  show "grow object w (snd (storeImage h st u n img w))"
  proof (cases r)
    case (Inl e)
    then show ?thesis using step by (simp add: storeImage_def bindM_def key put)
  next
    case (Inr x)
    then have "object w2 ?key \<noteq> None" using put_stores put by simp
    then show ?thesis
      using step Inr by (simp add: storeImage_def bindM_def key put grow_trans [OF step insert_image_grow])
  qed
qed

sublocale growing: route_relation "grow object" h st for h
proof unfold_locales
  show "grow object a b \<Longrightarrow> grow object b c \<Longrightarrow> grow object a c" for a b c by (rule grow_trans)
  show "grow object w w' \<Longrightarrow> grow object w (rolled_back w w')" for w w'
    unfolding grow_def backed_def object_db w_db_rolled_back by blast
  show "grow object w (w\<lparr>w_db := d'\<rparr>)" if "rows_from (w_db w) d'" for w d'
    using that by (auto simp: grow_def backed_def rows_from_def)
  show "honours (grow object) (storeImage h st u n img)" for u n img by (rule storeImage_grow)
  show "honours (grow object) (is_get st key)" for key
    unfolding honours_def grow_def backed_def by (metis get_keeps get_db order_refl prod.collapse)
qed (auto simp: grow_def backed_def)

sublocale growing_claims: claim_relation "grow object"
  by unfold_locales (simp add: grow_def backed_def)

section \<open>Deletion\<close>

lemma remove_loop:
  assumes "key' \<notin> set keys"
  shows "object (snd (forM keys (\<lambda>key. tryM (is_remove st key) (\<lambda>_. ret ())) w)) key' = object w key' \<and>
     w_db (snd (forM keys (\<lambda>key. tryM (is_remove st key) (\<lambda>_. ret ())) w)) = w_db w"
  using assms
proof (induction keys arbitrary: w)
  case Nil
  then show ?case by (simp add: ret_def)
next
  case (Cons key keys)
  obtain r w1 where run: "is_remove st key w = (r, w1)" by (cases "is_remove st key w")
  have "object w1 key' = object w key'" "w_db w1 = w_db w"
    using remove_touches_key_only [OF run] remove_db [OF run] Cons.prems by auto
  then show ?case
    using Cons.IH [of w1] Cons.prems by (cases r) (simp_all add: bindM_def tryM_def ret_def run)
qed

lemma remove_loop_db: "w_db (snd (forM keys (\<lambda>key. tryM (is_remove st key) (\<lambda>_. ret ())) w)) = w_db w"
proof -
  obtain key' where "key' \<notin> set keys" using ex_new_if_finite [OF infinite_UNIV_listI finite_set] by blast
  then show ?thesis using remove_loop by blast
qed

lemma removed_keys_differ:
  assumes ok: "tenant_ok d" and del: "r \<in> set (d_receipts d)" "r_id r = n" "r_user_id r = u"
    and g: "g \<in> set (d_images (drop_receipts (\<lambda>r. r_id r = n \<and> r_user_id r = u) d))"
  shows "g_image_key g \<notin> set (image_keys_of u n d)"
proof
  have mem: "g \<in> set (d_images d)" and other: "g_receipt_id g \<noteq> n"
    using g del by (auto simp: drop_receipts_def Let_def)
  assume "g_image_key g \<in> set (image_keys_of u n d)"
  then obtain g' where "g' \<in> set (d_images d)" "g_receipt_id g' = n" "g_image_key g' = g_image_key g"
    by (auto simp: image_keys_of_def)
  then obtain tok tok' where "image_key (g_user_id g) (g_receipt_id g) tok = image_key (g_user_id g') n tok'"
    using tenantD(4) [OF ok mem] tenantD(4) [OF ok, of g'] unfolding image_ok_def by metis
  then show False using image_key_receipt other by blast
qed

lemma deleteReceipt_backed:
  assumes ok: "ledger_ok h (w_db w)" and b: "backed object w"
  shows "backed object (snd (deleteReceipt h st u n w))"
proof -
  let ?d = "drop_receipts (\<lambda>r. r_id r = n \<and> r_user_id r = u) (w_db w)"
  let ?keys = "image_keys_of u n (w_db w)"
  have sub: "set (d_images ?d) \<subseteq> set (d_images (w_db w))" by (auto simp: drop_receipts_def Let_def)
  have kept: "backed object (snd (forM ?keys (\<lambda>key. tryM (is_remove st key) (\<lambda>_. ret ())) w2))"
    if db: "w_db w2 = ?d" and obj: "object w2 = object w" and own: "owns_receipt u n (w_db w) \<noteq> None" for w2
  proof -
    obtain r where r: "r \<in> set (d_receipts (w_db w))" "r_id r = n" "r_user_id r = u"
      using own by (auto simp: owns_receipt_def dest: find_row_SomeD)
    show ?thesis
      unfolding backed_def
    proof
      fix g assume "g \<in> set (d_images (w_db (snd (forM ?keys (\<lambda>key. tryM (is_remove st key) (\<lambda>_. ret ())) w2))))"
      moreover have "w_db (snd (forM ?keys (\<lambda>key. tryM (is_remove st key) (\<lambda>_. ret ())) w2)) = ?d"
        using remove_loop_db db by simp
      ultimately have g: "g \<in> set (d_images ?d)" by simp
      have "g_image_key g \<notin> set ?keys"
        using removed_keys_differ [OF _ r g] ok by (simp add: ledger_ok_def)
      then have "object (snd (forM ?keys (\<lambda>key. tryM (is_remove st key) (\<lambda>_. ret ())) w2)) (g_image_key g) = object w (g_image_key g)"
        using remove_loop obj by metis
      moreover have "g_image_key g \<in> dom (object w)" using b sub g unfolding backed_def by blast
      ultimately show "g_image_key g \<in> dom (object (snd (forM ?keys (\<lambda>key. tryM (is_remove st key) (\<lambda>_. ret ())) w2)))"
        by (simp add: domIff)
    qed
  qed
  obtain r w2 where del: "delete_receipt_row h u n (tick_step w) = (r, w2)"
    by (cases "delete_receipt_row h u n (tick_step w)")
  have obj: "object w2 = object w" and db: "w_db w2 = (if r = Inr (owns_receipt u n (w_db w) \<noteq> None) then ?d else w_db w)"
    using del by (auto simp: delete_receipt_row_def exec_def attempt_def commit_write_def split: option.splits)
  then have w2: "backed object w2" using b sub by (auto simp: backed_def)
  have loop: "snd (bindM m (\<lambda>_. ret True) x) = snd (m x)" for m :: "unit act" and x
    by (simp add: bindM_def ret_def split: prod.splits sum.splits)
  have ended: "snd (ret x w') = w'" for x :: bool and w' by (simp add: ret_def)
  show ?thesis
  proof (cases "w_faults w (w_step w)")
    case (Some msg)
    then show ?thesis using b by (simp add: deleteReceipt_def bindM_def query_def attempt_def backed_def)
  next
    case None
    then have "deleteReceipt h st u n w = (case r of Inl e \<Rightarrow> (Inl e, w2) | Inr deleted \<Rightarrow>
        (if \<not> deleted then ret False
         else bindM (forM ?keys (\<lambda>key. tryM (is_remove st key) (\<lambda>_. ret ()))) (\<lambda>_. ret True)) w2)"
      by (simp add: deleteReceipt_def bindM_def query_def attempt_def del split: sum.splits)
    then show ?thesis
      using w2 kept [OF _ obj] del db
      by (auto simp: ended loop delete_receipt_row_def exec_Inr split: sum.splits)
  qed
qed

end

end
