(* ===== verification/Pipeline.thy ===== *)
theory Pipeline
  imports TenantOps RowSteps
begin

text \<open>
  What a tick of the scan worker keeps. The locale \<open>scan_pipeline\<close> states what the pipeline needs of
  a relation between worlds: the worker's collaborators and its statements honour it, and the
  result of a scan is written under a claim that its receipt's owner holds. Its interpretation
  on the ledger invariant rests on claims staying owned (\<open>row_step\<close>) while the provider and
  the matcher run, whatever other requests do meanwhile.
\<close>

section \<open>The interface\<close>

locale scan_pipeline = step_preorder R for R :: "world \<Rightarrow> world \<Rightarrow> bool" +
  fixes h :: host and sw :: ScanWorker and inv :: "world \<Rightarrow> bool" and owned :: "Claim \<Rightarrow> world \<Rightarrow> bool"
  assumes provider_R: "honours R (sw_provider sw images ctx)"
    and matcher_R: "honours R (sw_matcher sw a b)"
    and notifier_R: "honours R (sw_notifier sw u event payload)"
    and get_R: "honours R (is_get (sw_store sw) key)"
    and inv_stable: "inv w \<Longrightarrow> R w w' \<Longrightarrow> inv w'"
    and owned_stable: "owned c w \<Longrightarrow> R w w' \<Longrightarrow> owned c w'"
    and write_R: "owned c w \<Longrightarrow> R w (snd (write_result h c res tx before m w))"
    and spend_R: "honours R (spend_failure h c e cap)"
    and reclaim_R: "honours R (reclaim_rows h cfg)"
    and claim_R: "honours R (claim_receipts h cfg clock)"
    and claims_owned: "inv w \<Longrightarrow> claim_receipts h cfg clock w = (Inr cs, w') \<Longrightarrow> c \<in> set cs \<Longrightarrow> owned c w'"
begin

text \<open>The relation from the worlds in which \<open>c\<close> is owned is a preorder of steps again, and so is the relation
  from the worlds of the invariant.\<close>

sublocale safe: step_preorder "\<lambda>w w'. inv w \<longrightarrow> R w w'"
proof unfold_locales
  show "inv x \<longrightarrow> R x z" if "inv x \<longrightarrow> R x y" "inv y \<longrightarrow> R y z" for x y z
    using that inv_stable R_trans by blast
qed (auto intro: R_refl R_tick)

sublocale mine: step_preorder "\<lambda>w w'. owned c w \<longrightarrow> R w w'" for c
proof unfold_locales
  show "owned c x \<longrightarrow> R x z" if "owned c x \<longrightarrow> R x y" "owned c y \<longrightarrow> R y z" for x y z
    using that owned_stable R_trans by blast
qed (auto intro: R_refl R_tick)

lemma mine_of: "honours R m \<Longrightarrow> honours (\<lambda>w w'. owned c w \<longrightarrow> R w w') m"
  by (simp add: honours_def)

lemma write_mine: "honours (\<lambda>w w'. owned c w \<longrightarrow> R w w') (write_result h c res tx before m)"
  by (simp add: honours_def write_R)

lemmas mine_rules = mine.preorder_rules honours_option honours_if write_mine
  mine_of [OF provider_R] mine_of [OF matcher_R] mine_of [OF notifier_R] mine_of [OF get_R] mine_of [OF spend_R]

lemma compare_mine: "honours (\<lambda>w w'. owned c w \<longrightarrow> R w w') (compare_verify sw res before)"
  unfolding compare_verify_def merchant_matches_def Let_def by (intro mine_rules)

lemma attempts_mine: "honours (\<lambda>w w'. owned c w \<longrightarrow> R w w') (apply_attempts n h sw c res tx)"
proof (induction n)
  case 0
  then show ?case by (simp add: mine.honours_raise)
next
  case (Suc n)
  then show ?case
    unfolding apply_attempts.simps readSnapshot_def
    by (intro mine_rules compare_mine) (auto split: attempt_result.split intro: mine.honours_ret)
qed

lemma scan_claim_mine: "honours (\<lambda>w w'. owned c w \<longrightarrow> R w w') (scan_claim h sw c)"
  unfolding scan_claim_def readSnapshot_def image_keys_def loadTaxonomy_def applyResult_def Let_def
  by (intro mine_rules attempts_mine)

lemma recordFailure_mine: "honours (\<lambda>w w'. owned c w \<longrightarrow> R w w') (recordFailure h sw c e t msg)"
  unfolding recordFailure_def notifyScanFailed_def by (intro mine_rules)

lemma process_mine: "honours (\<lambda>w w'. owned c w \<longrightarrow> R w w') (process h sw c)"
  unfolding process_def case_prod_beta by (intro mine_rules scan_claim_mine recordFailure_mine)

lemma reclaimStuck_R: "honours R (reclaimStuck h sw)"
  unfolding reclaimStuck_def notifyScanFailed_def
  by (intro preorder_rules honours_if reclaim_R notifier_R)

lemma scans_R:
  assumes "\<And>c. c \<in> set cs \<Longrightarrow> owned c w"
  shows "R w (snd (forM cs (process h sw) w))"
  using assms
proof (induction cs arbitrary: w)
  case Nil
  then show ?case by (simp add: ret_def R_refl)
next
  case (Cons c cs)
  obtain r w1 where run: "process h sw c w = (r, w1)" by (cases "process h sw c w")
  then have step: "R w w1" using process_mine [of c] Cons.prems [of c] unfolding honours_def by (metis list.set_intros(1) snd_conv)
  have "R w1 (snd (forM cs (process h sw) w1))"
    using Cons.prems owned_stable [OF _ step] by (intro Cons.IH) auto
  then show ?case using step by (auto simp: bindM_def run split: sum.splits intro: R_trans)
qed

lemma claim_and_scan_R:
  assumes "inv w"
  shows "R w (snd (bindM (claim_receipts h cfg clock)
      (\<lambda>claims. bindM (forM claims (process h sw)) (\<lambda>_. ret (length claims))) w))"
proof (cases "claim_receipts h cfg clock w")
  case (Pair r w1)
  have step: "R w w1" using claim_R [of cfg clock] Pair unfolding honours_def by (metis snd_conv)
  show ?thesis
  proof (cases r)
    case (Inl e)
    then show ?thesis using step Pair by (simp add: bindM_def)
  next
    case (Inr cs)
    have "R w1 (snd (forM cs (process h sw) w1))"
      using claims_owned [OF assms Pair [unfolded Inr]] by (rule scans_R)
    then show ?thesis
      using step Pair Inr by (auto simp: bindM_def ret_def split: sum.splits prod.splits intro: R_trans)
  qed
qed

lemma tick_R: "inv w \<Longrightarrow> R w (snd (tick h sw clock w))"
proof -
  have "honours (\<lambda>w w'. inv w \<longrightarrow> R w w') (bindM (claim_receipts h (sw_config sw) clock)
      (\<lambda>claims. bindM (forM claims (process h sw)) (\<lambda>_. ret (length claims))))"
    by (simp add: honours_def claim_and_scan_R)
  note scans = this
  have reclaim: "honours (\<lambda>w w'. inv w \<longrightarrow> R w w') (reclaimStuck h sw)"
    using reclaimStuck_R by (simp add: honours_def)
  have "honours (\<lambda>w w'. inv w \<longrightarrow> R w w') (tick h sw clock)"
    unfolding tick_def
    by (rule safe.honours_tryM [OF safe.honours_bindM [OF reclaim scans] safe.honours_ret])
  then show "inv w \<Longrightarrow> R w (snd (tick h sw clock w))" by (simp add: honours_def)
qed

end

section \<open>Writing a result keeps the ledger\<close>

lemma drop_items_violation:
  assumes "violation h d = None"
  shows "violation h (drop_items P d) = None"
proof -
  have d: "\<not> check_violation d" "\<not> unique_violation h d" "\<not> fk_violation d"
    using assms by (simp_all add: violation_None)
  have "\<not> check_violation (drop_items P d)" using d(1) by (simp add: check_violation_def drop_items_def)
  moreover have "\<not> unique_violation h (drop_items P d)"
    using d(2) by (simp add: unique_violation_def drop_items_def distinct_map_filter)
  moreover have "\<not> fk_violation (drop_items P d)"
    using d(3) by (auto simp: fk_violation_def drop_items_def list_all_iff user_ids_def)
  ultimately show ?thesis by (simp add: violation_None)
qed

definition stripped :: "int \<Rightarrow> db \<Rightarrow> db" where
  "stripped rid d = drop_items (\<lambda>i. i_receipt_id i = rid) d"

text \<open>Between the two statements of an extraction only the receipt's old items may be on the wrong side.\<close>

definition extracting :: "host \<Rightarrow> int \<Rightarrow> (int \<Rightarrow> category_row list \<times> tag_row list \<times> payment_method_row list \<times> receipt_row list \<times>
     image_row list \<times> item_row list \<times> (int \<times> int) list) \<Rightarrow> int \<Rightarrow> string \<Rightarrow> db \<Rightarrow> bool" where
  "extracting h u V rid kind d \<longleftrightarrow>
     tenant_ok (stripped rid d) \<and> receipt_is u rid kind d \<and> ids_ok d \<and> (\<forall>v. v \<noteq> u \<longrightarrow> view v d = V v)"

lemma stripped_receipts [simp]:
  "stripped rid (d\<lparr>d_receipts := rs\<rparr>) = (stripped rid d)\<lparr>d_receipts := rs\<rparr>" "d_receipts (stripped rid d) = d_receipts d"
  by (simp_all add: stripped_def drop_items_def)

lemma rsig_stripped [simp]: "rsig (stripped rid d) = rsig d"
  by (simp add: rsig_def)

lemma psig_stripped [simp]: "psig (stripped rid d) = psig d"
  by (simp add: psig_def stripped_def drop_items_def)

lemma item_sides_stripped: "item_sides rid (stripped rid d) = []"
  by (simp add: item_sides_def stripped_def drop_items_def filter_empty_conv)

lemma snapshot_row:
  assumes "snapshot_of c d = Some s" and "\<forall>r \<in> set (d_receipts d). r_id r = cl_receiptId c \<longrightarrow> r_user_id r = cl_userId c"
  obtains r where "r \<in> set (d_receipts d)" "r_id r = cl_receiptId c" "r_user_id r = cl_userId c"
    "s = rowToSnapshot d r"
  using assms by (auto simp: snapshot_of_def claimed_row_def dest!: find_row_SomeD)

lemma update_where_cong:
  assumes "\<And>x. x \<in> set xs \<Longrightarrow> P x \<Longrightarrow> f x = g x"
  shows "update_where P f xs = update_where P g xs"
  using assms by (simp add: update_where_def)

lemma extract_tenant:
  assumes ok: "ledger_ok h d" and r: "r \<in> set (d_receipts d)" "r_id r = rid" "r_user_id r = u"
    and offs: "offs = r_offsets_receipt_id r \<or> offs = None"
  shows "tenant_ok (stripped rid (d\<lparr>d_receipts := update_where (\<lambda>x. r_id x = rid)
      (extract_row res dir tax offs pdate raw now) (d_receipts d)\<rparr>))"
proof -
  let ?e = "(rowToEditable r)\<lparr>er_kind := sr_kind res, er_offsetsReceiptId := offs\<rparr>"
  let ?f = "\<lambda>x. (extract_row res dir tax offs pdate raw now x)\<lparr>r_payment_method_id := r_payment_method_id r\<rparr>"
  have v: "violation h d = None" and t: "tenant_ok d" using ok by (simp_all add: ledger_ok_def)
  have sig: "(rid, u, income_kind (r_kind r)) \<in> rsig d" using r by (auto simp: rsig_def)
  have ed: "editing h u rid ?e (stripped rid d)"
    unfolding editing_def
  proof (intro conjI)
    show "ledger_ok h (stripped rid d)"
      unfolding ledger_ok_def stripped_def using drop_items_violation [OF v] drop_items_tenant [OF t] by simp
    show "\<forall>p. er_paymentMethodId ?e = Some p \<longrightarrow> (p, u) \<in> psig (stripped rid d)"
      using tenantD(3) [OF t r(1)] r(3) by (auto simp: rowToEditable_def receipt_ok_def)
    show "\<forall>q. er_offsetsReceiptId ?e = Some q \<longrightarrow> (\<exists>s. (q, u, s) \<in> rsig (stripped rid d))"
      using tenantD(3) [OF t r(1)] r(3) offs by (auto simp: receipt_ok_def)
    show "(rid, u, income_kind (er_kind ?e)) \<in> rsig (stripped rid d) \<or>
        (\<exists>s. (rid, u, s) \<in> rsig (stripped rid d)) \<and>
        \<not> (\<exists>s \<in> set (item_sides rid (stripped rid d)). s \<noteq> income_kind (er_kind ?e))"
      using sig by (auto simp: item_sides_stripped)
  qed
  have "x = r" if "x \<in> set (d_receipts d)" "r_id x = rid" for x
    using inj_onD [OF unique_ids(1) [OF v]] that r by blast
  then have same: "update_where (\<lambda>x. r_id x = rid) (extract_row res dir tax offs pdate raw now) (d_receipts d) =
      update_where (\<lambda>x. r_id x = rid) ?f (d_receipts (stripped rid d))"
    by (auto intro!: update_where_cong simp: extract_row_def)
  show ?thesis
    unfolding stripped_receipts(1) same
    by (rule edit_tenant [OF ed]) (simp add: extract_row_def rowToEditable_def)
qed

lemma update_extracted_triple:
  assumes r: "\<And>d. P d \<Longrightarrow> acting h u V d \<and> (\<exists>r \<in> set (d_receipts d). r_id r = cl_receiptId c \<and>
      r_user_id r = u \<and> (offs = r_offsets_receipt_id r \<or> offs = None))"
    and known: "findKind (sr_kind res) \<noteq> None"
  shows "triple P (update_extracted h c res dir tax offs) (\<lambda>_. extracting h u V (cl_receiptId c) (sr_kind res))"
  unfolding update_extracted_def
proof (rule triple_exec)
  fix t d d' x
  assume P: "P d" and v: "violation h d' = None" and run: "rbind (h_jsonb h (sr_raw res)) (\<lambda>raw. rbind (sql_date h (sr_purchaseDate res)) (\<lambda>pdate.
      Inr (d\<lparr>d_receipts := update_where (\<lambda>r. r_id r = cl_receiptId c) (extract_row res dir tax offs pdate raw t)
         (d_receipts d)\<rparr>, ()))) = Inr (d', x)"
  then obtain raw pdate where d': "d' = d\<lparr>d_receipts := update_where (\<lambda>r. r_id r = cl_receiptId c)
      (extract_row res dir tax offs pdate raw t) (d_receipts d)\<rparr>"
    by (auto simp: rbind_eq_Inr)
  obtain r where row: "r \<in> set (d_receipts d)" "r_id r = cl_receiptId c" "r_user_id r = u"
      "offs = r_offsets_receipt_id r \<or> offs = None" and ok: "ledger_ok h d" and others: "\<forall>v. v \<noteq> u \<longrightarrow> view v d = V v"
    using r [OF P] unfolding acting_def by blast
  have "extract_row res dir tax offs pdate raw t r \<in> set (d_receipts d')"
    unfolding d' using update_where_hit [OF row(1), of "\<lambda>r. r_id r = cl_receiptId c"] row(2) by simp
  then have "receipt_is u (cl_receiptId c) (sr_kind res) d'"
    using row known unfolding receipt_is_def rsig_def
    by (auto simp: extract_row_def intro: rev_image_eqI)
  moreover have "tenant_ok (stripped (cl_receiptId c) d')"
    unfolding d' by (rule extract_tenant [OF ok row])
  moreover have "(cl_receiptId c, u, income_kind (r_kind r)) \<in> rsig d" using row by (force simp: rsig_def)
  then have "same_others u d d'"
    unfolding d' by (rule others_update_receipt [OF ok]) (simp add: extract_row_def)
  ultimately show "extracting h u V (cl_receiptId c) (sr_kind res) d'"
    using others violation_ids [OF v] by (simp add: extracting_def same_others_def)
qed

lemma delete_items_triple:
  "triple (extracting h u V rid kind) (delete_items h rid) (\<lambda>_. writing h u V rid kind)"
  unfolding delete_items_def
proof (rule triple_exec)
  fix t d d' x
  assume P: "extracting h u V rid kind d" and v: "violation h d' = None"
    and run: "Inr (drop_items (\<lambda>i. i_receipt_id i = rid) d, ()) = Inr (d', x)"
  have d': "d' = stripped rid d" using run by (simp add: stripped_def)
  have "same_others u d d'"
    unfolding d' stripped_def
    by (rule drop_items_others) (use P in \<open>auto simp: extracting_def receipt_is_def owned_rsig\<close>)
  then show "writing h u V rid kind d'"
    using P v by (simp add: d' writing_def acting_def extracting_def ledger_ok_def receipt_is_def same_others_def)
qed

lemma scanned_items_triple:
  assumes "findKind kind \<noteq> None"
  shows "triple (writing h (cl_userId c) V (cl_receiptId c) kind) (insertScannedItems h c kind items tx)
     (\<lambda>_. writing h (cl_userId c) V (cl_receiptId c) kind)"
  unfolding insertScannedItems_def insertScannedItem_def
  by (intro triple_forM triple_bind_lift triple_bindM [OF item_insert_triple [OF assms]] triple_ret) simp

definition held :: "Claim \<Rightarrow> db \<Rightarrow> bool" where
  "held c d \<longleftrightarrow> (\<forall>r \<in> set (d_receipts d). r_id r = cl_receiptId c \<longrightarrow> r_user_id r = cl_userId c)"

lemma writeExtraction_triple:
  "triple (\<lambda>d. acting h (cl_userId c) V d \<and> held c d \<and> Some s = snapshot_of c d) (writeExtraction h c res tx s)
     (\<lambda>_. acting h (cl_userId c) V)"
proof -
  have row: "\<exists>r \<in> set (d_receipts d). r_id r = cl_receiptId c \<and> r_user_id r = cl_userId c \<and>
      ((if kr_canOffset rules then sn_offsetsReceiptId s else None) = r_offsets_receipt_id r \<or>
       (if kr_canOffset rules then sn_offsetsReceiptId s else None) = None)"
    if mine: "held c d" and snap: "Some s = snapshot_of c d" for d rules
  proof -
    obtain r where "r \<in> set (d_receipts d)" "r_id r = cl_receiptId c" "r_user_id r = cl_userId c" "s = rowToSnapshot d r"
      using snapshot_row [OF snap [symmetric] mine [unfolded held_def]] by blast
    then show ?thesis by (intro bexI [of _ r]) (simp_all add: rowToSnapshot_def)
  qed
  have known: "rulesFor kind = Inr rules \<Longrightarrow> findKind kind \<noteq> None" for kind rules
    by (auto simp: rulesFor_def split: option.splits)
  have "triple (\<lambda>d. acting h (cl_userId c) V d \<and> held c d \<and> Some s = snapshot_of c d)
      (update_extracted h c res (canonical_or_empty rules) (sn_taxDeductible s \<and> kr_allowsTaxDeductible rules)
         (if kr_canOffset rules then sn_offsetsReceiptId s else None))
      (\<lambda>_. extracting h (cl_userId c) V (cl_receiptId c) (sr_kind res))" if "rulesFor (sr_kind res) = Inr rules" for rules
    by (rule update_extracted_triple [OF _ known [OF that]]) (use row in blast)
  then show ?thesis
    unfolding writeExtraction_def
    by (intro triple_bind_lift triple_bindM [OF _ triple_bindM [OF delete_items_triple triple_conseq [OF scanned_items_triple]]])
       (auto simp: writing_def dest: known)
qed

lemma update_verified_triple:
  "triple (\<lambda>d. acting h (cl_userId c) V d \<and> (cl_receiptId c, cl_userId c, s) \<in> rsig d) (update_verified h c res m)
     (\<lambda>_ d. acting h (cl_userId c) V d \<and> (cl_receiptId c, cl_userId c, s) \<in> rsig d)"
  unfolding update_verified_def
proof (rule triple_exec)
  fix t d d' x
  assume P: "acting h (cl_userId c) V d \<and> (cl_receiptId c, cl_userId c, s) \<in> rsig d" and v: "violation h d' = None"
    and run: "rbind (h_jsonb h (sr_raw res)) (\<lambda>raw. rbind (sql_date h (sr_purchaseDate res)) (\<lambda>pdate.
      Inr (d\<lparr>d_receipts := update_where (\<lambda>r. r_id r = cl_receiptId c) (verify_row res pdate raw m t)
         (d_receipts d)\<rparr>, ()))) = Inr (d', x)"
  then obtain raw pdate where d': "d' = d\<lparr>d_receipts := update_where (\<lambda>r. r_id r = cl_receiptId c)
      (verify_row res pdate raw m t) (d_receipts d)\<rparr>"
    by (auto simp: rbind_eq_Inr)
  have "same_refs (verify_row res pdate raw m t)" by (simp add: same_refs_def verify_row_def)
  then have "tenant_ok d'" unfolding d' using P by (intro same_refs_tenant) (auto simp: acting_def ledger_ok_def)
  moreover have "same_others (cl_userId c) d d'"
    unfolding d' using P by (intro others_update_receipt [of h]) (auto simp: verify_row_def)
  moreover have "rsig d' = rsig d"
    unfolding d' rsig_def by (simp, rule image_update_where) (simp add: verify_row_def)
  ultimately show "acting h (cl_userId c) V d' \<and> (cl_receiptId c, cl_userId c, s) \<in> rsig d'" 
    using P v acting_step [of h "cl_userId c" V d d'] by (simp add: ledger_ok_def)
qed

lemma writeVerify_triple:
  "triple (\<lambda>d. acting h (cl_userId c) V d \<and> held c d \<and> Some s = snapshot_of c d) (writeVerify h c res tx s m) (\<lambda>_. acting h (cl_userId c) V)"
proof -
  let ?W = "writing h (cl_userId c) V (cl_receiptId c) (sn_kind s)"
  have pre: "findKind (sn_kind s) \<noteq> None \<and> (cl_receiptId c, cl_userId c, income_kind (sn_kind s)) \<in> rsig d"
    if ok: "acting h (cl_userId c) V d" and mine: "held c d" and snap: "Some s = snapshot_of c d" for d
  proof -
    obtain r where r: "r \<in> set (d_receipts d)" "r_id r = cl_receiptId c" "r_user_id r = cl_userId c" "s = rowToSnapshot d r"
      using snapshot_row [OF snap [symmetric] mine [unfolded held_def]] by blast
    then show ?thesis
      using receipt_kind_known [of h d r] ok by (force simp: acting_def ledger_ok_def rowToSnapshot_def rsig_def)
  qed
  have "triple ?W (if sn_itemCount s = 0 then insertScannedItems h c (sn_kind s) (sr_items res) tx else ret ())
      (\<lambda>_. acting h (cl_userId c) V)" if "findKind (sn_kind s) \<noteq> None"
    by (intro triple_if triple_conseq [OF scanned_items_triple [OF that]] triple_ret) (auto simp: writing_def)
  note items = this
  have update: "triple (\<lambda>d. acting h (cl_userId c) V d \<and> held c d \<and> Some s = snapshot_of c d) (update_verified h c res m) (\<lambda>_. ?W)"
    if known: "findKind (sn_kind s) \<noteq> None"
    by (rule triple_conseq [OF update_verified_triple])
       (use pre known in \<open>auto simp only: writing_def receipt_is_def\<close>)
  show ?thesis
    unfolding writeVerify_def
    by (rule triple_pure [where c = "findKind (sn_kind s) \<noteq> None"], use pre in blast)
       (rule triple_bindM [OF update items])
qed

lemma write_result_keeps: "keeps_pre (held c) (acting h (cl_userId c) V) (write_result h c res tx b m)"
proof -
  have body: "triple (\<lambda>d. (held c d \<and> acting h (cl_userId c) V d) \<and> (\<exists>t::instant. Some s = snapshot_of c d))
      (bindM (if sn_reviewed s then writeVerify h c res tx s m else writeExtraction h c res tx s) (\<lambda>_. ret (Commit Written)))
      (\<lambda>x d. case x of Commit _ \<Rightarrow> acting h (cl_userId c) V d | Rollback _ \<Rightarrow> True)" for s
    by (intro triple_bindM [where Q = "\<lambda>_. acting h (cl_userId c) V"] triple_if triple_conseq [OF writeVerify_triple]
        triple_conseq [OF writeExtraction_triple] triple_ret) auto
  show ?thesis
    unfolding write_result_def readSnapshot_def
  proof (intro keeps_pre_transaction triple_bind_query triple_option triple_if)
    fix x :: "Snapshot option" and s assume "x = Some s"
    then show "triple (\<lambda>d. (held c d \<and> acting h (cl_userId c) V d) \<and> (\<exists>t::instant. x = snapshot_of c d))
        (bindM (if sn_reviewed s then writeVerify h c res tx s m else writeExtraction h c res tx s) (\<lambda>_. ret (Commit Written)))
        (\<lambda>x d. case x of Commit _ \<Rightarrow> acting h (cl_userId c) V d | Rollback _ \<Rightarrow> True)" using body by (simp only:)
  qed (rule triple_ret, simp)+
qed

lemma write_result_ledger: "keeps_pre (held c) (ledger_ok h) (write_result h c res tx b m)"
  unfolding keeps_pre_def
proof (intro allI impI)
  fix w :: world assume "held c (w_db w)" "ledger_ok h (w_db w)"
  then show "ledger_ok h (w_db (snd (write_result h c res tx b m w)))"
    using write_result_keeps [of c h "\<lambda>v. view v (w_db w)" res tx b m] by (auto simp: keeps_pre_def acting_def)
qed

section \<open>The ledger as a step relation\<close>

text \<open>Ids below the sequence: a claim cannot come to name another user's new receipt.\<close>

definition ids_below :: "world \<Rightarrow> bool" where
  "ids_below w \<longleftrightarrow> (\<forall>r \<in> set (d_receipts (w_db w)). r_id r < w_seq w Receipts)"

definition claim_held :: "Claim \<Rightarrow> world \<Rightarrow> bool" where
  "claim_held c w \<longleftrightarrow> cl_receiptId c < w_seq w Receipts \<and> held c (w_db w)"

definition ledger_step :: "host \<Rightarrow> world \<Rightarrow> world \<Rightarrow> bool" where
  "ledger_step h w w' \<longleftrightarrow> row_step w w' \<and> (ledger_ok h (w_db w) \<longrightarrow> ledger_ok h (w_db w'))"

lemma ids_below_stable: "ids_below w \<Longrightarrow> row_step w w' \<Longrightarrow> ids_below w'"
  unfolding ids_below_def row_step_def by fastforce

lemma claim_held_stable: "claim_held c w \<Longrightarrow> row_step w w' \<Longrightarrow> claim_held c w'"
  unfolding claim_held_def held_def row_step_def by fastforce

interpretation ledger: step_relation "ledger_step h" for h
  by unfold_locales
     (auto simp: ledger_step_def row.R_refl row.R_tick row.R_rollback intro: row.R_trans)

lemma ledger_stepI:
  assumes "honours row_step m" and "keeps (ledger_ok h) m"
  shows "honours (ledger_step h) m"
  using assms by (simp add: honours_def keeps_def ledger_step_def)

lemma same_refs_keeps:
  assumes "\<And>t. same_refs (f t)"
  shows "keeps (ledger_ok h) (exec h (\<lambda>t d. Inr (d\<lparr>d_receipts := update_where (P t d) (f t) (d_receipts d)\<rparr>, y t d)))"
  by (intro keeps_exec_ledger) (auto intro: same_refs_tenant [OF _ assms])

lemma fail_row_same_refs: "same_refs (fail_row e cap)"
  by (simp add: same_refs_def fail_row_def)

lemma claims_are_held:
  assumes "ids_below w" and "claim_receipts h cfg clock w = (Inr cs, w')" and "c \<in> set cs"
    and "ledger_ok h (w_db w)"
  shows "claim_held c w'"
proof -
  have run: "w_seq w' = w_seq w" "\<exists>hit. d_receipts (w_db w') = update_where hit (claim_row clock) (d_receipts (w_db w))"
    "\<exists>r \<in> set (d_receipts (w_db w)). c = claim_of clock r" "violation h (w_db w') = None"
    using assms(2,3) by (auto simp: claim_receipts_def exec_def attempt_def commit_write_def tick_step_def Let_def
        split: option.splits)
  then obtain hit r where d': "d_receipts (w_db w') = update_where hit (claim_row clock) (d_receipts (w_db w))"
    and r: "r \<in> set (d_receipts (w_db w))" "c = claim_of clock r" by blast
  have "r_user_id x = r_user_id r" if mem: "x \<in> set (d_receipts (w_db w'))" and same: "r_id x = r_id r" for x
  proof -
    obtain x0 where "x0 \<in> set (d_receipts (w_db w))" "r_id x = r_id x0" "r_user_id x = r_user_id x0"
      using mem unfolding d' by (force simp: update_where_def claim_row_def split: if_splits)
    then show ?thesis
      using same r inj_onD [OF unique_ids(1)] assms(4) unfolding ledger_ok_def by metis
  qed
  then show ?thesis
    using assms(1) r run(1) by (auto simp: claim_held_def held_def claim_of_def ids_below_def)
qed

end
