(* ===== verification/Prompt.thy ===== *)
theory Prompt
  imports Kinds
begin

text \<open>
  The system prompt of the Anthropic adapter (\<open>systemPrompt\<close> and \<open>kindNamesFor\<close> of
  \<^verbatim>\<open>src/src/scan/AnthropicScanProvider.cpp\<close>): fixed texts around what the kind table says of
  each kind the scanner classifies.
\<close>

definition kindNamesFor :: "bool \<Rightarrow> string" where
  "kindNamesFor incomeCategories =
     foldl (\<lambda>out rules.
       if scannable rules \<and> kr_usesIncomeCategories rules = incomeCategories
       then out @ (if out = [] then [] else '', '') @ kr_name rules else out) [] kKinds"

definition prompt_kinds :: string where
  "prompt_kinds = concat (map (\<lambda>rules. ''- '' @ kr_name rules @ '': '' @ kr_scanDocuments rules @ ''.'' @ [CHR 0x0A])
     (filter scannable kKinds))"

definition prompt_totals :: string where
  "prompt_totals = concat (map (\<lambda>rules. '' For '' @ kr_name rules @ '', '' @ kr_scanTotal rules @ ''.'')
     (filter scannable kKinds))"

definition prompt_extraRules :: string where
  "prompt_extraRules = concat (map (\<lambda>rules.
       if kr_scanRules rules = [] then []
       else [CHR 0x0A] @ ''For '' @ kr_name rules @ '':'' @ [CHR 0x0A] @ ''- '' @ kr_scanRules rules @ [CHR 0x0A])
     (filter scannable kKinds))"

definition prompt_intro :: string where
  "prompt_intro =
   ''You extract structured data from photos of financial documents for a personal spending and '' @
   ''income ledger.'' @
   [CHR 0x0A] @
   [CHR 0x0A] @
   ''The user message contains one or more images followed by instructions. All the images belong '' @
   ''to ONE transaction: for example two overlapping photos of one long receipt, or a receipt plus '' @
   ''a screenshot of an email correcting it. Return one result for the transaction.'' @
   [CHR 0x0A] @
   [CHR 0x0A] @
   ''Several images:'' @
   [CHR 0x0A] @
   ''- They may overlap. Count each line item once.'' @
   [CHR 0x0A] @
   ''- If they conflict, prefer the clearer reading, and prefer a later correction over the figure '' @
   ''it corrects.'' @
   [CHR 0x0A] @
   [CHR 0x0A] @
   ''Transaction kind, when you are asked to classify it, by the type of document shown:'' @
   [CHR 0x0A]"

definition prompt_fields :: string where
  "prompt_fields =
   [CHR 0x0A] @
   ''Fields:'' @
   [CHR 0x0A] @
   ''- total: the amount that actually changed hands, as a positive number in the main currency '' @
   ''unit, exactly as printed (23.50, not 2350).''"

definition prompt_items :: string where
  "prompt_items =
   [CHR 0x0A] @
   ''- subtotal: the printed subtotal (the lines' sum, before whole-transaction discounts, surcharges '' @
   ''and tips), as printed. Null if no subtotal is printed.'' @
   [CHR 0x0A] @
   ''- currency: the ISO 4217 code shown by the symbol, text, address or country (e.g. '' @
   [CHR 0x22] @
   ''$'' @
   [CHR 0x22] @
   '' on an Australian receipt is AUD, '' @
   [CHR 0x22] @
   [CHR 0xC2] @
   [CHR 0xA5] @
   [CHR 0x22] @
   '' in Japan is JPY). Use AUD only when the documents give no signal.'' @
   [CHR 0x0A] @
   ''- merchant: the short brand name a person would use for the business, e.g. '' @
   [CHR 0x22] @
   ''Woolworths'' @
   [CHR 0x22] @
   '', '' @
   [CHR 0x22] @
   ''Bunnings'' @
   [CHR 0x22] @
   '', '' @
   [CHR 0x22] @
   ''McDonald's'' @
   [CHR 0x22] @
   '', not the legal entity or branch.'' @
   [CHR 0x0A] @
   ''- store_name_raw: the business name exactly as printed at the top, including any branch or '' @
   ''store number, e.g. '' @
   [CHR 0x22] @
   ''WOOLWORTHS METRO 1234 SYDNEY'' @
   [CHR 0x22] @
   ''. Null if no name is printed.'' @
   [CHR 0x0A] @
   ''- purchase_date: the transaction date as YYYY-MM-DD. Read ambiguous numeric dates day-first '' @
   ''(03/04/2026 is 3 April 2026) unless the document is from a country that writes month-first. '' @
   ''Null if no date is printed.'' @
   [CHR 0x0A] @
   ''- unreadable_reason: null normally. If the images don't show one of the document types above, '' @
   ''or the total cannot be read (too blurry, cut off), a short reason; still fill in what you '' @
   ''can.'' @
   [CHR 0x0A] @
   [CHR 0x0A] @
   ''Items (the transaction's lines):'' @
   [CHR 0x0A] @
   ''- amount: the line's total as a positive number, as printed.'' @
   [CHR 0x0A] @
   ''- quantity and unit_price: the numbers printed for the line, or null when the line doesn't '' @
   ''print them.'' @
   [CHR 0x0A] @
   ''- The same product on several lines at the same price is one item, with the combined quantity '' @
   ''and amount.'' @
   [CHR 0x0A] @
   ''- Check that the item amounts add up to the subtotal (or the total, if no subtotal is printed). '' @
   ''If they don't, re-read them: printed amounts are not always on the same line as their item.'' @
   [CHR 0x0A] @
   ''- A discount on one line reduces that line's amount. Do not add items for whole-transaction '' @
   ''discounts, loyalty savings, rounding, subtotal, tax/GST, total, payment or change lines.'' @
   [CHR 0x0A] @
   ''- A surcharge, service fee, delivery fee or tip is an item, with the category of what it was '' @
   ''charged on (if that spans several categories, the one with the largest amount).'' @
   [CHR 0x0A] @
   ''- category: pick from the given categories for the transaction's kind (expense categories '' @
   ''for ''"

definition prompt_income :: string where
  "prompt_income =
   ''; income categories for ''"

definition prompt_tags :: string where
  "prompt_tags =
   ''). Null if none fits.'' @
   [CHR 0x0A] @
   ''- tags: only from the given tag list, and only when one clearly applies. Usually empty.'' @
   [CHR 0x0A] @
   ''- informational: false, unless a kind's rules below say otherwise.'' @
   [CHR 0x0A]"

definition prompt_end :: string where
  "prompt_end =
   [CHR 0x0A] @
   ''Never invent values that are not on the documents, apart from the currency default.''"


definition systemPrompt :: string where
  "systemPrompt =
     prompt_intro @ prompt_kinds @ prompt_fields @ prompt_totals @
     prompt_items @ kindNamesFor False @ prompt_income @ kindNamesFor True @ prompt_tags @ prompt_extraRules @ prompt_end"

text \<open>The two lists of kinds split the scannable kinds by the side of their categories.\<close>

lemma kindNamesFor_eq:
  "kindNamesFor False = ''purchase, refund, reimbursement''" "kindNamesFor True = ''income''"
  by (simp_all add: kindNamesFor_def kKinds_def scannable_def)

end
