(* ===== verification/DoubleArith.thy ===== *)
theory DoubleArith
  imports Double
begin

text \<open>
  Sums, quotients and \<open>std::clamp\<close> on doubles, and the fact the money code rests on: an amount
  printed with two decimals, read as the nearest double, is the right number of cents after
  \<open>llround(amount * 100)\<close>.
\<close>

fun dadd :: "double \<Rightarrow> double \<Rightarrow> double" where
  "dadd (Fin a e) (Fin b f) = double_of (a * 2 ^ nat (e - min e f) + b * 2 ^ nat (f - min e f)) (min e f)"
| "dadd NaN y = NaN"
| "dadd x NaN = NaN"
| "dadd (Infinite s) (Fin b f) = Infinite s"
| "dadd (Fin a e) (Infinite s) = Infinite s"
| "dadd (Infinite s) (Infinite t) = (if s = t then Infinite s else NaN)"

text \<open>\<open>std::clamp(v, lo, hi)\<close>\<close>

definition dclamp :: "double \<Rightarrow> double \<Rightarrow> double \<Rightarrow> double" where
  "dclamp v lo hi = (if dless v lo then lo else if dless hi v then hi else v)"

section \<open>Whole numbers\<close>

text \<open>Evaluation takes the exact case first: it needs no bit count.\<close>

lemma double_of_code [code]:
  "double_of m e =
     (if \<bar>m\<bar> < 2 ^ 53 \<and> - 1074 \<le> e \<and> e \<le> 971 then Fin m e
      else let s = max (int (bits (nat \<bar>m\<bar>)) - 53) (- 1074 - e);
          m' = (if s \<le> 0 then m else round_shift m (nat s));
          e' = (if s \<le> 0 then e else e + s) in
        if m' \<noteq> 0 \<and> 1024 < int (bits (nat \<bar>m'\<bar>)) + e' then Infinite (m' < 0) else Fin m' e')"
  using double_of_exact [of m e] by (simp add: double_of_def)

lemma double_of_int_exact: "\<bar>n\<bar> < 2 ^ 53 \<Longrightarrow> double_of_int n = Fin n 0"
  unfolding double_of_int_def by (rule double_of_exact) simp_all

lemma dadd_int: "\<bar>a + b\<bar> < 2 ^ 53 \<Longrightarrow> dadd (Fin a 0) (Fin b 0) = Fin (a + b) 0"
  by (simp add: double_of_exact)

lemma dmul_int: "\<bar>a * b\<bar> < 2 ^ 53 \<Longrightarrow> dmul (Fin a 0) (Fin b 0) = Fin (a * b) 0"
  by (simp add: double_of_exact)

lemma dless_int: "dless (Fin a 0) (Fin b 0) \<longleftrightarrow> a < b"
  by simp

section \<open>Signs\<close>

lemma round_shift_nonneg: "0 \<le> m \<Longrightarrow> 0 \<le> round_shift m s"
  by (simp add: round_shift_def Let_def pos_imp_zdiv_nonneg_iff)

lemma double_of_nonneg: "double_of m e = Fin m' e' \<Longrightarrow> 0 \<le> m \<Longrightarrow> 0 \<le> m'"
  by (auto simp: double_of_def Let_def round_shift_nonneg split: if_splits)

lemma not_dless_zero: "\<not> dless (Fin a e) dzero \<Longrightarrow> 0 \<le> a"
  by (simp add: dzero_def mult_less_0_iff not_less)

lemma dmul_nonneg: "dmul d (Fin b 0) = Fin m e \<Longrightarrow> \<not> dless d dzero \<Longrightarrow> 0 \<le> b \<Longrightarrow> 0 \<le> m"
  by (cases d) (auto dest!: not_dless_zero double_of_nonneg split: if_splits)

lemma llround_nonneg:
  assumes "\<not> dless d dzero" and "0 \<le> b"
  shows "0 \<le> llround unspec (dmul d (Fin b 0)) \<or> llround unspec (dmul d (Fin b 0)) \<in> range unspec"
  using dmul_nonneg [of d b] assms round_half_away_nonneg by (cases "dmul d (Fin b 0)") auto

section \<open>Rounding\<close>

lemma round_shift_error: "2 * \<bar>round_shift m s * 2 ^ s - m\<bar> \<le> 2 ^ s"
proof -
  let ?S = "2 ^ s :: int"
  have split: "m = (m div ?S) * ?S + m mod ?S" by (simp only: div_mult_mod_eq)
  have r: "0 \<le> m mod ?S" "m mod ?S < ?S" by simp_all
  have next_q: "(m div ?S + 1) * ?S = (m div ?S) * ?S + ?S" by (simp add: distrib_right)
  show ?thesis
    unfolding round_shift_def Let_def using split r next_q by (auto simp: abs_if; linarith)
qed

text \<open>A number nearer to the integer \<open>k\<close> than a half rounds to \<open>k\<close>.\<close>

lemma twice_abs_less: "2 * \<bar>x\<bar> < y \<longleftrightarrow> 2 * x < y \<and> - y < 2 * x" for x y :: int
  by linarith

lemma round_half_away_near:
  assumes "2 * \<bar>m - k * 2 ^ n\<bar> < 2 ^ n"
  shows "round_half_away m (- int n) = k"
proof (cases "n = 0")
  case True
  then have "2 * \<bar>m - k\<bar> < 1" using assms by simp
  then have "m = k" by presburger
  then show ?thesis using True by (simp add: round_half_away_def)
next
  case False
  let ?N = "2 ^ n :: int"
  have N: "0 < ?N" by simp
  have a: "2 * m < 2 * (k * ?N) + ?N" "2 * (k * ?N) < 2 * m + ?N"
    using assms unfolding twice_abs_less by (simp_all add: right_diff_distrib)
  have near: "(2 * j + ?N) div (2 * ?N) = i" if "2 * \<bar>j - i * ?N\<bar> < ?N" for i j
  proof -
    have "2 * j + ?N = i * (2 * ?N) + (2 * (j - i * ?N) + ?N)" by (simp add: algebra_simps)
    moreover have "0 \<le> 2 * (j - i * ?N) + ?N" "2 * (j - i * ?N) + ?N < 2 * ?N"
      using that by (simp_all add: abs_if split: if_splits)
    ultimately show ?thesis using N by (simp only: div_mult_self3) (simp add: div_pos_pos_trivial)
  qed
  have unfold: "round_half_away m (- int n) = sgn m * ((2 * \<bar>m\<bar> + ?N) div (2 * ?N))"
    using False by (simp add: round_half_away_def)
  consider "k = 0" | "0 < k" | "k < 0" by linarith
  then show ?thesis
  proof cases
    case 1
    then have "(2 * \<bar>m\<bar> + ?N) div (2 * ?N) = 0" using assms by (intro near) simp
    then show ?thesis using unfold 1 by simp
  next
    case 2
    then have "?N \<le> k * ?N" using N by simp
    then have "0 < m" using a N by linarith
    then show ?thesis using unfold near [of m k] assms by simp
  next
    case 3
    then have "1 * ?N \<le> (- k) * ?N" using N by (intro mult_right_mono) simp_all
    then have "m < 0" using a N by simp
    moreover have "(2 * (- m) + ?N) div (2 * ?N) = - k" using assms by (intro near) (simp add: abs_if split: if_splits)
    ultimately show ?thesis using unfold by simp
  qed
qed

lemma double_of_rounded:
  assumes "53 < bits (nat \<bar>M\<bar>)" and "- 1074 \<le> e"
    and "int (bits (nat \<bar>round_shift M (bits (nat \<bar>M\<bar>) - 53)\<bar>)) + (e + int (bits (nat \<bar>M\<bar>) - 53)) \<le> 1024"
  shows "double_of M e = Fin (round_shift M (bits (nat \<bar>M\<bar>) - 53)) (e + int (bits (nat \<bar>M\<bar>) - 53))"
proof -
  define s where "s = bits (nat \<bar>M\<bar>) - 53"
  have "max (int (bits (nat \<bar>M\<bar>)) - 53) (- 1074 - e) = int s" "0 < s" using assms(1,2) by (auto simp: s_def)
  then show ?thesis using assms(3) unfolding double_of_def Let_def s_def [symmetric] by simp
qed

lemma error_bounds:
  fixes N x y a :: int
  assumes "2 ^ 53 * x \<le> y" and "y < 2 ^ 50 * N" and "0 < N"
  shows "8 * x < N" and "2 * x < N" and "a \<le> x + y \<Longrightarrow> a < 2 ^ 51 * N"
proof -
  show 1: "8 * x < N" using assms by simp
  show "2 * x < N" using 1 assms(3) by linarith
  show "a \<le> x + y \<Longrightarrow> a < 2 ^ 51 * N" using 1 assms(2,3) by simp
qed

lemma abs_via: "\<bar>a - c\<bar> \<le> \<bar>a - b\<bar> + \<bar>b - c\<bar>" for a b c :: int
  by linarith

lemma error_sum: "0 < N \<Longrightarrow> 2 * x \<le> S \<Longrightarrow> 8 * y < N \<Longrightarrow> 2 * S < N \<Longrightarrow> z \<le> x + y \<Longrightarrow> 2 * z < N" for x y z S N :: int
  by linarith

lemma error_add: "x \<le> y + z \<Longrightarrow> 2 * y < D \<Longrightarrow> 0 \<le> y \<Longrightarrow> x < z + D" for x y z D :: int
  by linarith

lemma scaled_round:
  assumes near: "2 ^ 53 * \<bar>M - k * 2 ^ n\<bar> \<le> \<bar>k\<bar> * 2 ^ n" and k: "\<bar>k\<bar> < 2 ^ 50" and big: "2 ^ 53 \<le> \<bar>M\<bar>"
  defines "s \<equiv> bits (nat \<bar>M\<bar>) - 53"
  shows "53 < bits (nat \<bar>M\<bar>)" and "s \<le> n" and "2 * \<bar>round_shift M s - k * 2 ^ (n - s)\<bar> < 2 ^ (n - s)"
proof -
  let ?N = "2 ^ n :: int" and ?S = "2 ^ s :: int" and ?D = "2 ^ (n - s) :: int"
  let ?X = "\<bar>M - k * ?N\<bar>"
  have N: "0 < ?N" by simp
  have kN: "\<bar>k\<bar> * ?N < 2 ^ 50 * ?N" using k by simp
  note bounds = error_bounds [OF near kN N]
  have "\<bar>M\<bar> \<le> ?X + \<bar>k * ?N\<bar>" by linarith
  then have M: "\<bar>M\<bar> < 2 ^ 51 * ?N" by (intro bounds(3)) (simp add: abs_mult)
  have "\<not> nat \<bar>M\<bar> < 2 ^ 53" using big by (simp add: nat_less_iff)
  then show b: "53 < bits (nat \<bar>M\<bar>)" using bits_le_iff [of "nat \<bar>M\<bar>" 53] by linarith
  have "(2::nat) ^ (s + 53) \<le> 2 * nat \<bar>M\<bar>"
    using two_power_bits_le [of "nat \<bar>M\<bar>"] b big by (auto simp: s_def)
  then have "int (2 ^ (s + 53)) \<le> 2 * \<bar>M\<bar>" by linarith
  then have "?S * 2 ^ 53 \<le> 2 * \<bar>M\<bar>" by (simp add: power_add)
  then have S: "2 * ?S < ?N" using M by simp
  then have "?S < ?N" using zero_less_power [of "2::int" s] by linarith
  then show sn: "s \<le> n" by simp
  have ND: "?N = ?D * ?S" using sn by (simp flip: power_add)
  have "2 * \<bar>round_shift M s * ?S - k * ?N\<bar> < ?N"
    by (rule error_sum [OF N round_shift_error bounds(1) S abs_via])
  also have "round_shift M s * ?S - k * ?N = (round_shift M s - k * ?D) * ?S" by (simp add: ND algebra_simps)
  finally have "(2 * \<bar>round_shift M s - k * ?D\<bar>) * ?S < ?D * ?S" using ND by (simp add: abs_mult)
  then show "2 * \<bar>round_shift M s - k * ?D\<bar> < ?D" by simp
qed

text \<open>A double within half a unit in the last place of \<open>k / c\<close> gives \<open>k\<close> after multiplication by \<open>c\<close> and rounding.\<close>

lemma llround_scaled:
  assumes near: "2 ^ 53 * \<bar>m * c - k * 2 ^ n\<bar> \<le> \<bar>k\<bar> * 2 ^ n" and k: "\<bar>k\<bar> < 2 ^ 50" and n: "n \<le> 1074"
  shows "llround unspec (dmul (Fin m (- int n)) (Fin c 0)) = k"
proof -
  have int64: "in_int64 k" using k by (auto simp: in_int64_def)
  have "double_of (m * c) (- int n) = Fin m' (- int n') \<Longrightarrow> 2 * \<bar>m' - k * 2 ^ n'\<bar> < 2 ^ n' \<Longrightarrow> ?thesis" for m' n'
    using round_half_away_near [of m' k n'] int64 by simp
  note via = this
  show ?thesis
  proof (cases "\<bar>m * c\<bar> < 2 ^ 53")
    case True
    have "2 * \<bar>m * c - k * 2 ^ n\<bar> < 2 ^ n" by (rule error_bounds(2) [OF near]) (use k in simp_all)
    then show ?thesis using via [OF double_of_exact [OF True]] n by simp
  next
    case False
    let ?s = "bits (nat \<bar>m * c\<bar>) - 53" and ?m = "round_shift (m * c) (bits (nat \<bar>m * c\<bar>) - 53)"
    note r = scaled_round [OF near k, unfolded not_less [symmetric], OF False]
    have "\<bar>?m\<bar> < (\<bar>k\<bar> + 1) * 2 ^ (n - ?s)"
    proof -
      have "\<bar>?m\<bar> \<le> \<bar>?m - k * 2 ^ (n - ?s)\<bar> + \<bar>k\<bar> * 2 ^ (n - ?s)"
        using abs_via [of ?m 0 "k * 2 ^ (n - ?s)"] by (simp add: abs_mult)
      from error_add [OF this r(3) abs_ge_zero] show ?thesis by (simp add: distrib_right)
    qed
    also have "\<dots> \<le> 2 ^ 50 * 2 ^ (n - ?s)" using k by (intro mult_right_mono) simp_all
    finally have "nat \<bar>?m\<bar> < 2 ^ (50 + (n - ?s))" by (simp add: power_add nat_less_iff)
    then have "bits (nat \<bar>?m\<bar>) \<le> 50 + (n - ?s)" by (simp only: bits_le_iff)
    then have "int (bits (nat \<bar>?m\<bar>)) + - int (n - ?s) \<le> 1024" by linarith
    moreover have exp: "- int n + int ?s = - int (n - ?s)" using r(2) by simp
    ultimately have "double_of (m * c) (- int n) = Fin ?m (- int (n - ?s))"
      using double_of_rounded [OF r(1), of "- int n"] n by (simp only: exp)
    then show ?thesis using via r(3) by blast
  qed
qed

end
