(* ===== verification/Anthropic.thy ===== *)
theory Anthropic
  imports ScanWorker Nlohmann Prompt DoubleArith
begin

text \<open>
  The Claude Messages API adapter: \<^verbatim>\<open>src/src/scan/AnthropicScanProvider.cpp\<close> and its header.
  A request is built as a JSON value and printed, sent with retries, and the reply is parsed into
  a \<open>ScanResult\<close>; a result whose items do not add up is scanned once more.

  The network is the record \<open>ApiHost\<close>: what the API answers at each call, how long the call and each
  sleep take, and the JSON and Base64 code of the libraries. A call that fails at the network level is
  a fault of the world, as for the other infrastructure. Amounts are unbounded integers here; the one
  overflow the code can reach, negating the least \<open>int64_t\<close>, is the parameter \<open>ah_min\<close>.
\<close>

section \<open>Configuration and network\<close>

record AnthropicConfig =
  ac_apiKey :: string
  ac_model :: string
  ac_baseUrl :: string
  ac_timeoutSeconds :: double
  ac_maxRetries :: int
  ac_maxTokens :: int
  ac_effort :: string
  ac_rescanEffort :: string

definition AnthropicConfig_init :: AnthropicConfig where
  "AnthropicConfig_init = \<lparr>ac_apiKey = [], ac_model = ''claude-haiku-5-5'', ac_baseUrl = ''https://api.anthropic.com'',
     ac_timeoutSeconds = Fin 120 0, ac_maxRetries = 2, ac_maxTokens = 16000, ac_effort = ''low'',
     ac_rescanEffort = ''medium''\<rparr>"

text \<open>\<open>std::to_string(120.0)\<close> prints six decimals.\<close>

definition AnthropicConfig_fromEnv :: "host \<Rightarrow> error + AnthropicConfig" where
  "AnthropicConfig_fromEnv h =
     (let config = AnthropicConfig_init; apiKey = envOr h ''ANTHROPIC_API_KEY'' [] in
      if apiKey = [] then Inl (RuntimeError ''SCAN_PROVIDER=anthropic needs ANTHROPIC_API_KEY'')
      else
      rbind (h_stod h (envOr h ''SCAN_TIMEOUT_SECONDS'' ''120.000000'')) (\<lambda>timeoutSeconds.
      rbind (stoi (envOr h ''ANTHROPIC_MAX_TOKENS'' (to_string (ac_maxTokens config)))) (\<lambda>maxTokens.
      Inr (config\<lparr>ac_apiKey := apiKey,
         ac_model := envOr h ''ANTHROPIC_MODEL'' (ac_model config),
         ac_baseUrl := envOr h ''ANTHROPIC_BASE_URL'' (ac_baseUrl config),
         ac_timeoutSeconds := timeoutSeconds, ac_maxTokens := maxTokens,
         ac_effort := envOr h ''ANTHROPIC_EFFORT'' (ac_effort config),
         ac_rescanEffort := envOr h ''ANTHROPIC_RESCAN_EFFORT'' (ac_rescanEffort config)\<rparr>))))"

record ApiRequest =
  aq_path :: string
  aq_headers :: "(string \<times> string) list"
  aq_contentType :: string
  aq_body :: string

record ApiResponse =
  ar_status :: int
  ar_body :: string
  ar_retryAfter :: string      \<comment> \<open>getHeader("retry-after"), empty when absent\<close>

record ApiHost =
  ah_json :: nlohmann
  ah_base64 :: "string \<Rightarrow> string"                     \<comment> \<open>drogon::utils::base64Encode\<close>
  ah_post :: "nat \<Rightarrow> ApiRequest \<Rightarrow> ApiResponse"       \<comment> \<open>what the API answers at a step of the world\<close>
  ah_latency :: "nat \<Rightarrow> int"                           \<comment> \<open>microseconds that call takes\<close>
  ah_slept :: "double \<Rightarrow> int"                          \<comment> \<open>microseconds a sleep of so many seconds takes\<close>
  ah_min :: int                                        \<comment> \<open>\<open>llabs\<close> and negation of the least \<open>int64_t\<close>\<close>

definition kApiVersion :: string where
  "kApiVersion = ''2026-10-21''"

section \<open>The request\<close>

definition mediaType :: "string \<Rightarrow> error + string" where
  "mediaType bytes =
     (if 12 \<le> length bytes \<and> take 4 bytes = ''RIFF'' \<and> take 4 (drop 8 bytes) = ''WEBP'' then Inr ''image/webp''
      else if 3 \<le> length bytes \<and> bytes ! 0 = CHR 0xFF \<and> bytes ! 1 = CHR 0xD8 then Inr ''image/jpeg''
      else if 8 \<le> length bytes \<and>
        take 8 bytes = [CHR 0x89, CHR ''P'', CHR ''N'', CHR ''G'', CHR 0x0D, CHR 0x0A, CHR 0x1A, CHR 0x0A]
      then Inr ''image/png''
      else if 4 \<le> length bytes \<and> take 4 bytes = ''GIF8'' then Inr ''image/gif''
      else Inl (ScanError ''image is not WebP, JPEG, PNG or GIF''))"

definition uniqueNames :: "string list list \<Rightarrow> string list" where
  "uniqueNames groups =
     foldl (\<lambda>out group. foldl (\<lambda>out name.
        if \<exists>seen \<in> set out. lower seen = lower name then out else out @ [name]) out group) [] groups"

definition type_schema :: "string \<Rightarrow> json" where
  "type_schema t = jobject [(''type'', JString t)]"

definition nullable_schema :: "json \<Rightarrow> json" where
  "nullable_schema schema = jobject [(''anyOf'', JArray [schema, type_schema ''null''])]"

definition enum_schema :: "string list \<Rightarrow> json" where
  "enum_schema names = jobject [(''type'', JString ''string''), (''enum'', jstrings names)]"

definition array_schema :: "json \<Rightarrow> json" where
  "array_schema items = jobject [(''type'', JString ''array''), (''items'', items)]"

definition enumOrNull :: "string list \<Rightarrow> json" where
  "enumOrNull names = (if names = [] then type_schema ''null'' else nullable_schema (enum_schema names))"

definition objectSchema :: "json \<Rightarrow> json" where
  "objectSchema properties =
     jobject [(''type'', JString ''object''), (''properties'', properties),
       (''required'', jstrings (map fst (members properties))), (''additionalProperties'', JBool False)]"

definition categoriesFor :: "ScanContext \<Rightarrow> error + string list" where
  "categoriesFor context =
     (case sc_knownKind context of
        None \<Rightarrow> Inr (uniqueNames [sc_expenseCategories context, sc_incomeCategories context])
      | Some kind \<Rightarrow> rbind (rulesFor kind) (\<lambda>rules.
          Inr (if kr_usesIncomeCategories rules then sc_incomeCategories context else sc_expenseCategories context)))"

definition item_properties :: "ScanContext \<Rightarrow> string list \<Rightarrow> json" where
  "item_properties context categories =
     (let item = jobject
        [(''name'', nullable_schema (type_schema ''string'')), (''quantity'', nullable_schema (type_schema ''number'')),
         (''unit_price'', nullable_schema (type_schema ''number'')), (''amount'', type_schema ''number''),
         (''category'', enumOrNull categories), (''informational'', type_schema ''boolean'')]
      in if sc_tags context = [] then item
         else jset item ''tags'' (array_schema (enum_schema (sc_tags context))))"

definition scannable_names :: "string list" where
  "scannable_names = map kr_name (filter scannable kKinds)"

definition output_properties :: "ScanContext \<Rightarrow> string list \<Rightarrow> json" where
  "output_properties context categories =
     (let properties = jobject
        [(''unreadable_reason'', nullable_schema (type_schema ''string'')),
         (''currency'', type_schema ''string''),
         (''total'', type_schema ''number''),
         (''subtotal'', nullable_schema (type_schema ''number'')),
         (''merchant'', nullable_schema (type_schema ''string'')),
         (''store_name_raw'', nullable_schema (type_schema ''string'')),
         (''purchase_date'', nullable_schema (jobject [(''type'', JString ''string''), (''format'', JString ''date'')])),
         (''items'', array_schema (objectSchema (item_properties context categories)))]
      in if sc_knownKind context = None then jset properties ''kind'' (enum_schema scannable_names) else properties)"

definition outputSchema :: "ScanContext \<Rightarrow> error + json" where
  "outputSchema context =
     rbind (categoriesFor context) (\<lambda>categories. Inr (objectSchema (output_properties context categories)))"

definition joined :: "string list \<Rightarrow> string" where
  "joined names =
     (if names = [] then ''(none)'' else foldl (\<lambda>out name. out @ (if out = [] then [] else '', '') @ name) [] names)"

definition instructions :: "ScanContext \<Rightarrow> nat \<Rightarrow> error + string" where
  "instructions context imageCount =
     rbind (case sc_knownKind context of
              None \<Rightarrow> Inr (True, True)
            | Some kind \<Rightarrow> rbind (rulesFor kind) (\<lambda>rules.
                Inr (\<not> kr_usesIncomeCategories rules, kr_usesIncomeCategories rules))) (\<lambda>(expense, income).
     Inr ((if imageCount = 1 then ''The image above is one transaction.''
           else ''The '' @ nat_to_string imageCount @ '' images above are one transaction.'') @
          (case sc_knownKind context of
             Some kind \<Rightarrow> '' It is already known to be of kind '' @ [CHR 0x22] @ kind @ [CHR 0x22] @
               ''; extract the fields for that kind.''
           | None \<Rightarrow> '' Classify its kind, then extract the fields.'') @
          (if expense then [CHR 0x0A, CHR 0x0A] @ ''Expense categories: '' @ joined (sc_expenseCategories context) else []) @
          (if income then [CHR 0x0A] @ ''Income categories: '' @ joined (sc_incomeCategories context) else []) @
          [CHR 0x0A] @ ''Tags: '' @ joined (sc_tags context)))"

definition text_block :: "string \<Rightarrow> json" where
  "text_block text = jobject [(''type'', JString ''text''), (''text'', JString text)]"

definition image_block :: "ApiHost \<Rightarrow> string \<Rightarrow> string \<Rightarrow> json" where
  "image_block ah media bytes =
     jobject [(''type'', JString ''image''),
       (''source'', jobject [(''type'', JString ''base64''), (''media_type'', JString media),
          (''data'', JString (ah_base64 ah bytes))])]"

text \<open>The loop over the images; \<open>i\<close> is the index of the next one of \<open>n\<close>.\<close>

fun image_blocks :: "ApiHost \<Rightarrow> nat \<Rightarrow> nat \<Rightarrow> string list \<Rightarrow> error + json list" where
  "image_blocks ah n i [] = Inr []"
| "image_blocks ah n i (bytes # images) =
     rbind (mediaType bytes) (\<lambda>media.
     rbind (image_blocks ah n (Suc i) images) (\<lambda>blocks.
     Inr ((if n > 1 then [text_block (''Image '' @ nat_to_string (i + 1) @ '':'')] else []) @
          image_block ah media bytes # blocks)))"

definition buildRequest :: "ApiHost \<Rightarrow> string list \<Rightarrow> ScanContext \<Rightarrow> AnthropicConfig \<Rightarrow> error + json" where
  "buildRequest ah images context config =
     rbind (image_blocks ah (length images) 0 images) (\<lambda>blocks.
     rbind (instructions context (length images)) (\<lambda>text.
     rbind (outputSchema context) (\<lambda>schema.
     Inr (jobject
       [(''model'', JString (ac_model config)),
        (''max_tokens'', jint (ac_maxTokens config)),
        (''system'', JString systemPrompt),
        (''messages'', JArray [jobject [(''role'', JString ''user''), (''content'', JArray (blocks @ [text_block text]))]]),
        (''output_config'', jobject
          [(''effort'', JString (ac_effort config)),
           (''format'', jobject [(''type'', JString ''json_schema''), (''schema'', schema)])])]))))"

section \<open>The reply\<close>

definition toCents :: "host \<Rightarrow> double \<Rightarrow> int" where
  "toCents h amount = llround (h_llround h) (dmul amount (double_of_int 100))"

definition llabs :: "ApiHost \<Rightarrow> int \<Rightarrow> int" where
  "llabs ah n = (if n = - (2 ^ 63) then ah_min ah else \<bar>n\<bar>)"

definition optText :: "json \<Rightarrow> string \<Rightarrow> string option" where
  "optText object key =
     (case jfind object key of
        Some (JString value) \<Rightarrow>
          if list_all (\<lambda>c. c \<in> {CHR '' '', CHR 0x09, CHR 0x0D, CHR 0x0A}) value then None else Some value
      | _ \<Rightarrow> None)"

definition optNumber :: "json \<Rightarrow> string \<Rightarrow> double option" where
  "optNumber object key = Option.bind (jfind object key) get_number"

definition toItem :: "ApiHost \<Rightarrow> host \<Rightarrow> json \<Rightarrow> error + ScannedItem" where
  "toItem ah h line =
     rbind (rbind (jat (ah_json ah) line ''amount'') (as_double (ah_json ah))) (\<lambda>amount.
     rbind (rbind (jat (ah_json ah) line ''informational'') (as_bool (ah_json ah))) (\<lambda>informational.
     rbind (case jfind line ''tags'' of None \<Rightarrow> Inr [] | Some tags \<Rightarrow> as_strings (ah_json ah) tags) (\<lambda>tags.
     Inr \<lparr>si_name = optText line ''name'',
          si_quantity = (case optNumber line ''quantity'' of
             Some q \<Rightarrow> if dless dzero q then Some q else None | None \<Rightarrow> None),
          si_unitPriceCents = (case optNumber line ''unit_price'' of
             Some p \<Rightarrow> if p \<noteq> NaN \<and> \<not> dless p dzero then Some (toCents h p) else None | None \<Rightarrow> None),
          si_amountCents = toCents h amount, si_category = optText line ''category'',
          si_informational = informational, si_tags = tags\<rparr>)))"

definition apiErrorMessage :: "ApiHost \<Rightarrow> string \<Rightarrow> error + string" where
  "apiErrorMessage ah body =
     (case jfind (nl_parse (ah_json ah) body) ''error'' of
        Some (JObject ms) \<Rightarrow>
          rbind (value_string (ah_json ah) (JObject ms) ''type'' []) (\<lambda>type.
          rbind (value_string (ah_json ah) (JObject ms) ''message'' []) (\<lambda>message.
          Inr (type @ '': '' @ message)))
      | _ \<Rightarrow> Inr (take 300 body))"

definition retryable :: "int \<Rightarrow> bool" where
  "retryable code \<longleftrightarrow> code = 408 \<or> code = 429 \<or> code \<ge> 500"

text \<open>The first block of type \<open>text\<close>; a block that is not an object throws.\<close>

fun find_text :: "nlohmann \<Rightarrow> json list \<Rightarrow> error + json option" where
  "find_text js [] = Inr None"
| "find_text js (block # blocks) =
     rbind (value_string js block ''type'' []) (\<lambda>type.
     if type = ''text'' then Inr (Some block) else find_text js blocks)"

fun scanned_lines :: "ApiHost \<Rightarrow> host \<Rightarrow> string \<Rightarrow> json list \<Rightarrow> error + ScannedItem list" where
  "scanned_lines ah h kind [] = Inr []"
| "scanned_lines ah h kind (line # lines) =
     rbind (toItem ah h line) (\<lambda>item.
     rbind (scanned_lines ah h kind lines) (\<lambda>items.
     Inr (if si_amountCents item < 0
          then (if kind \<noteq> ''refund'' then items
                else item\<lparr>si_amountCents := (if si_amountCents item = - (2 ^ 63) then ah_min ah
                   else - si_amountCents item)\<rparr> # items)
          else item # items)))"

text \<open>\<open>catch (const nlohmann::json::exception &e)\<close>\<close>

definition schema_mismatch :: "error + 'a \<Rightarrow> error + 'a" where
  "schema_mismatch r =
     (case r of
        Inl (JsonException m) \<Rightarrow> Inl (ScanError (''Anthropic reply doesn't match the extraction schema: '' @ m))
      | _ \<Rightarrow> r)"

text \<open>The try block: the reply's text is parsed and read field by field.\<close>

definition read_fields :: "ApiHost \<Rightarrow> host \<Rightarrow> json \<Rightarrow> json \<Rightarrow> ScanContext \<Rightarrow> error + ScanResult" where
  "read_fields ah h response output context =
     (let js = ah_json ah in
      rbind (case sc_knownKind context of
               Some kind \<Rightarrow> Inr kind
             | None \<Rightarrow> rbind (jat js output ''kind'') (as_string js)) (\<lambda>kind.
      rbind (rbind (jat js output ''currency'') (as_string js)) (\<lambda>cur.
      rbind (rbind (jat js output ''total'') (as_double js)) (\<lambda>total.
      rbind (jat js output ''items'') (\<lambda>lines.
      rbind (scanned_lines ah h kind (jelements lines)) (\<lambda>items.
      rbind (value_string js response ''model'' []) (\<lambda>model.
      rbind (value_string js response ''id'' []) (\<lambda>message_id.
      rbind (value_json js response ''usage'' (jobject [])) (\<lambda>usage.
      Inr \<lparr>sr_kind = kind, sr_currency = cur, sr_totalCents = llabs ah (toCents h total),
           sr_merchant = optText output ''merchant'', sr_storeNameRaw = optText output ''store_name_raw'',
           sr_purchaseDate = optText output ''purchase_date'', sr_items = items,
           sr_raw = jobject [(''provider'', JString ''anthropic''), (''model'', JString model),
              (''message_id'', JString message_id), (''usage'', usage), (''output'', output)]\<rparr>)))))))))"

definition read_output :: "ApiHost \<Rightarrow> host \<Rightarrow> json \<Rightarrow> json \<Rightarrow> ScanContext \<Rightarrow> error + ScanResult" where
  "read_output ah h response block context =
     rbind (rbind (rbind (jat (ah_json ah) block ''text'') (as_string (ah_json ah))) (parse_or_throw (ah_json ah))) (\<lambda>output.
     case optText output ''unreadable_reason'' of
       Some reason \<Rightarrow> Inl (ScanError (''model could not read the document: '' @ reason))
     | None \<Rightarrow> read_fields ah h response output context)"

definition parseResponse :: "ApiHost \<Rightarrow> host \<Rightarrow> string \<Rightarrow> ScanContext \<Rightarrow> error + ScanResult" where
  "parseResponse ah h body context =
     (let js = ah_json ah; response = nl_parse js body in
      if \<not> is_object response then Inl (ScanError ''Anthropic response is not JSON'')
      else
      rbind (value_string js response ''stop_reason'' []) (\<lambda>stopReason.
      if stopReason = ''refusal'' then Inl (ScanError ''model refused to read the document'')
      else if stopReason = ''max_tokens'' then Inl (ScanError ''model reply was cut off at max_tokens'')
      else
      rbind (case jfind response ''content'' of
               Some (JArray blocks) \<Rightarrow> find_text js blocks
             | _ \<Rightarrow> Inr None) (\<lambda>text.
      case text of
        None \<Rightarrow> Inl (ScanError (''Anthropic response has no text block (stop_reason '' @ stopReason @ '')''))
      | Some block \<Rightarrow> schema_mismatch (read_output ah h response block context))))"

definition scanned_subtotal :: "ApiHost \<Rightarrow> host \<Rightarrow> ScanResult \<Rightarrow> int option" where
  "scanned_subtotal ah h result =
     (case jfind (sr_raw result) ''output'' of
        None \<Rightarrow> None
      | Some output \<Rightarrow> map_option (\<lambda>x. llabs ah (toCents h x)) (optNumber output ''subtotal''))"

definition itemsAddUp :: "ApiHost \<Rightarrow> host \<Rightarrow> ScanResult \<Rightarrow> bool" where
  "itemsAddUp ah h result \<longleftrightarrow>
     (let sum = sum_list (map si_amountCents (filter (\<lambda>item. \<not> si_informational item) (sr_items result)))
      in sr_items result = [] \<or> sum = sr_totalCents result \<or> Some sum = scanned_subtotal ah h result)"

section \<open>Sending\<close>

definition api_request :: "AnthropicConfig \<Rightarrow> string \<Rightarrow> ApiRequest" where
  "api_request config body =
     \<lparr>aq_path = ''/v1/messages'',
      aq_headers = [(''x-api-key'', ac_apiKey config), (''anthropic-version'', kApiVersion)],
      aq_contentType = ''application/json'', aq_body = body\<rparr>"

text \<open>\<open>sendRequestCoro\<close> and \<open>sleepCoro\<close>: both take time, and a failed call does too.\<close>

definition pass_time :: "int \<Rightarrow> unit act" where
  "pass_time t = (\<lambda>w. (Inr (), w\<lparr>w_now := w_now w + t\<rparr>))"

definition sendRequest :: "ApiHost \<Rightarrow> ApiRequest \<Rightarrow> ApiResponse act" where
  "sendRequest ah req = (\<lambda>w.
     bindM (pass_time (ah_latency ah (w_step w))) (\<lambda>_.
     attempt RuntimeError (\<lambda>w'. (Inr (ah_post ah (w_step w) req), w'))) w)"

definition retry_delay :: "host \<Rightarrow> nat \<Rightarrow> ApiResponse \<Rightarrow> double" where
  "retry_delay h tries resp =
     (let backoff = double_of_int (2 * 2 ^ tries) in
      if ar_retryAfter resp = [] then backoff
      else case h_stod h (ar_retryAfter resp) of
             Inl _ \<Rightarrow> backoff
           | Inr after_s \<Rightarrow> dclamp after_s dzero (double_of_int 30))"

text \<open>One round of the loop: the body, or the message of a failure worth retrying and how long to wait.\<close>

datatype post_outcome = Body string | Retry string double

definition post_once :: "ApiHost \<Rightarrow> host \<Rightarrow> AnthropicConfig \<Rightarrow> string \<Rightarrow> nat \<Rightarrow> post_outcome act" where
  "post_once ah h config body tries =
     bindM (sendRequest ah (api_request config body)) (\<lambda>resp.
     if ar_status resp = 200 then ret (Body (ar_body resp))
     else
     bindM (lift (apiErrorMessage ah (ar_body resp))) (\<lambda>detail.
     let message = ''Anthropic API HTTP '' @ to_string (ar_status resp) @ '': '' @ detail in
     if \<not> retryable (ar_status resp) then raise (ScanError message)
     else ret (Retry message (retry_delay h tries resp))))"

text \<open>The loop, with the number of retries left; \<open>tries\<close> counts the failed rounds.\<close>

fun send_loop :: "ApiHost \<Rightarrow> host \<Rightarrow> AnthropicConfig \<Rightarrow> string \<Rightarrow> nat \<Rightarrow> nat \<Rightarrow> string act" where
  "send_loop ah h config body tries 0 =
     bindM (post_once ah h config body tries) (\<lambda>outcome.
     case outcome of Body b \<Rightarrow> ret b | Retry message _ \<Rightarrow> raise (RuntimeError message))"
| "send_loop ah h config body tries (Suc left) =
     bindM (post_once ah h config body tries) (\<lambda>outcome.
     case outcome of
       Body b \<Rightarrow> ret b
     | Retry _ delay \<Rightarrow> bindM (pass_time (ah_slept ah delay)) (\<lambda>_. send_loop ah h config body (Suc tries) left))"

definition send_api :: "ApiHost \<Rightarrow> host \<Rightarrow> AnthropicConfig \<Rightarrow> string \<Rightarrow> int \<Rightarrow> string act" where
  "send_api ah h config body maxRetries = send_loop ah h config body 0 (nat maxRetries)"

section \<open>Scanning\<close>

definition request_text :: "ApiHost \<Rightarrow> string list \<Rightarrow> ScanContext \<Rightarrow> AnthropicConfig \<Rightarrow> error + string" where
  "request_text ah images context config = rbind (buildRequest ah images context config) (nl_dump (ah_json ah))"

definition rescan :: "ApiHost \<Rightarrow> host \<Rightarrow> AnthropicConfig \<Rightarrow> string \<Rightarrow> ScanContext \<Rightarrow> ScanResult \<Rightarrow> ScanResult act" where
  "rescan ah h config rescanRequest context first =
     tryM (bindM (send_api ah h config rescanRequest 0) (\<lambda>secondBody.
           bindM (lift (parseResponse ah h secondBody context)) (\<lambda>second.
           ret (second\<lparr>sr_raw := jset (sr_raw second) ''first_scan'' (sr_raw first)\<rparr>))))
       (\<lambda>e. ret (first\<lparr>sr_raw := jset (sr_raw first) ''rescan_error'' (JString (what_of e))\<rparr>))"

definition scanReceipt :: "ApiHost \<Rightarrow> host \<Rightarrow> AnthropicConfig \<Rightarrow> scan_provider" where
  "scanReceipt ah h config images context =
     bindM (lift (request_text ah images context config)) (\<lambda>request.
     bindM (send_api ah h config request (ac_maxRetries config)) (\<lambda>firstBody.
     bindM (lift (parseResponse ah h firstBody context)) (\<lambda>first.
     if itemsAddUp ah h first \<or> ac_rescanEffort config = [] then ret first
     else
     bindM (lift (request_text ah images context (config\<lparr>ac_effort := ac_rescanEffort config\<rparr>))) (\<lambda>rescanRequest.
     rescan ah h config rescanRequest context first))))"

end
