(* ===== verification/ReplySchema.thy ===== *)
theory ReplySchema
  imports Anthropic
begin

text \<open>
  The reply contract of the Anthropic adapter. \<open>conforms\<close> is the meaning of the part of JSON Schema that
  \<open>outputSchema\<close> uses; the API promises that the text of its reply conforms to the schema of the request.
  The lemmas read a conforming reply field by field.
\<close>

section \<open>JSON Schema\<close>

fun type_ok :: "string \<Rightarrow> json \<Rightarrow> bool" where
  "type_ok t JNull \<longleftrightarrow> t = ''null''"
| "type_ok t (JBool _) \<longleftrightarrow> t = ''boolean''"
| "type_ok t (JString _) \<longleftrightarrow> t = ''string''"
| "type_ok t (JArray _) \<longleftrightarrow> t = ''array''"
| "type_ok t (JObject _) \<longleftrightarrow> t = ''object''"
| "type_ok t JDiscarded \<longleftrightarrow> False"
| "type_ok t _ \<longleftrightarrow> t = ''number''"

lemma member_size: "jfind j k = Some v \<Longrightarrow> size v < size j"
proof (cases j)
  case (JObject ms)
  assume "jfind j k = Some v"
  then have "(k, v) \<in> set ms" using JObject by (auto simp: jfind_def dest: map_of_SomeD)
  then have "size_prod (\<lambda>_. 0) size (k, v) \<le> size_list (size_prod (\<lambda>_. 0) size) ms"
    by (rule size_list_estimation') simp
  then show ?thesis using JObject by simp
qed (auto simp: jfind_def)

lemma member_array_size: "jfind schema key = Some (JArray ss) \<Longrightarrow> s \<in> set ss \<Longrightarrow> size s < size schema"
  using member_size [of schema key "JArray ss"] size_list_estimation' [of s ss "size s" size] by simp

lemma member_object_size: "jfind schema key = Some (JObject ps) \<Longrightarrow> p \<in> set ps \<Longrightarrow> size (snd p) < size schema"
  using member_size [of schema key "JObject ps"]
    size_list_estimation' [of p ps "size (snd p)" "size_prod (\<lambda>_. 0) size"] by (cases p) simp

function conforms :: "json \<Rightarrow> json \<Rightarrow> bool" where
  "conforms schema v \<longleftrightarrow>
     (case jfind schema ''type'' of Some (JString t) \<Rightarrow> type_ok t v | _ \<Rightarrow> True) \<and>
     (case jfind schema ''enum'' of Some (JArray vs) \<Rightarrow> v \<in> set vs | _ \<Rightarrow> True) \<and>
     (case jfind schema ''anyOf'' of Some (JArray ss) \<Rightarrow> \<exists>s \<in> set ss. conforms s v | _ \<Rightarrow> True) \<and>
     (case (jfind schema ''items'', v) of (Some s, JArray xs) \<Rightarrow> \<forall>x \<in> set xs. conforms s x | _ \<Rightarrow> True) \<and>
     (case (jfind schema ''properties'', v) of
        (Some (JObject ps), JObject ms) \<Rightarrow>
          (\<forall>p \<in> set ps. case map_of ms (fst p) of Some x \<Rightarrow> conforms (snd p) x | None \<Rightarrow> True) \<and>
          (jfind schema ''additionalProperties'' = Some (JBool False) \<longrightarrow> fst ` set ms \<subseteq> fst ` set ps)
      | _ \<Rightarrow> True) \<and>
     (case (jfind schema ''required'', v) of
        (Some (JArray ks), JObject ms) \<Rightarrow> \<forall>k \<in> set ks. case k of JString key \<Rightarrow> key \<in> fst ` set ms | _ \<Rightarrow> True
      | _ \<Rightarrow> True)"
  by pat_completeness auto

termination conforms
  by (relation "measure (\<lambda>(schema, v). size schema)")
     (auto dest: sym [of "Some _"] intro: member_size member_array_size member_object_size)

declare conforms.simps [simp del]

section \<open>The schemas of the adapter\<close>

lemma conforms_type [simp]: "conforms (type_schema t) v \<longleftrightarrow> type_ok t v"
  by (subst conforms.simps) (simp add: type_schema_def jfind_jobject)

lemma conforms_nullable [simp]: "conforms (nullable_schema s) v \<longleftrightarrow> conforms s v \<or> v = JNull"
  by (subst conforms.simps) (cases v; simp add: nullable_schema_def jfind_jobject)

lemma conforms_date [simp]:
  "conforms (jobject [(''type'', JString ''string''), (''format'', JString ''date'')]) v \<longleftrightarrow> type_ok ''string'' v"
  by (subst conforms.simps) (simp add: jfind_jobject)

lemma conforms_enum [simp]: "conforms (enum_schema names) v \<longleftrightarrow> (\<exists>s \<in> set names. v = JString s)"
  by (subst conforms.simps) (auto simp: enum_schema_def jfind_jobject jstrings_def)

lemma conforms_array [simp]: "conforms (array_schema s) v \<longleftrightarrow> (\<exists>xs. v = JArray xs \<and> (\<forall>x \<in> set xs. conforms s x))"
  by (subst conforms.simps) (cases v; simp add: array_schema_def jfind_jobject)

lemma conforms_enumOrNull [simp]:
  "conforms (enumOrNull names) v \<longleftrightarrow> v = JNull \<or> (\<exists>s \<in> set names. v = JString s)"
  by (cases v) (auto simp: enumOrNull_def)

lemma objectSchema_fields:
  "jfind (objectSchema (jobject ps)) ''type'' = Some (JString ''object'')"
  "jfind (objectSchema (jobject ps)) ''properties'' = Some (JObject (sort_key fst ps))"
  "jfind (objectSchema (jobject ps)) ''required'' = Some (JArray (map (JString \<circ> fst) (sort_key fst ps)))"
  "jfind (objectSchema (jobject ps)) ''additionalProperties'' = Some (JBool False)"
  "jfind (objectSchema (jobject ps)) ''enum'' = None" "jfind (objectSchema (jobject ps)) ''anyOf'' = None"
  "jfind (objectSchema (jobject ps)) ''items'' = None"
  by (simp_all add: objectSchema_def jfind_jobject jstrings_def) (simp add: jobject_def)

lemma conforms_object:
  "conforms (objectSchema (jobject ps)) v \<longleftrightarrow>
     is_object v \<and> fst ` set (members v) = fst ` set ps \<and> (\<forall>p \<in> set ps. \<exists>x. jfind v (fst p) = Some x \<and> conforms (snd p) x)"
proof (cases v)
  case (JObject ms)
  have key: "((case map_of ms k of Some x \<Rightarrow> P x | None \<Rightarrow> True) \<and> k \<in> fst ` set ms) \<longleftrightarrow> (\<exists>x. map_of ms k = Some x \<and> P x)" for k P
    using map_of_eq_None_iff [of ms k] by (auto split: option.splits)
  have "conforms (objectSchema (jobject ps)) v \<longleftrightarrow>
      (\<forall>p \<in> set ps. case map_of ms (fst p) of Some x \<Rightarrow> conforms (snd p) x | None \<Rightarrow> True) \<and>
      fst ` set ms \<subseteq> fst ` set ps \<and> (\<forall>p \<in> set ps. fst p \<in> fst ` set ms)"
    by (subst conforms.simps) (simp add: JObject objectSchema_fields)
  also have "\<dots> \<longleftrightarrow> fst ` set ms = fst ` set ps \<and>
      (\<forall>p \<in> set ps. (case map_of ms (fst p) of Some x \<Rightarrow> conforms (snd p) x | None \<Rightarrow> True) \<and> fst p \<in> fst ` set ms)"
    by blast
  finally show ?thesis unfolding key using JObject by (simp add: jfind_def)
qed (subst conforms.simps; simp add: objectSchema_fields)+

section \<open>Conforming lines\<close>

lemma type_ok_cases:
  "type_ok ''number'' v \<longleftrightarrow> (\<exists>x. get_number v = Some x)" "type_ok ''boolean'' v \<longleftrightarrow> (\<exists>b. v = JBool b)"
  "type_ok ''string'' v \<longleftrightarrow> (\<exists>s. v = JString s)" "type_ok ''null'' v \<longleftrightarrow> v = JNull"
  by (cases v; simp)+

lemma conforms_jset:
  "conforms (objectSchema (jset (jobject ps) key s)) v \<longleftrightarrow>
     is_object v \<and> fst ` set (members v) = insert key (fst ` set ps - {key}) \<and>
     (\<exists>x. jfind v key = Some x \<and> conforms s x) \<and>
     (\<forall>p \<in> set ps. fst p \<noteq> key \<longrightarrow> (\<exists>x. jfind v (fst p) = Some x \<and> conforms (snd p) x))"
  unfolding jset_def conforms_object by auto

lemma jfind_None: "jfind v key = None \<longleftrightarrow> key \<notin> fst ` set (members v)"
  by (simp add: jfind_def map_of_eq_None_iff)

lemma as_strings_map [simp]: "rmap (as_string js) (map JString ts) = Inr ts"
  by (induction ts) simp_all

lemma all_strings: "(\<forall>x \<in> set xs. \<exists>s \<in> A. x = JString s) \<Longrightarrow> \<exists>ts. set ts \<subseteq> A \<and> xs = map JString ts"
proof (induction xs)
  case (Cons x xs)
  then obtain s ts where "s \<in> A" "x = JString s" "set ts \<subseteq> A" "xs = map JString ts" by auto
  then show ?case by (intro exI [of _ "s # ts"]) simp
qed simp

lemma conforming_line:
  assumes "conforms (objectSchema (item_properties context categories)) line"
  shows "is_object line"
    and "\<exists>a x. jfind line ''amount'' = Some a \<and> get_number a = Some x"
    and "\<exists>b. jfind line ''informational'' = Some (JBool b)"
    and "jfind line ''category'' = Some JNull \<or> (\<exists>s \<in> set categories. jfind line ''category'' = Some (JString s))"
    and "jfind line ''tags'' = None \<or> (\<exists>ts. jfind line ''tags'' = Some (JArray (map JString ts)) \<and> set ts \<subseteq> set (sc_tags context))"
  using assms
  by (auto simp: item_properties_def Let_def conforms_jset conforms_object jfind_None type_ok_cases split: if_splits
      dest!: all_strings)

lemma optText_Some: "optText v key = Some s \<Longrightarrow> jfind v key = Some (JString s)"
  by (auto simp: optText_def split: option.splits json.splits if_splits)

lemma toItem_conforming:
  assumes "conforms (objectSchema (item_properties context categories)) line"
  shows "\<exists>item. toItem ah h line = Inr item \<and> set_option (si_category item) \<subseteq> set categories \<and>
     set (si_tags item) \<subseteq> set (sc_tags context)"
proof -
  note c = conforming_line [OF assms]
  obtain a x b where "jfind line ''amount'' = Some a" "get_number a = Some x" "jfind line ''informational'' = Some (JBool b)"
    using c(2,3) by blast
  then have "rbind (jat js line ''amount'') (as_double js) = Inr x" "rbind (jat js line ''informational'') (as_bool js) = Inr b" for js
    using c(1) by (simp_all add: jat_def as_double_def)
  moreover have "set_option (optText line ''category'') \<subseteq> set categories"
    using c(4) optText_Some [of line "''category''"] by (cases "optText line ''category''") auto
  ultimately show ?thesis using c(5) by (auto simp: toItem_def)
qed

section \<open>Conforming replies\<close>

lemma conforming_output:
  assumes "conforms (objectSchema (output_properties context categories)) output"
  shows "is_object output"
    and "sc_knownKind context = None \<Longrightarrow> \<exists>k \<in> set scannable_names. jfind output ''kind'' = Some (JString k)"
    and "\<exists>c. jfind output ''currency'' = Some (JString c)"
    and "\<exists>a x. jfind output ''total'' = Some a \<and> get_number a = Some x"
    and "\<exists>lines. jfind output ''items'' = Some (JArray lines) \<and>
      (\<forall>line \<in> set lines. conforms (objectSchema (item_properties context categories)) line)"
  using assms
  by (auto simp: output_properties_def Let_def conforms_jset conforms_object type_ok_cases split: if_splits)

lemma scanned_lines_conforming:
  assumes "\<forall>line \<in> set lines. conforms (objectSchema (item_properties context categories)) line"
  shows "\<exists>items. scanned_lines ah h kind lines = Inr items \<and>
     (\<forall>item \<in> set items. set_option (si_category item) \<subseteq> set categories \<and> set (si_tags item) \<subseteq> set (sc_tags context))"
  using assms
proof (induction lines)
  case (Cons line lines)
  then obtain items where items: "scanned_lines ah h kind lines = Inr items"
    "\<forall>item \<in> set items. set_option (si_category item) \<subseteq> set categories \<and> set (si_tags item) \<subseteq> set (sc_tags context)" by auto
  from Cons.prems obtain item where "toItem ah h line = Inr item" "set_option (si_category item) \<subseteq> set categories"
    "set (si_tags item) \<subseteq> set (sc_tags context)" using toItem_conforming by (metis list.set_intros(1))
  then show ?case using items by (auto)
qed simp

lemma outputSchema_Inr:
  "outputSchema context = Inr schema \<longleftrightarrow>
     (\<exists>categories. categoriesFor context = Inr categories \<and> schema = objectSchema (output_properties context categories))"
  by (auto simp: outputSchema_def rbind_eq_Inr)

lemma scannable_names_known: "k \<in> set scannable_names \<Longrightarrow> \<exists>rules. findKind k = Some rules \<and> scannable rules"
  by (auto simp: scannable_names_def findKind_def kKinds_def scannable_def)

lemma read_output_conforming:
  assumes "categoriesFor context = Inr categories"
    and "conforms (objectSchema (output_properties context categories)) output"
    and "jfind block ''text'' = Some (JString t)" "is_object block" "nl_parse (ah_json ah) t = output"
    and "optText output ''unreadable_reason'' = None"
    and "is_object response" "jfind response ''model'' = Some (JString m)" "jfind response ''id'' = Some (JString i)"
  shows "\<exists>r. read_output ah h response block context = Inr r \<and>
     (case sc_knownKind context of Some k \<Rightarrow> sr_kind r = k
      | None \<Rightarrow> \<exists>rules. findKind (sr_kind r) = Some rules \<and> scannable rules) \<and>
     (\<forall>item \<in> set (sr_items r). set_option (si_category item) \<subseteq> set categories \<and> set (si_tags item) \<subseteq> set (sc_tags context))"
proof -
  note c = conforming_output [OF assms(2)]
  obtain cur a x lines where f: "jfind output ''currency'' = Some (JString cur)" "jfind output ''total'' = Some a" "get_number a = Some x"
    "jfind output ''items'' = Some (JArray lines)" "\<forall>line \<in> set lines. conforms (objectSchema (item_properties context categories)) line"
    using c(3-5) by blast
  have parsed: "rbind (rbind (jat js block ''text'') (as_string js)) (parse_or_throw (ah_json ah)) = Inr output" for js
    using assms(3,4,5) c(1) by (auto simp: jat_def parse_or_throw_def)
  have fields: "jat js output ''currency'' = Inr (JString cur)" "rbind (jat js output ''total'') (as_double js) = Inr x"
    "jat js output ''items'' = Inr (JArray lines)" for js
    using c(1) f by (simp_all add: jat_def as_double_def)
  have envelope: "value_string js response ''model'' [] = Inr m" "value_string js response ''id'' [] = Inr i"
    "\<exists>u. value_json js response ''usage'' (jobject []) = Inr u" for js
    using assms(7-9) by (auto simp: value_string_def value_json_def value_or_def split: option.splits)
  obtain kind where kind: "\<And>js. (case sc_knownKind context of Some k \<Rightarrow> Inr k
      | None \<Rightarrow> rbind (jat js output ''kind'') (as_string js)) = Inr kind"
    and known: "case sc_knownKind context of Some k \<Rightarrow> kind = k
      | None \<Rightarrow> \<exists>rules. findKind kind = Some rules \<and> scannable rules"
    using c(1,2) scannable_names_known by (cases "sc_knownKind context") (auto simp: jat_def)
  obtain items where "scanned_lines ah h kind lines = Inr items"
     "\<forall>item \<in> set items. set_option (si_category item) \<subseteq> set categories \<and> set (si_tags item) \<subseteq> set (sc_tags context)"
    using scanned_lines_conforming [OF f(5)] by blast
  then show ?thesis
    using envelope(3) [of "ah_json ah"] known assms(6)
    by (auto simp: read_output_def read_fields_def Let_def parsed fields envelope(1,2) kind split: option.splits)
qed

text \<open>C20: The schema sent with a request is one the parser accepts: a reply whose text conforms to \<open>outputSchema\<close>, in a
  well-formed message that was neither refused nor cut off and does not report the document unreadable, is parsed
  into a result. The kind is the one the row is known to have or one of the kinds the scanner classifies, every item's
  category is from the categories offered for it and its tags are from the user's tags.\<close>

theorem schema_replies_parse:
  assumes "outputSchema context = Inr schema" and "categoriesFor context = Inr categories"
    and "nl_parse (ah_json ah) body = response" and "is_object response"
    and "jfind response ''stop_reason'' = Some (JString stop)" and "stop \<noteq> ''refusal''" and "stop \<noteq> ''max_tokens''"
    and "jfind response ''model'' = Some (JString m)" and "jfind response ''id'' = Some (JString i)"
    and "jfind response ''content'' = Some (JArray blocks)" and "find_text (ah_json ah) blocks = Inr (Some block)"
    and "is_object block" and "jfind block ''text'' = Some (JString t)"
    and "nl_parse (ah_json ah) t = output" and "conforms schema output"
    and "optText output ''unreadable_reason'' = None"
  shows "\<exists>r. parseResponse ah h body context = Inr r \<and>
     (case sc_knownKind context of Some k \<Rightarrow> sr_kind r = k
      | None \<Rightarrow> \<exists>rules. findKind (sr_kind r) = Some rules \<and> scannable rules) \<and>
     (\<forall>item \<in> set (sr_items r). set_option (si_category item) \<subseteq> set categories \<and> set (si_tags item) \<subseteq> set (sc_tags context))"
proof -
  have conf: "conforms (objectSchema (output_properties context categories)) output"
    using assms(1,2,15) by (auto simp: outputSchema_Inr)
  obtain r where r: "read_output ah h response block context = Inr r"
    "(case sc_knownKind context of Some k \<Rightarrow> sr_kind r = k
      | None \<Rightarrow> \<exists>rules. findKind (sr_kind r) = Some rules \<and> scannable rules) \<and>
     (\<forall>item \<in> set (sr_items r). set_option (si_category item) \<subseteq> set categories \<and> set (si_tags item) \<subseteq> set (sc_tags context))"
    using read_output_conforming [OF assms(2) conf assms(13,12,14,16,4,8,9), of h] by blast
  have "value_string (ah_json ah) response ''stop_reason'' [] = Inr stop"
    using assms(4,5) by (simp add: value_string_def value_or_def)
  then have "parseResponse ah h body context = Inr r"
    using assms(3,4,6,7,10,11) r(1) by (simp add: parseResponse_def Let_def schema_mismatch_def)
  then show ?thesis using r(2) by blast
qed

text \<open>A reply for one purchase, and a JSON library that knows its two texts.\<close>

definition sample_context :: ScanContext where
  "sample_context = \<lparr>sc_knownKind = None, sc_expenseCategories = [''fuel''], sc_incomeCategories = [''pay''], sc_tags = [''trip'']\<rparr>"

definition sample_output :: json where
  "sample_output = jobject [(''unreadable_reason'', JNull), (''currency'', JString ''AUD''), (''total'', JUnsigned 20),
     (''subtotal'', JNull), (''merchant'', JString ''Shell''), (''store_name_raw'', JNull), (''purchase_date'', JNull),
     (''kind'', JString ''purchase''),
     (''items'', JArray [jobject [(''name'', JNull), (''quantity'', JNull), (''unit_price'', JNull), (''amount'', JUnsigned 20),
        (''category'', JString ''fuel''), (''informational'', JBool False), (''tags'', JArray [JString ''trip''])]])]"

definition sample_response :: json where
  "sample_response = jobject [(''id'', JString ''m1''), (''model'', JString ''haiku''), (''stop_reason'', JString ''end_turn''),
     (''content'', JArray [text_block ''reply''])]"

definition sample_api :: ApiHost where
  "sample_api =
     \<lparr>ah_json = \<lparr>nl_parse = (\<lambda>s. if s = ''body'' then sample_response else if s = ''reply'' then sample_output else JDiscarded),
        nl_parse_what = (\<lambda>_. []), nl_key_what = (\<lambda>_. []), nl_type_what = (\<lambda>_ _. []), nl_dump = (\<lambda>_. Inr [])\<rparr>,
      ah_base64 = (\<lambda>s. s), ah_post = (\<lambda>_ _. \<lparr>ar_status = 200, ar_body = ''body'', ar_retryAfter = []\<rparr>),
      ah_latency = (\<lambda>_. 1000000), ah_slept = (\<lambda>_. 0), ah_min = 0\<rparr>"

theorem schema_replies_parse_witness:
  "\<exists>r. parseResponse sample_api sample_host ''body'' sample_context = Inr r \<and>
     (\<exists>rules. findKind (sr_kind r) = Some rules \<and> scannable rules) \<and>
     (\<forall>item \<in> set (sr_items r). set_option (si_category item) \<subseteq> {''fuel'', ''pay''} \<and> set (si_tags item) \<subseteq> {''trip''})"
proof -
  obtain schema where schema: "outputSchema sample_context = Inr schema"
    by (auto simp: outputSchema_def categoriesFor_def sample_context_def)
  have cats: "categoriesFor sample_context = Inr [''fuel'', ''pay'']" by code_simp
  have "case outputSchema sample_context of Inl _ \<Rightarrow> False | Inr s \<Rightarrow> conforms s sample_output" by code_simp
  then have conf: "conforms schema sample_output" using schema by simp
  have "nl_parse (ah_json sample_api) ''body'' = sample_response" "is_object sample_response"
    "jfind sample_response ''stop_reason'' = Some (JString ''end_turn'')" "''end_turn'' \<noteq> ''refusal''"
    "''end_turn'' \<noteq> ''max_tokens''" "jfind sample_response ''model'' = Some (JString ''haiku'')"
    "jfind sample_response ''id'' = Some (JString ''m1'')"
    "jfind sample_response ''content'' = Some (JArray [text_block ''reply''])"
    "find_text (ah_json sample_api) [text_block ''reply''] = Inr (Some (text_block ''reply''))"
    "is_object (text_block ''reply'')" "jfind (text_block ''reply'') ''text'' = Some (JString ''reply'')"
    "nl_parse (ah_json sample_api) ''reply'' = sample_output" by code_simp+
  note env = this
  have "optText sample_output ''unreadable_reason'' = None" by code_simp
  from schema_replies_parse [OF schema cats env conf this, of sample_host] show ?thesis
    by (simp add: sample_context_def)
qed

section \<open>Errors and signs\<close>

text \<open>A message whose \<open>stop_reason\<close> and block types are texts where they are present.\<close>

fun text_or_absent :: "json option \<Rightarrow> bool" where
  "text_or_absent None = True"
| "text_or_absent (Some (JString _)) = True"
| "text_or_absent _ = False"

definition envelope_ok :: "json \<Rightarrow> bool" where
  "envelope_ok response \<longleftrightarrow> text_or_absent (jfind response ''stop_reason'') \<and>
     (case jfind response ''content'' of
        Some (JArray blocks) \<Rightarrow> \<forall>b \<in> set blocks. is_object b \<and> text_or_absent (jfind b ''type'')
      | _ \<Rightarrow> True)"

lemma value_string_ok:
  "is_object j \<Longrightarrow> text_or_absent (jfind j key) \<Longrightarrow> \<exists>s. value_string js j key fallback = Inr s"
  by (auto simp: value_string_def value_or_def split: option.splits elim!: text_or_absent.elims)

lemma find_text_ok:
  "\<forall>b \<in> set blocks. is_object b \<and> text_or_absent (jfind b ''type'') \<Longrightarrow> \<exists>t. find_text js blocks = Inr t"
proof (induction blocks)
  case (Cons b blocks)
  then obtain t where "value_string js b ''type'' [] = Inr t" using value_string_ok by (metis list.set_intros(1))
  then show ?case using Cons by simp
qed simp

lemma find_content_ok:
  "envelope_ok r \<Longrightarrow> \<exists>t. (case jfind r ''content'' of Some (JArray blocks) \<Rightarrow> find_text js blocks | _ \<Rightarrow> Inr None) = Inr t"
  unfolding envelope_ok_def by (auto intro: find_text_ok split: option.splits json.splits)

lemma toItem_throws: "json_throws (toItem ah h line)"
  unfolding toItem_def by (intro json_throws_rbind) (auto split: option.splits)

lemma scanned_lines_throws: "json_throws (scanned_lines ah h kind lines)"
proof (induction lines)
  case (Cons line lines)
  then show ?case by (auto intro!: json_throws_rbind toItem_throws)
qed simp

lemma schema_mismatch_ScanError:
  assumes "json_throws r \<or> (\<exists>m. r = Inl (ScanError m))" and "schema_mismatch r = Inl e"
  shows "\<exists>m. e = ScanError m"
  using assms by (auto simp: schema_mismatch_def json_throws_def split: sum.splits error.splits)

lemma read_fields_throws: "json_throws (read_fields ah h response output context)"
  unfolding read_fields_def Let_def
  by (intro json_throws_rbind scanned_lines_throws) (auto split: option.splits intro: json_throws_rbind)

lemma read_output_throws:
  "json_throws (read_output ah h response block context) \<or> (\<exists>m. read_output ah h response block context = Inl (ScanError m))"
proof -
  let ?text = "rbind (rbind (jat (ah_json ah) block ''text'') (as_string (ah_json ah))) (parse_or_throw (ah_json ah))"
  have "json_throws ?text" by (intro json_throws_rbind) simp_all
  then show ?thesis
    using read_fields_throws by (cases ?text) (auto simp: read_output_def json_throws_def split: option.splits)
qed

lemma parseResponse_cases:
  assumes "is_object response" "nl_parse (ah_json ah) body = response"
    and "value_string (ah_json ah) response ''stop_reason'' [] = Inr stop"
    and "(case jfind response ''content'' of Some (JArray blocks) \<Rightarrow> find_text (ah_json ah) blocks | _ \<Rightarrow> Inr None) = Inr text"
    and "parseResponse ah h body context = Inl e"
  shows "\<exists>m. e = ScanError m"
  using assms schema_mismatch_ScanError [OF read_output_throws]
  by (auto simp: parseResponse_def Let_def split: if_splits option.splits)

text \<open>C23: A reply that cannot be used counts against the receipt, not against the infrastructure: whatever text a
  well-formed message carries, refused, truncated, not JSON, of the wrong shape or unreadable, parsing it either
  succeeds or throws a \<open>ScanError\<close>.\<close>

theorem parse_errors_are_scan_errors:
  assumes "is_object (nl_parse (ah_json ah) body) \<longrightarrow> envelope_ok (nl_parse (ah_json ah) body)"
    and "parseResponse ah h body context = Inl e"
  shows "\<exists>m. e = ScanError m"
proof (cases "is_object (nl_parse (ah_json ah) body)")
  case True
  let ?r = "nl_parse (ah_json ah) body"
  have ok: "envelope_ok ?r" using assms(1) True by simp
  obtain stop where "value_string (ah_json ah) ?r ''stop_reason'' [] = Inr stop"
    using value_string_ok [OF True] ok unfolding envelope_ok_def by blast
  then show ?thesis using find_content_ok [OF ok] parseResponse_cases [OF True refl _ _ assms(2)] by blast
next
  case False
  then show ?thesis using assms(2) by (auto simp: parseResponse_def Let_def)
qed

text \<open>A message whose text is not JSON.\<close>

definition garbled_api :: ApiHost where
  "garbled_api = sample_api\<lparr>ah_json := (ah_json sample_api)\<lparr>nl_parse := (\<lambda>s. if s = ''body'' then sample_response else JDiscarded)\<rparr>\<rparr>"

theorem parse_errors_are_scan_errors_witness:
  "\<exists>m. parseResponse garbled_api sample_host ''body'' sample_context = Inl (ScanError m)"
proof -
  have ok: "is_object (nl_parse (ah_json garbled_api) ''body'') \<longrightarrow> envelope_ok (nl_parse (ah_json garbled_api) ''body'')"
    by code_simp
  have "case parseResponse garbled_api sample_host ''body'' sample_context of Inl _ \<Rightarrow> True | Inr _ \<Rightarrow> False" by code_simp
  then obtain e where e: "parseResponse garbled_api sample_host ''body'' sample_context = Inl e" by (auto split: sum.splits)
  from parse_errors_are_scan_errors [OF ok e] e show ?thesis by auto
qed



lemma llabs_nonneg: "0 \<le> llabs ah n \<or> llabs ah n = ah_min ah"
  by (simp add: llabs_def)

definition signs_ok :: "ApiHost \<Rightarrow> host \<Rightarrow> ScannedItem \<Rightarrow> bool" where
  "signs_ok ah h item \<longleftrightarrow> (0 \<le> si_amountCents item \<or> si_amountCents item = ah_min ah) \<and>
     (\<forall>q. si_quantity item = Some q \<longrightarrow> dless dzero q) \<and>
     (\<forall>p. si_unitPriceCents item = Some p \<longrightarrow> 0 \<le> p \<or> p \<in> range (h_llround h))"

lemma toCents_nonneg: "\<not> dless p dzero \<Longrightarrow> toCents h p \<notin> range (h_llround h) \<Longrightarrow> 0 \<le> toCents h p"
  using llround_nonneg [of p 100 "h_llround h"] by (auto simp: toCents_def double_of_int_exact)

lemma toItem_signs:
  assumes "toItem ah h line = Inr item"
  shows "(\<forall>q. si_quantity item = Some q \<longrightarrow> dless dzero q) \<and>
     (\<forall>p. si_unitPriceCents item = Some p \<longrightarrow> 0 \<le> p \<or> p \<in> range (h_llround h))"
proof -
  have "si_quantity item = (case optNumber line ''quantity'' of Some q \<Rightarrow> if dless dzero q then Some q else None | None \<Rightarrow> None)"
    "si_unitPriceCents item = (case optNumber line ''unit_price'' of
       Some p \<Rightarrow> if p \<noteq> NaN \<and> \<not> dless p dzero then Some (toCents h p) else None | None \<Rightarrow> None)"
    using assms by (auto simp: toItem_def rbind_eq_Inr)
  then show ?thesis using toCents_nonneg [of _ h] by (auto split: option.splits if_splits)
qed

lemma scanned_lines_signs:
  "scanned_lines ah h kind lines = Inr items \<Longrightarrow> \<forall>item \<in> set items. signs_ok ah h item"
proof (induction lines arbitrary: items)
  case (Cons line lines)
  then obtain item rest where item: "toItem ah h line = Inr item" and rest: "scanned_lines ah h kind lines = Inr rest"
    and items: "items = (if si_amountCents item < 0
          then (if kind \<noteq> ''refund'' then rest
                else item\<lparr>si_amountCents := (if si_amountCents item = - (2 ^ 63) then ah_min ah
                   else - si_amountCents item)\<rparr> # rest)
          else item # rest)"
    by (auto simp: rbind_eq_Inr)
  show ?case
    unfolding items using Cons.IH [OF rest] toItem_signs [OF item] by (auto simp: signs_ok_def)
qed simp

lemma schema_mismatch_Inr: "schema_mismatch r = Inr x \<longleftrightarrow> r = Inr x"
  by (auto simp: schema_mismatch_def split: sum.splits error.splits)

lemma chosen_block: "(case t of None \<Rightarrow> Inl e | Some block \<Rightarrow> f block) = Inr r \<Longrightarrow> \<exists>block. f block = Inr r"
  by (cases t) auto

text \<open>C24: What the parser returns has the signs a receipt can store: the total and every item amount are magnitudes, a
  quantity is positive and a unit price non-negative. The exceptions are the values C++ leaves undefined: the
  negation of the least 64-bit integer and a rounding outside 64 bits.\<close>

theorem parsed_amounts_are_magnitudes:
  assumes "parseResponse ah h body context = Inr r"
  shows "(0 \<le> sr_totalCents r \<or> sr_totalCents r = ah_min ah) \<and> (\<forall>item \<in> set (sr_items r). signs_ok ah h item)"
proof -
  obtain response block where "read_output ah h response block context = Inr r"
    using assms by (auto simp: parseResponse_def Let_def rbind_eq_Inr schema_mismatch_Inr split: if_splits dest!: chosen_block)
  then obtain out where "read_fields ah h response out context = Inr r"
    by (auto simp: read_output_def rbind_eq_Inr split: option.splits)
  then show ?thesis
    using llabs_nonneg scanned_lines_signs unfolding read_fields_def Let_def rbind_eq_Inr by fastforce
qed

theorem parsed_amounts_are_magnitudes_witness:
  "\<exists>r. parseResponse sample_api sample_host ''body'' sample_context = Inr r \<and> sr_items r \<noteq> [] \<and>
     (0 \<le> sr_totalCents r \<or> sr_totalCents r = 0) \<and> (\<forall>item \<in> set (sr_items r). signs_ok sample_api sample_host item)"
proof -
  have "case parseResponse sample_api sample_host ''body'' sample_context of Inl _ \<Rightarrow> False | Inr r \<Rightarrow> sr_items r \<noteq> []"
    by code_simp
  then obtain r where r: "parseResponse sample_api sample_host ''body'' sample_context = Inr r" "sr_items r \<noteq> []"
    by (auto split: sum.splits)
  from parsed_amounts_are_magnitudes [OF r(1)] r show ?thesis by (auto simp: sample_api_def)
qed

text \<open>C25: Printed amounts become the right number of cents. When the reply's number for \<open>k\<close> cents is read as a double no
  further from \<open>k / 100\<close> than rounding to 53 bits allows, \<open>toCents\<close> returns \<open>k\<close>, for every \<open>k\<close> of less than 2^50 cents
  in magnitude, whatever the two roundings of the conversion do.\<close>

theorem printed_amounts_become_cents:
  assumes "2 ^ 53 * \<bar>m * 100 - k * 2 ^ n\<bar> \<le> \<bar>k\<bar> * 2 ^ n" and "\<bar>k\<bar> < 2 ^ 50" and "n \<le> 1074"
  shows "toCents h (Fin m (- int n)) = k"
  using llround_scaled [OF assms] by (simp add: toCents_def double_of_int_exact)

text \<open>The double nearest to 0.29, whose product with 100 is below 29.\<close>

theorem printed_amounts_become_cents_witness: "toCents sample_host (Fin 5224175567749775 (- 54)) = 29"
  using printed_amounts_become_cents [of 5224175567749775 29 54 sample_host] by simp

end
