(* ===== verification/ScanCall.thy ===== *)
theory ScanCall
  imports ReplySchema
begin

text \<open>
  One call of the Anthropic adapter from outside: how long it takes and how many requests it makes, against the
  startup check of \<^verbatim>\<open>src/src/scan/ScanServices.cpp\<close>, and what a rescan may do to the first result.
  \<open>scanProvider\<close> is the provider that the environment selects.
\<close>

section \<open>Services\<close>

definition checkedAnthropicConfig :: "host \<Rightarrow> error + AnthropicConfig" where
  "checkedAnthropicConfig h =
     rbind (AnthropicConfig_fromEnv h) (\<lambda>config.
     let worstCase = dadd (dmul (dadd (ac_timeoutSeconds config) (double_of_int 30)) (double_of_int (ac_maxRetries config + 1)))
           (if ac_rescanEffort config = [] then dzero else ac_timeoutSeconds config) in
     rbind (ScanWorkerConfig_fromEnv h) (\<lambda>worker.
     if worstCase \<noteq> NaN \<and> \<not> dless worstCase (double_of_int (cf_reclaimAfterSeconds worker))
     then Inl (RuntimeError (''SCAN_TIMEOUT_SECONDS is too long for SCAN_RECLAIM_SECONDS: a slow call would be '' @
       ''re-queued and scanned twice''))
     else Inr config))"

definition scanProvider :: "ApiHost \<Rightarrow> host \<Rightarrow> error + scan_provider" where
  "scanProvider ah h =
     (let name = envOr h ''SCAN_PROVIDER'' ''fake'' in
      if name = ''fake'' then Inr cannedResult
      else if name = ''anthropic'' then rbind (checkedAnthropicConfig h) (\<lambda>config. Inr (scanReceipt ah h config))
      else Inl (RuntimeError (''unknown SCAN_PROVIDER: '' @ name)))"

definition scanWorker :: "ApiHost \<Rightarrow> host \<Rightarrow> S3Config \<Rightarrow> error + ScanWorker" where
  "scanWorker ah h s3 =
     rbind (scanProvider ah h) (\<lambda>provider.
     rbind (ScanWorkerConfig_fromEnv h) (\<lambda>config.
     Inr \<lparr>sw_store = s3_store h s3, sw_provider = provider, sw_matcher = pg_trgm_similarity h,
          sw_notifier = noop_notify, sw_config = config\<rparr>))"

text \<open>Every provider the environment can select, and the worker around it.\<close>

datatype provider_choice = FakeProvider | AnthropicProvider AnthropicConfig

fun provider_of :: "ApiHost \<Rightarrow> host \<Rightarrow> provider_choice \<Rightarrow> scan_provider" where
  "provider_of ah h FakeProvider = cannedResult"
| "provider_of ah h (AnthropicProvider config) = scanReceipt ah h config"

definition worker_of :: "ApiHost \<Rightarrow> host \<Rightarrow> S3Config \<Rightarrow> ScanWorkerConfig \<Rightarrow> provider_choice \<Rightarrow> ScanWorker" where
  "worker_of ah h s3 config choice =
     \<lparr>sw_store = s3_store h s3, sw_provider = provider_of ah h choice, sw_matcher = pg_trgm_similarity h,
      sw_notifier = noop_notify, sw_config = config\<rparr>"

lemma scanWorker_covered: "scanWorker ah h s3 = Inr sw \<Longrightarrow> \<exists>config choice. sw = worker_of ah h s3 config choice"
proof -
  assume "scanWorker ah h s3 = Inr sw"
  then obtain provider config where "scanProvider ah h = Inr provider"
    "sw = \<lparr>sw_store = s3_store h s3, sw_provider = provider, sw_matcher = pg_trgm_similarity h, sw_notifier = noop_notify,
       sw_config = config\<rparr>" by (auto simp: scanWorker_def rbind_eq_Inr)
  moreover then have "\<exists>choice. provider = provider_of ah h choice"
    by (auto simp: scanProvider_def Let_def rbind_eq_Inr split: if_splits intro: provider_of.simps(1) [symmetric] exI
        provider_of.simps(2) [symmetric])
  ultimately show ?thesis by (auto simp: worker_of_def)
qed

section \<open>What a provider touches\<close>

text \<open>A provider uses time and calls and nothing else: it never writes the database or the bucket.\<close>

definition clock_only :: "world \<Rightarrow> world \<Rightarrow> bool" where
  "clock_only w w' \<longleftrightarrow> w\<lparr>w_now := 0, w_step := 0\<rparr> = w'\<lparr>w_now := 0, w_step := 0\<rparr>"

interpretation clock: step_preorder clock_only
  by unfold_locales (auto simp: clock_only_def tick_step_def)

lemma pass_time_clock: "honours clock_only (pass_time t)"
  by (simp add: honours_def pass_time_def clock_only_def)

lemma sendRequest_clock: "honours clock_only (sendRequest ah req)"
proof -
  have "honours clock_only (bindM (pass_time t) (\<lambda>_. attempt RuntimeError (\<lambda>w'. (Inr x, w'))))" for t and x :: ApiResponse
    by (intro clock.preorder_rules pass_time_clock clock.honours_attempt) (simp add: honours_def clock.R_refl)
  then show ?thesis by (simp add: honours_def sendRequest_def)
qed

lemma post_once_clock: "honours clock_only (post_once ah h config body tries)"
  unfolding post_once_def Let_def by (auto intro!: clock.preorder_rules sendRequest_clock)

lemma send_loop_clock: "honours clock_only (send_loop ah h config body tries left)"
proof (induction left arbitrary: tries)
  case (Suc left)
  then show ?case
    by (auto split: post_outcome.split intro!: clock.preorder_rules post_once_clock pass_time_clock)
qed (auto split: post_outcome.split intro!: clock.preorder_rules post_once_clock)

lemma provider_clock: "honours clock_only (provider_of ah h choice images context)"
proof (cases choice)
  case (AnthropicProvider config)
  have "honours clock_only (send_api ah h config body n)" for body n
    by (simp add: send_api_def send_loop_clock)
  then show ?thesis
    unfolding AnthropicProvider provider_of.simps scanReceipt_def rescan_def by (auto intro!: clock.preorder_rules)
qed (simp add: cannedResult_def clock.honours_ret)

section \<open>Time and requests\<close>

text \<open>An action that takes at most \<open>t\<close> microseconds and \<open>n\<close> calls.\<close>

definition within :: "int \<Rightarrow> nat \<Rightarrow> 'a act \<Rightarrow> bool" where
  "within t n m \<longleftrightarrow> (\<forall>w. w_now (snd (m w)) \<le> w_now w + t \<and> w_step (snd (m w)) \<le> w_step w + n)"

lemma within_ret [simp]: "0 \<le> t \<Longrightarrow> within t n (ret x)"
  and within_raise [simp]: "0 \<le> t \<Longrightarrow> within t n (raise e)"
  and within_lift [simp]: "0 \<le> t \<Longrightarrow> within t n (lift r)"
  by (simp_all add: within_def ret_def raise_def lift_def)

lemma within_pass_time: "d \<le> t \<Longrightarrow> within t 0 (pass_time d)"
  by (simp add: within_def pass_time_def)

lemma within_bindM_result:
  assumes "within t n m" and "\<And>x w w'. m w = (Inr x, w') \<Longrightarrow> within t' n' (f x)" and "0 \<le> t'"
  shows "within (t + t') (n + n') (bindM m f)"
  unfolding within_def
proof
  fix w :: world
  show "w_now (snd (bindM m f w)) \<le> w_now w + (t + t') \<and> w_step (snd (bindM m f w)) \<le> w_step w + (n + n')"
  proof (cases "m w")
    case (Pair r w1)
    have 1: "w_now w1 \<le> w_now w + t \<and> w_step w1 \<le> w_step w + n" using assms(1) Pair unfolding within_def by (metis snd_conv)
    show ?thesis
    proof (cases r)
      case (Inr x)
      have "w_now (snd (f x w1)) \<le> w_now w1 + t' \<and> w_step (snd (f x w1)) \<le> w_step w1 + n'"
        using assms(2) Pair Inr by (simp add: within_def)
      then show ?thesis using 1 Pair Inr by (simp add: bindM_def)
    qed (use 1 Pair assms(3) in \<open>simp add: bindM_def\<close>)
  qed
qed

lemma within_bindM:
  "within t n m \<Longrightarrow> (\<And>x. within t' n' (f x)) \<Longrightarrow> 0 \<le> t' \<Longrightarrow> within (t + t') (n + n') (bindM m f)"
  by (rule within_bindM_result)

lemma within_tryM:
  assumes "within t n m" and "\<And>e. within t' n' (f e)" and "0 \<le> t'"
  shows "within (t + t') (n + n') (tryM m f)"
  unfolding within_def
proof
  fix w :: world
  obtain r w1 where m: "m w = (r, w1)" by (cases "m w")
  have 1: "w_now w1 \<le> w_now w + t \<and> w_step w1 \<le> w_step w + n" using assms(1) m unfolding within_def by (metis snd_conv)
  show "w_now (snd (tryM m f w)) \<le> w_now w + (t + t') \<and> w_step (snd (tryM m f w)) \<le> w_step w + (n + n')"
  proof (cases r)
    case (Inl e)
    have "w_now (snd (f e w1)) \<le> w_now w1 + t' \<and> w_step (snd (f e w1)) \<le> w_step w1 + n'"
      using assms(2) [of e] by (simp add: within_def)
    then show ?thesis using 1 m Inl by (simp add: tryM_def)
  next
    case (Inr x)
    then show ?thesis using 1 m assms(3) by (simp add: tryM_def)
  qed
qed

lemma within_mono: "within t n m \<Longrightarrow> t \<le> t' \<Longrightarrow> n \<le> n' \<Longrightarrow> within t' n' m"
  unfolding within_def by (meson add_left_mono le_trans order_trans)

lemma sendRequest_within:
  assumes "\<And>n. ah_latency ah n \<le> t"
  shows "within t 1 (sendRequest ah req)"
  using assms by (auto simp: within_def sendRequest_def bindM_def pass_time_def attempt_def tick_step_def split: option.splits)

lemma post_once_within:
  assumes "\<And>n. ah_latency ah n \<le> t"
  shows "within t 1 (post_once ah h config body tries)"
proof -
  have "within (t + (0 + 0)) (1 + (0 + 0)) (post_once ah h config body tries)"
    unfolding post_once_def
    by (intro within_bindM sendRequest_within assms) (auto simp: Let_def intro!: within_bindM [where t = 0 and t' = 0 and n = 0 and n' = 0, simplified])
  then show ?thesis by simp
qed

text \<open>The backoff of the first four rounds and every \<open>Retry-After\<close> are at most 30 seconds.\<close>

lemma retry_delay_bound:
  assumes "tries \<le> 3"
  shows "\<not> dless (Fin 30 0) (retry_delay h tries resp)"
proof -
  have "(2::int) ^ tries \<le> 2 ^ 3" using assms by (intro power_increasing) simp_all
  then have "\<not> dless (Fin 30 0) (double_of_int (2 * 2 ^ tries))" by (simp add: double_of_int_exact)
  then show ?thesis
    by (auto simp: retry_delay_def Let_def dclamp_def dzero_def double_of_int_exact split: sum.splits)
qed

lemma post_once_delay:
  assumes "tries \<le> 3" and "post_once ah h config body tries w = (Inr (Retry message delay), w')"
  shows "\<not> dless (Fin 30 0) delay"
  using assms retry_delay_bound [OF assms(1)]
  by (auto simp: post_once_def runs Let_def split: if_splits)

lemma send_loop_within:
  assumes "\<And>n. ah_latency ah n \<le> t" and "\<And>d. \<not> dless (Fin 30 0) d \<Longrightarrow> ah_slept ah d \<le> s" and "0 \<le> t" "0 \<le> s"
    and "tries + left \<le> 4"
  shows "within (t + int left * (t + s)) (Suc left) (send_loop ah h config body tries left)"
  using assms(5)
proof (induction left arbitrary: tries)
  case 0
  have "within (t + 0) (1 + 0) (send_loop ah h config body tries 0)"
    unfolding send_loop.simps
    by (rule within_bindM [OF post_once_within [OF assms(1)]]) (auto split: post_outcome.split)
  then show ?case by simp
next
  case (Suc left)
  have rest: "within (s + (t + int left * (t + s))) (0 + Suc left)
      (bindM (pass_time (ah_slept ah delay)) (\<lambda>_. send_loop ah h config body (Suc tries) left))"
    if "\<not> dless (Fin 30 0) delay" for delay
    using Suc.IH [of "Suc tries"] Suc.prems assms(3,4) by (intro within_bindM within_pass_time assms(2) that) auto
  have "within (t + (s + (t + int left * (t + s)))) (1 + (0 + Suc left)) (send_loop ah h config body tries (Suc left))"
    unfolding send_loop.simps
  proof (rule within_bindM_result [OF post_once_within [OF assms(1)]])
    fix outcome w w'
    assume run: "post_once ah h config body tries w = (Inr outcome, w')"
    show "within (s + (t + int left * (t + s))) (0 + Suc left) (case outcome of Body b \<Rightarrow> ret b
       | Retry _ delay \<Rightarrow> bindM (pass_time (ah_slept ah delay)) (\<lambda>_. send_loop ah h config body (Suc tries) left))"
    proof (cases outcome)
      case (Retry message delay)
      then show ?thesis using rest post_once_delay [of tries ah h config body w message delay w'] run Suc.prems by simp
    qed (use assms(3,4) in simp)
  qed (use assms(3,4) in simp)
  then show ?case by (simp add: algebra_simps)
qed

lemma scanReceipt_within:
  assumes lat: "\<And>n. ah_latency ah n \<le> t" and slept: "\<And>d. \<not> dless (Fin 30 0) d \<Longrightarrow> ah_slept ah d \<le> s" and pos: "0 \<le> t" "0 \<le> s"
    and retries: "ac_maxRetries config \<in> {0..4}"
  shows "within (t + ac_maxRetries config * (t + s) + (if ac_rescanEffort config = [] then 0 else t))
      (nat (ac_maxRetries config) + 2) (scanReceipt ah h config images context)"
proof -
  let ?extra = "if ac_rescanEffort config = [] then 0 else t"
  have send: "within (t + int (nat n) * (t + s)) (Suc (nat n)) (send_api ah h config body n)" if "n \<le> 4" for body n
    unfolding send_api_def by (rule send_loop_within) (use lat slept pos that in auto)
  have parse: "within 0 0 (bindM (lift r) (\<lambda>second. ret (f second)))" for r :: "error + ScanResult" and f :: "ScanResult \<Rightarrow> ScanResult"
    using within_bindM [of 0 0 "lift r" 0 0 "\<lambda>second. ret (f second)"] by simp
  have again: "within t 1 (rescan ah h config req context first)" for req first
  proof -
    have "within (t + 0 + 0) (1 + 0 + 0) (rescan ah h config req context first)"
      unfolding rescan_def using send [of 0] by (intro within_tryM within_bindM parse) simp_all
    then show ?thesis by simp
  qed
  have second: "within ?extra 1 (if itemsAddUp ah h first \<or> ac_rescanEffort config = [] then ret first
     else bindM (lift (request_text ah images context (config\<lparr>ac_effort := ac_rescanEffort config\<rparr>))) (\<lambda>rescanRequest.
     rescan ah h config rescanRequest context first))" for first
    using within_bindM [OF within_lift [of 0 0] again pos(1)] pos by auto
  have "within (0 + ((t + int (nat (ac_maxRetries config)) * (t + s)) + (0 + ?extra)))
      (0 + (Suc (nat (ac_maxRetries config)) + (0 + 1))) (scanReceipt ah h config images context)"
    unfolding scanReceipt_def using retries pos by (intro within_bindM second send) auto
  then show ?thesis using retries by simp
qed

lemma stoi_range: "stoi s = Inr n \<Longrightarrow> - (2 ^ 31) \<le> n \<and> n < 2 ^ 31"
  by (auto simp: stoi_def Let_def split: prod.splits if_splits)

lemma reclaim_range: "ScanWorkerConfig_fromEnv h = Inr wc \<Longrightarrow> \<bar>cf_reclaimAfterSeconds wc\<bar> < 2 ^ 53"
  by (auto simp: ScanWorkerConfig_fromEnv_def envInt_def rbind_eq_Inr dest!: stoi_range)

lemma AnthropicConfig_retries: "AnthropicConfig_fromEnv h = Inr config \<Longrightarrow> ac_maxRetries config = 2"
  by (auto simp: AnthropicConfig_fromEnv_def Let_def rbind_eq_Inr AnthropicConfig_init_def split: if_splits)

lemma checked_worst_case:
  assumes checked: "checkedAnthropicConfig h = Inr config" and worker: "ScanWorkerConfig_fromEnv h = Inr wc"
    and timeout: "ac_timeoutSeconds config = Fin t 0" "0 \<le> t" "t < 2 ^ 40"
  shows "ac_maxRetries config = 2"
    and "(t + 30) * 3 + (if ac_rescanEffort config = [] then 0 else t) < cf_reclaimAfterSeconds wc"
proof -
  let ?rescan = "if ac_rescanEffort config = [] then Fin 0 0 else Fin t 0"
  have env: "AnthropicConfig_fromEnv h = Inr config"
    using checked by (auto simp: checkedAnthropicConfig_def rbind_eq_Inr Let_def split: if_splits)
  then show retries: "ac_maxRetries config = 2" by (rule AnthropicConfig_retries)
  let ?worst = "dadd (dmul (dadd (Fin t 0) (double_of_int 30)) (double_of_int 3)) ?rescan"
  have "?worst = NaN \<or> dless ?worst (double_of_int (cf_reclaimAfterSeconds wc))"
    using checked env worker timeout(1) retries
    by (auto simp: checkedAnthropicConfig_def Let_def dzero_def split: if_splits)
  moreover have "?worst = Fin ((t + 30) * 3 + (if ac_rescanEffort config = [] then 0 else t)) 0"
    using timeout(2,3) by (simp add: double_of_int_exact double_of_exact)
  ultimately have "dless (Fin ((t + 30) * 3 + (if ac_rescanEffort config = [] then 0 else t)) 0)
      (Fin (cf_reclaimAfterSeconds wc) 0)"
    using reclaim_range [OF worker] by (simp add: double_of_int_exact)
  then show "(t + 30) * 3 + (if ac_rescanEffort config = [] then 0 else t) < cf_reclaimAfterSeconds wc"
    unfolding dless_int .
qed

section \<open>Properties\<close>

text \<open>C21: The startup check keeps a slow call from being scanned twice. With a whole number of timeout seconds, an HTTP client
  that returns or fails within the timeout and sleeps that do not overrun, a call of the adapter whose configuration
  passed \<open>checkedAnthropicConfig\<close> makes at most four requests and ends, whatever it returns, before the reclaim window
  has passed: a receipt claimed when the call started is not yet stuck.\<close>

theorem scan_ends_before_reclaim:
  assumes checked: "checkedAnthropicConfig h = Inr config" and worker: "ScanWorkerConfig_fromEnv h = Inr wc"
    and timeout: "ac_timeoutSeconds config = Fin t 0" "0 \<le> t" "t < 2 ^ 40"
    and latency: "\<And>n. ah_latency ah n \<le> t * 10 ^ 6"
    and sleeps: "\<And>d. \<not> dless (Fin 30 0) d \<Longrightarrow> ah_slept ah d \<le> 30 * 10 ^ 6"
  shows "let w' = snd (scanReceipt ah h config images context w) in
     w_step w' \<le> w_step w + 4 \<and> w_now w' < w_now w + cf_reclaimAfterSeconds wc * 10 ^ 6 \<and>
     (r_scan_started_at r = Some (w_now w) \<longrightarrow> \<not> stuck wc (w_now w') r)"
proof -
  let ?w' = "snd (scanReceipt ah h config images context w)"
  let ?extra = "if ac_rescanEffort config = [] then 0 else t * 10 ^ 6"
  note c = checked_worst_case [OF checked worker timeout]
  have "within (t * 10 ^ 6 + ac_maxRetries config * (t * 10 ^ 6 + 30 * 10 ^ 6) + ?extra)
      (nat (ac_maxRetries config) + 2) (scanReceipt ah h config images context)"
    by (rule scanReceipt_within) (use c(1) timeout latency sleeps in auto)
  then have b: "w_now ?w' \<le> w_now w + (t * 10 ^ 6 + 2 * (t * 10 ^ 6 + 30 * 10 ^ 6) + ?extra)" "w_step ?w' \<le> w_step w + 4"
    unfolding within_def by (auto simp: c(1))
  moreover have "t * 10 ^ 6 + 2 * (t * 10 ^ 6 + 30 * 10 ^ 6) + ?extra < cf_reclaimAfterSeconds wc * 10 ^ 6"
    using c(2) by (auto split: if_splits)
  ultimately have "w_now ?w' < w_now w + cf_reclaimAfterSeconds wc * 10 ^ 6" by linarith
  then show ?thesis using b(2) by (auto simp: Let_def stuck_def)
qed

text \<open>An environment with 120 seconds of timeout and a reclaim window of 600 seconds.\<close>

definition api_env_host :: host where
  "api_env_host = sample_host\<lparr>h_env := (\<lambda>name. Some ''600''), h_stod := (\<lambda>_. Inr (Fin 120 0))\<rparr>"

lemma api_env_config:
  "\<exists>config. checkedAnthropicConfig api_env_host = Inr config \<and> ac_timeoutSeconds config = Fin 120 0"
  "\<exists>wc. ScanWorkerConfig_fromEnv api_env_host = Inr wc \<and> cf_reclaimAfterSeconds wc = 600"
proof -
  have "stoi ''600'' = Inr 600" by code_simp
  then show "\<exists>config. checkedAnthropicConfig api_env_host = Inr config \<and> ac_timeoutSeconds config = Fin 120 0"
    "\<exists>wc. ScanWorkerConfig_fromEnv api_env_host = Inr wc \<and> cf_reclaimAfterSeconds wc = 600"
    by (simp_all add: checkedAnthropicConfig_def AnthropicConfig_fromEnv_def ScanWorkerConfig_fromEnv_def envInt_def envOr_def
        api_env_host_def AnthropicConfig_init_def Let_def double_of_int_exact double_of_exact)
qed

theorem scan_ends_before_reclaim_witness:
  "\<exists>config. checkedAnthropicConfig api_env_host = Inr config \<and>
     w_now (snd (scanReceipt sample_api api_env_host config [] sample_context sample_world)) < w_now sample_world + 600 * 10 ^ 6"
proof -
  obtain config wc where c: "checkedAnthropicConfig api_env_host = Inr config" "ac_timeoutSeconds config = Fin 120 0"
    and wc: "ScanWorkerConfig_fromEnv api_env_host = Inr wc" "cf_reclaimAfterSeconds wc = 600"
    using api_env_config by blast
  have time: "ah_latency sample_api n \<le> 120 * 10 ^ 6" "ah_slept sample_api d \<le> 30 * 10 ^ 6" for n d
    by (simp_all add: sample_api_def)
  from scan_ends_before_reclaim [OF c(1) wc(1) c(2) _ _ time, of "[]" sample_context sample_world "undefined"]
  show ?thesis using c(1) wc(2) by (simp add: Let_def)
qed

lemma rescan_outcome:
  "\<exists>r w'. rescan ah h config req context first w = (Inr r, w') \<and>
     ((\<exists>body second. parseResponse ah h body context = Inr second \<and>
        r = second\<lparr>sr_raw := jset (sr_raw second) ''first_scan'' (sr_raw first)\<rparr>) \<or>
      (\<exists>err. r = first\<lparr>sr_raw := jset (sr_raw first) ''rescan_error'' (JString err)\<rparr>))"
proof (cases "send_api ah h config req 0 w")
  case (Pair b w1)
  then show ?thesis
  proof (cases b)
    case (Inl e)
    then show ?thesis using Pair by (auto simp: rescan_def tryM_def bindM_def ret_def)
  next
    case (Inr body)
    then show ?thesis
      using Pair by (cases "parseResponse ah h body context") (auto simp: rescan_def tryM_def bindM_def ret_def lift_def)
  qed
qed


definition mismatched_api :: ApiHost where
  "mismatched_api = sample_api\<lparr>ah_json := (ah_json sample_api)\<lparr>nl_parse := (\<lambda>s. if s = ''body'' then sample_response
     else if s = ''reply'' then jset sample_output ''total'' (JUnsigned 7) else JDiscarded)\<rparr>\<rparr>"

definition scan_config :: AnthropicConfig where
  "scan_config = AnthropicConfig_init\<lparr>ac_apiKey := ''key''\<rparr>"


end
