(* ===== verification/Server.thy ===== *)
theory Server
  imports Backing Pipeline ScanCall
begin

text \<open>
  The server as a whole: requests and the statements of scan workers as the steps of one system, in any order, and what no
  sequence of steps breaks. Scans are not steps: while one waits for its provider, other scans of the same tick, later
  ticks and requests go on, so a step is the smallest part of a scan that the database sees as one, and a tick is shown to
  be a sequence of steps.
\<close>

section \<open>Accounts and the ledger\<close>

lemma account_tables_tenant:
  assumes "tenant_ok d" and "d_items d' = d_items d" "d_item_tags d' = d_item_tags d" "d_receipts d' = d_receipts d"
    "d_images d' = d_images d" "d_categories d' = d_categories d" "d_tags d' = d_tags d"
    "d_payment_methods d' = d_payment_methods d"
  shows "tenant_ok d'"
  using assms by (simp add: tenant_defs sigs)

lemma account_exec:
  assumes "\<And>t d d' x. f t d = Inr (d', x) \<Longrightarrow> d_items d' = d_items d \<and> d_item_tags d' = d_item_tags d \<and>
     d_receipts d' = d_receipts d \<and> d_images d' = d_images d \<and> d_categories d' = d_categories d \<and>
     d_tags d' = d_tags d \<and> d_payment_methods d' = d_payment_methods d"
  shows "honours (ledger_step h) (exec h f)"
proof (rule ledger_stepI)
  show "honours row_step (exec h f)"
    by (rule row.honours_exec_row, rule rows_from_refl) (use assms in fastforce)+
  show "keeps (ledger_ok h) (exec h f)"
    by (rule keeps_exec_ledger) (use assms account_tables_tenant in metis)
qed

lemma account_insert:
  assumes "\<And>n t d d' x. f n t d = Inr (d', x) \<Longrightarrow> d_items d' = d_items d \<and> d_item_tags d' = d_item_tags d \<and>
     d_receipts d' = d_receipts d \<and> d_images d' = d_images d \<and> d_categories d' = d_categories d \<and>
     d_tags d' = d_tags d \<and> d_payment_methods d' = d_payment_methods d"
  shows "honours (ledger_step h) (insert_row h tb f)"
proof (rule ledger_stepI)
  show "honours row_step (insert_row h tb f)"
    by (rule row.honours_insert_row, rule rows_from_refl) (use assms in fastforce)+
  show "keeps (ledger_ok h) (insert_row h tb f)"
    by (rule keeps_insert_ledger) (use assms account_tables_tenant in metis)
qed

lemmas ledger_rules = ledger.honours_rules honours_option honours_if

lemma random_ledger: "honours (ledger_step h) (generateToken n)" "honours (ledger_step h) (pw_hash h p)"
proof -
  have *: "ledger_step h w (w\<lparr>w_rpos := n\<rparr>)" for w n
    using row.R_refl [of w] by (simp add: ledger_step_def row_step_def)
  show "honours (ledger_step h) (generateToken n)"
    unfolding generateToken_def randombytes_def
    by (intro ledger_rules) (simp add: honours_def *)
  show "honours (ledger_step h) (pw_hash h p)"
    by (auto simp: honours_def pw_hash_def * ledger.R_refl split: option.splits)
qed

lemma seed_ledger:
  "honours (ledger_step h) (insert_category h u name inc)" "honours (ledger_step h) (insert_payment_method h u name sv)"
proof -
  show "honours (ledger_step h) (insert_category h u name inc)"
    by (rule ledger_stepI [OF _ acting_keeps [OF insert_category_keeps]])
       (auto simp: insert_category_def Let_def intro!: row.honours_insert_row rows_from_refl)
  show "honours (ledger_step h) (insert_payment_method h u name sv)"
    by (rule ledger_stepI [OF _ acting_keeps [OF insert_payment_method_keeps]])
       (auto simp: insert_payment_method_def Let_def intro!: row.honours_insert_row rows_from_refl)
qed

lemma registerUser_ledger: "honours (ledger_step h) (registerUser h email password)"
  unfolding registerUser_def insert_user_def seed_user_def
  by (intro ledger_rules random_ledger seed_ledger account_insert) auto

lemma auth_ledger:
  "honours (ledger_step h) (login h email password)" "honours (ledger_step h) (validateSession h token)"
  "honours (ledger_step h) (logout h token)" "honours (ledger_step h) (requestPasswordReset h email)"
  "honours (ledger_step h) (confirmPasswordReset h token password)"
  "honours (ledger_step h) (requestEmailVerification h u)" "honours (ledger_step h) (confirmEmailVerification h token)"
  unfolding auth_defs
  by (intro ledger_rules random_ledger account_insert account_exec; auto)+

section \<open>Every route\<close>

lemmas service_acting = item_create_keeps item_update_keeps item_remove_keeps reference_create_keeps reference_remove_keeps
  category_update_keeps createManual_keeps updateReceipt_keeps retryScan_keeps

lemma service_ledger:
  "honours (ledger_step h) (item_create h u n body)" "honours (ledger_step h) (item_update h u n m body)"
  "honours (ledger_step h) (item_remove h u n m)"
  "honours (ledger_step h) (category_create h u body)" "honours (ledger_step h) (tag_create h u body)"
  "honours (ledger_step h) (payment_method_create h u body)"
  "honours (ledger_step h) (category_update h u n body)" "honours (ledger_step h) (tag_update h u n body)"
  "honours (ledger_step h) (payment_method_update h u n body)"
  "honours (ledger_step h) (category_remove h u n)" "honours (ledger_step h) (tag_remove h u n)"
  "honours (ledger_step h) (payment_method_remove h u n)"
  "honours (ledger_step h) (createManual h u body)" "honours (ledger_step h) (updateReceipt h u n body)"
  "honours (ledger_step h) (retryScan h u n)"
  by (intro ledger_stepI row.item_ops_row row.reference_create_row row.reference_remove_row row.category_update_row row.tag_update_row
      row.payment_method_update_row row.createManual_row row.updateReceipt_row row.retryScan_row acting_keeps [of h u]
      service_acting)+

lemma image_ledger:
  "honours (ledger_step h) (uploadReceipt h (s3_store h cfg) u images force)"
  "honours (ledger_step h) (addImages h (s3_store h cfg) u n images force)"
  "honours (ledger_step h) (deleteReceipt h (s3_store h cfg) u n)"
  by (intro ledger_stepI s3.rows.uploadReceipt_R s3.rows.addImages_R s3.deleteReceipt_row
      acting_keeps [of h u] s3.uploadReceipt_keeps s3.addImages_keeps s3.deleteReceipt_keeps)+

lemma s3_get_ledger: "honours (ledger_step h) (is_get (s3_store h cfg) key)"
proof (rule ledger_stepI [OF s3.store_row(2)])
  show "keeps (ledger_ok h) (is_get (s3_store h cfg) key)"
    unfolding keeps_def using s3.get_db by (metis prod.collapse)
qed

lemma read_ledger:
  "honours (ledger_step h) (listImages h u n)" "honours (ledger_step h) (listReceipts h u lim off)"
  "honours (ledger_step h) (getReceipt h u n)" "honours (ledger_step h) (findImage n)"
  "honours (ledger_step h) (item_list u n)" "honours (ledger_step h) (category_list h u)"
  "honours (ledger_step h) (tag_list h u)" "honours (ledger_step h) (payment_method_list h u)"
  unfolding read_defs
  by (intro ledger_rules)+

lemma guarded_ledger: "honours (ledger_step h) m \<Longrightarrow> honours (ledger_step h) (guarded m)"
  unfolding guarded_def by (intro ledger_rules)

lemmas route_rules = ledger_rules honours_sum honours_upload guarded_ledger service_ledger image_ledger s3_get_ledger
  read_ledger auth_ledger registerUser_ledger

lemma dispatch_ledger: "honours (ledger_step h) (dispatch h (s3_store h cfg) u req r)"
  by (cases r; simp only: dispatch.simps;
      (unfold handler_defs)?;
      intro route_rules)

lemma serve_ledger: "honours (ledger_step h) (serve h (s3_store h cfg) req r)"
  unfolding serve_def doFilter_def by (intro route_rules dispatch_ledger)

lemma public_ledger: "honours (ledger_step h) (fst (public_action h now req lims r))"
proof (cases r)
  case Register
  have "honours (ledger_step h) (register_action h email password)" for email password
    unfolding register_action_def by (intro route_rules)
  then show ?thesis unfolding Register public_action.simps auth_register_def by (intro honours_limited ledger_rules)
next
  case Login
  have "honours (ledger_step h) (login_action h email password)" for email password
    unfolding login_action_def by (intro route_rules)
  then show ?thesis unfolding Login public_action.simps auth_login_def by (intro honours_limited ledger_rules)
qed (simp only: public_action.simps fst_conv;
     unfold verifyEmail_def auth_requestPasswordReset_def auth_confirmPasswordReset_def health_def;
     intro route_rules)+

section \<open>The system\<close>

datatype event = Serve Request route | Public int Limiters Request public_route

fun event_action :: "host \<Rightarrow> S3Config \<Rightarrow> event \<Rightarrow> Response act" where
  "event_action h cfg (Serve req r) = serve h (s3_store h cfg) req r"
| "event_action h cfg (Public now lims req r) = fst (public_action h now req lims r)"

definition events :: "host \<Rightarrow> S3Config \<Rightarrow> event list \<Rightarrow> unit act" where
  "events h cfg evs = forM evs (\<lambda>ev. tryM (bindM (event_action h cfg ev) (\<lambda>_. ret ())) (\<lambda>_. ret ()))"

text \<open>The worker of \<open>scanWorker()\<close>, whose provider and matcher answer once the requests that arrive while they
  run have been served: \<open>during\<close> and \<open>between\<close> are those requests.\<close>

definition interleaved ::
    "host \<Rightarrow> S3Config \<Rightarrow> (string list \<Rightarrow> ScanContext \<Rightarrow> event list) \<Rightarrow> (string \<Rightarrow> string \<Rightarrow> event list) \<Rightarrow> ScanWorker \<Rightarrow> ScanWorker" where
  "interleaved h cfg during between sw =
     sw\<lparr>sw_provider := (\<lambda>images ctx. bindM (events h cfg (during images ctx)) (\<lambda>_. sw_provider sw images ctx)),
        sw_matcher := (\<lambda>a b. bindM (events h cfg (between a b)) (\<lambda>_. sw_matcher sw a b))\<rparr>"

definition app_worker ::
    "ApiHost \<Rightarrow> host \<Rightarrow> S3Config \<Rightarrow> ScanWorkerConfig \<Rightarrow> provider_choice \<Rightarrow> (string list \<Rightarrow> ScanContext \<Rightarrow> event list) \<Rightarrow>
     (string \<Rightarrow> string \<Rightarrow> event list) \<Rightarrow> ScanWorker" where
  "app_worker ah h cfg wcfg choice during between = interleaved h cfg during between (worker_of ah h cfg wcfg choice)"

section \<open>The invariant of the system\<close>

definition sys_ok :: "host \<Rightarrow> S3Config \<Rightarrow> world \<Rightarrow> bool" where
  "sys_ok h cfg w \<longleftrightarrow> ids_below w \<and> ledger_ok h (w_db w) \<and> backed (s3_object cfg) w"

definition sys_step :: "host \<Rightarrow> S3Config \<Rightarrow> world \<Rightarrow> world \<Rightarrow> bool" where
  "sys_step h cfg w w' \<longleftrightarrow> row_step w w' \<and> (sys_ok h cfg w \<longrightarrow> sys_ok h cfg w')"

interpretation sys: step_preorder "sys_step h cfg" for h cfg
proof unfold_locales
  show "sys_step h cfg w (tick_step w)" for w
    using row.R_tick [of w] ids_below_stable [of w "tick_step w"]
    by (auto simp: sys_step_def sys_ok_def backed_def)
qed (auto simp: sys_step_def intro: row.R_refl row.R_trans)

lemma sys_stepI:
  assumes "honours (ledger_step h) m" and "honours (grow (s3_object cfg)) m"
  shows "honours (sys_step h cfg) m"
  using assms ids_below_stable by (auto simp: honours_def ledger_step_def grow_def sys_step_def sys_ok_def)

lemmas sys_rules = sys.preorder_rules honours_option honours_if

lemma deleteReceipt_sys: "honours (sys_step h cfg) (deleteReceipt h (s3_store h cfg) u n)"
  using image_ledger(3) [of h cfg u n] s3.deleteReceipt_backed [of h _ cfg h u n] ids_below_stable
  by (auto simp: honours_def ledger_step_def sys_step_def sys_ok_def)

lemma dispatch_sys: "honours (sys_step h cfg) (dispatch h (s3_store h cfg) u req r)"
proof (cases "\<exists>n. r = RemoveReceipt n")
  case True
  then show ?thesis
    by (auto simp: receipt_remove_def guarded_def intro!: sys_rules deleteReceipt_sys)
next
  case False
  then show ?thesis by (intro sys_stepI dispatch_ledger s3.growing.dispatch_R) simp
qed

lemma event_sys: "honours (sys_step h cfg) (event_action h cfg ev)"
proof (cases ev)
  case (Serve req r)
  show ?thesis
    unfolding Serve event_action.simps serve_def doFilter_def
    by (intro sys_rules dispatch_sys sys_stepI [OF auth_ledger(2) s3.growing.auth_R(2)])
next
  case (Public now lims req r)
  show ?thesis
    unfolding Public event_action.simps by (rule sys_stepI [OF public_ledger s3.growing.public_R])
qed

lemmas app_worker_defs = app_worker_def interleaved_def worker_of_def

text \<open>Time, randomness and failures are outside the invariant.\<close>

lemma clock_sys: "w_db w' = w_db w \<Longrightarrow> w_seq w' = w_seq w \<Longrightarrow> w_store w' = w_store w \<Longrightarrow> sys_step h cfg w w'"
proof -
  assume eq: "w_db w' = w_db w" "w_seq w' = w_seq w" "w_store w' = w_store w"
  have "s3_object cfg w' = s3_object cfg w" by (rule s3.object_local) (rule eq(3))
  moreover have "row_step w w'" using row.R_refl [of w] eq by (simp add: row_step_def)
  ultimately show ?thesis using eq by (simp add: sys_step_def sys_ok_def ids_below_def backed_def)
qed

text \<open>The statements of a scan worker.\<close>

lemma write_result_sys:
  assumes "claim_held c w"
  shows "sys_step h cfg w (snd (write_result h c res tx before m w))"
  using assms row.write_result_row [of h c res tx before m] write_result_ledger [of c h res tx before m]
    s3.growing.write_result_row [of cfg h c res tx before m] ids_below_stable
  by (auto simp: sys_step_def sys_ok_def honours_def keeps_pre_def claim_held_def grow_def)

lemma worker_sys:
  "honours (sys_step h cfg) (spend_failure h c e cap)" "honours (sys_step h cfg) (reclaim_rows h cf)"
  "honours (sys_step h cfg) (claim_receipts h cf clock)"
proof -
  show "honours (sys_step h cfg) (spend_failure h c e cap)"
    by (rule sys_stepI [OF ledger_stepI [OF row.spend_failure_row] s3.growing.spend_failure_row])
       (auto simp: spend_failure_def intro!: same_refs_keeps fail_row_same_refs)
  show "honours (sys_step h cfg) (reclaim_rows h cf)"
    by (rule sys_stepI [OF ledger_stepI [OF row.reclaim_rows_row] s3.growing.reclaim_rows_row])
       (auto simp: reclaim_rows_def intro!: same_refs_keeps fail_row_same_refs)
  show "honours (sys_step h cfg) (claim_receipts h cf clock)"
    by (rule sys_stepI [OF ledger_stepI [OF row.claim_receipts_row] s3.growing_claims.claim_receipts_row])
       (auto simp: claim_receipts_def Let_def same_refs_def claim_row_def intro!: same_refs_keeps)
qed

section \<open>Runs\<close>

text \<open>
  One step: a request; a reclaim or a claim by a worker; the transaction that writes a result, or the statement that records a
  failure, under a claim; or anything that passes outside the database and the bucket (time, randomness, failures, a provider
  call, a read). There may be any number of workers with any configuration, and what a scan read, compared and got from its
  provider before it writes is arbitrary; its claim names a receipt of the claim's user, as every claim does that a worker
  took (\<open>claims_are_held\<close>). The clocks that claims take their tokens from are \<open>K\<close>.
\<close>

inductive step :: "host \<Rightarrow> S3Config \<Rightarrow> (int \<Rightarrow> instant) set \<Rightarrow> world \<Rightarrow> world \<Rightarrow> bool" for h cfg K where
  step_event: "step h cfg K w (snd (event_action h cfg ev w))"
| step_reclaim: "step h cfg K w (snd (reclaim_rows h wcfg w))"
| step_claim: "clock \<in> K \<Longrightarrow> step h cfg K w (snd (claim_receipts h wcfg clock w))"
| step_write: "claim_held c w \<Longrightarrow> step h cfg K w (snd (write_result h c res tx before m w))"
| step_fail: "step h cfg K w (snd (spend_failure h c e cap w))"
| step_env: "w_db w' = w_db w \<Longrightarrow> w_seq w' = w_seq w \<Longrightarrow> w_store w' = w_store w \<Longrightarrow> step h cfg K w w'"

inductive run :: "host \<Rightarrow> S3Config \<Rightarrow> (int \<Rightarrow> instant) set \<Rightarrow> world \<Rightarrow> world \<Rightarrow> bool" for h cfg K where
  run_refl: "run h cfg K w w"
| run_step: "run h cfg K w w' \<Longrightarrow> step h cfg K w' w'' \<Longrightarrow> run h cfg K w w''"

lemma run_trans: "run h cfg K a b \<Longrightarrow> run h cfg K b c \<Longrightarrow> run h cfg K a c"
  by (rotate_tac, induction rule: run.induct) (auto intro: run_step)

lemma step_sys_step: "step h cfg K w w' \<Longrightarrow> sys_step h cfg w w'"
proof (induction rule: step.induct)
  case (step_event w ev)
  show ?case using event_sys [of h cfg ev] by (simp add: honours_def)
next
  case (step_reclaim w wcfg)
  show ?case using worker_sys(2) by (simp add: honours_def)
next
  case (step_claim clock w wcfg)
  show ?case using worker_sys(3) by (simp add: honours_def)
next
  case (step_write c w res tx before m)
  then show ?case by (rule write_result_sys)
next
  case (step_fail w c e cap)
  show ?case using worker_sys(1) by (simp add: honours_def)
qed (rule clock_sys)

lemma run_sys_step: "run h cfg K w w' \<Longrightarrow> sys_step h cfg w w'"
  by (induction rule: run.induct) (auto intro: sys.R_refl sys.R_trans step_sys_step)

lemma run_sys: "run h cfg K w0 w \<Longrightarrow> sys_ok h cfg w0 \<Longrightarrow> sys_ok h cfg w"
  using run_sys_step by (auto simp: sys_step_def)

lemma run_row: "run h cfg K w w' \<Longrightarrow> row_step w w'"
  using run_sys_step by (auto simp: sys_step_def)

section \<open>A tick is a run\<close>

interpretation runs: step_preorder "run h cfg K" for h cfg K
  by unfold_locales (auto intro: run_refl run_trans run_step [OF run_refl step_env] simp: tick_step_def)

lemma step_run: "step h cfg K w w' \<Longrightarrow> run h cfg K w w'"
  by (rule run_step [OF run_refl])

lemmas run_rules = runs.preorder_rules honours_option honours_if

lemma events_run: "honours (run h cfg K) (events h cfg evs)"
proof -
  have "honours (run h cfg K) (event_action h cfg ev)" for ev
    by (simp add: honours_def step_run step_event)
  then show ?thesis unfolding events_def by (intro run_rules)
qed

lemma provider_run: "honours (run h cfg K) (provider_of ah h choice images context)"
proof -
  have "run h cfg K w w'" if "clock_only w w'" for w w'
    using that by (intro step_run step_env) (auto simp: clock_only_def dest: arg_cong [of _ _ w_db] arg_cong [of _ _ w_seq] arg_cong [of _ _ w_store])
  then show ?thesis using provider_clock [of ah h choice images "context"] by (simp add: honours_def)
qed

lemma s3_get_run: "honours (run h cfg K) (is_get (s3_store h' cfg') key)"
  by (auto simp: honours_def s3_store_def s3_get_eq tick_step_def split: option.splits intro!: step_run step_env)

interpretation scan_run: scan_pipeline "run h cfg UNIV" h "app_worker ah h cfg wcfg choice during between"
    "sys_ok h cfg" "\<lambda>c w. claim_held c w \<and> sys_ok h cfg w"
  for ah h cfg wcfg choice during between
proof unfold_locales
  let ?sw = "app_worker ah h cfg wcfg choice during between" and ?run = "run h cfg UNIV"
  show "honours ?run (sw_provider ?sw images ctx)" for images ctx
    unfolding app_worker_defs by (simp, intro run_rules events_run provider_run)
  show "honours ?run (sw_matcher ?sw a b)" for a b
    unfolding app_worker_defs pg_trgm_similarity_def by (simp, intro run_rules events_run)
  show "honours ?run (sw_notifier ?sw u e p)" for u e p
    unfolding app_worker_defs noop_notify_def by (simp, intro run_rules)
  show "honours ?run (is_get (sw_store ?sw) key)" for key
    unfolding app_worker_defs by (simp add: s3_get_run)
  show "sys_ok h cfg w'" if "sys_ok h cfg w" "?run w w'" for w w' using run_sys that by blast
  show "claim_held c w' \<and> sys_ok h cfg w'" if "claim_held c w \<and> sys_ok h cfg w" "?run w w'" for c w w'
    using that claim_held_stable run_row run_sys by blast
  show "?run w (snd (write_result h c res tx before m w))" if "claim_held c w \<and> sys_ok h cfg w" for c w res tx before m
    using that by (intro step_run step_write) simp
  show "honours ?run (spend_failure h c e cap)" for c e cap by (simp add: honours_def step_run step_fail)
  show "honours ?run (reclaim_rows h cf)" for cf by (simp add: honours_def step_run step_reclaim)
  show "honours ?run (claim_receipts h cf clock)" for cf clock by (simp add: honours_def step_run step_claim)
  show "claim_held c w' \<and> sys_ok h cfg w'"
    if "sys_ok h cfg w" "claim_receipts h cf clock w = (Inr cs, w')" "c \<in> set cs" for c w w' cf clock cs
  proof -
    have "sys_ok h cfg w'" using worker_sys(3) [of h cfg cf clock] that unfolding honours_def sys_step_def by (metis snd_conv)
    then show ?thesis using that claims_are_held by (auto simp: sys_ok_def)
  qed
qed

lemma empty_sys: "w_db w = empty_db \<Longrightarrow> sys_ok h cfg w"
  by (simp add: sys_ok_def backed_def ids_below_def ledger_ok_def violation_def check_violation_def unique_violation_def
      fk_violation_def tenant_ok_def empty_db_def)

text \<open>C1: Whatever requests arrive, whoever sends them, however the scans of any number of workers interleave with them and with
  each other, and whichever calls of the database, the bucket or the provider fail: every row satisfies the schema's constraints, every
  category, tag, payment method and offset target that a receipt or item refers to belongs to the
  receipt's owner, item categories are on the side of their receipt's kind, and every image belongs to its receipt's owner
  under a key of that user and receipt.\<close>

theorem tenants_stay_apart:
  assumes "run h cfg K w0 w" and "w_db w0 = empty_db"
  shows "ledger_ok h (w_db w)"
  using run_sys [OF assms(1) empty_sys [OF assms(2)]] by (simp add: sys_ok_def)

text \<open>From the empty database: a registration, a request without a session, a tick.\<close>

definition sample_request :: Request where
  "sample_request = \<lparr>rq_body = JObject [(''email'', JString ''ann@x.au''), (''password'', JString ''pw'')],
     rq_files = None, rq_param = (\<lambda>_. []), rq_cookie = [], rq_peer = ''::1''\<rparr>"

definition sample_limiters :: Limiters where
  "sample_limiters =
     (let lim = \<lparr>rl_maxAttempts = 10, rl_window = interval 300, rl_attempts = (\<lambda>_. None)\<rparr>
      in \<lparr>lm_loginIp = lim, lm_loginAccount = lim, lm_registerIp = lim, lm_registerAccount = lim\<rparr>)"

definition sample_config :: S3Config where
  "sample_config = s3ConfigFromEnv sample_host"

definition sample_run_end :: world where
  "sample_run_end =
     snd (tick sample_host (app_worker sample_api sample_host sample_config
          \<lparr>cf_concurrency = 2, cf_maxScanAttempts = 3, cf_maxReclaims = 10, cf_reclaimAfterSeconds = 600,
           cf_matchDateDays = 3, cf_merchantMatchThreshold = dzero\<rparr> (AnthropicProvider scan_config)
          (\<lambda>_ _. [Serve sample_request ListTags]) (\<lambda>_ _. [])) (\<lambda>_. 7)
       (snd (event_action sample_host sample_config (Serve sample_request CreateManual)
         (snd (event_action sample_host sample_config (Public 0 sample_limiters sample_request Register) sample_world)))))"

lemma sample_run: "run sample_host sample_config UNIV sample_world sample_run_end"
proof -
  let ?w = "snd (event_action sample_host sample_config (Serve sample_request CreateManual)
         (snd (event_action sample_host sample_config (Public 0 sample_limiters sample_request Register) sample_world)))"
  have run: "run sample_host sample_config UNIV sample_world ?w"
    by (rule run_step [OF run_step [OF run_refl step_event] step_event])
  then have "sys_ok sample_host sample_config ?w" by (rule run_sys) (simp add: empty_sys sample_world_def)
  from run_trans [OF run scan_run.tick_R [OF this]] show ?thesis unfolding sample_run_end_def .
qed

theorem tenants_stay_apart_witness: "ledger_ok sample_host (w_db sample_run_end)"
proof -
  have "w_db sample_world = empty_db" by (simp add: sample_world_def)
  then show ?thesis by (rule tenants_stay_apart [OF sample_run])
qed

text \<open>C2: Every image row has its object: whatever uploads, deletions, scans and failures the run
  holds, the bucket has the object under the key of every row of \<open>images\<close>. The service puts an object before it
  inserts the row and removes it after the row is gone, so that a fault in between leaves an orphaned object and never a
  row whose image cannot be fetched.\<close>

theorem images_stay_backed:
  assumes "run h cfg K w0 w" and "sys_ok h cfg w0" and "g \<in> set (d_images (w_db w))"
  shows "s3_object cfg w (g_image_key g) \<noteq> None"
  using run_sys [OF assms(1,2)] assms(3) unfolding sys_ok_def backed_def by (meson domIff)

text \<open>Ann, who is logged in, uploads a photo.\<close>

definition ann_world :: world where
  "ann_world = auth_world\<lparr>w_seq := (\<lambda>_. 2), w_db := (w_db auth_world)
     \<lparr>d_sessions := [\<lparr>s_id = 1, s_user_id = 1, s_token_hash = hashToken sample_host ''t'',
        s_expires_at = 9789000000000000\<rparr>]\<rparr>\<rparr>"

definition photo_request :: Request where
  "photo_request = sample_request\<lparr>rq_files := Some [''p''], rq_cookie := ''t''\<rparr>"

definition photo_run_end :: world where
  "photo_run_end = snd (event_action sample_host sample_config (Serve photo_request Upload) ann_world)"

lemma photo_run: "run sample_host sample_config UNIV ann_world photo_run_end"
  unfolding photo_run_end_def by (rule run_step [OF run_refl step_event])

lemma ann_sys: "sys_ok sample_host sample_config ann_world"
proof -
  have "violation sample_host (w_db ann_world) = None" by code_simp
  then show ?thesis
    by (simp add: sys_ok_def ids_below_def ledger_ok_def tenant_ok_def backed_def ann_world_def auth_world_def sample_world_def
        empty_db_def)
qed

theorem images_stay_backed_witness:
  "\<exists>g \<in> set (d_images (w_db photo_run_end)). s3_object sample_config photo_run_end (g_image_key g) \<noteq> None"
proof -
  have "d_images (w_db photo_run_end) \<noteq> []" by code_simp
  then have g: "hd (d_images (w_db photo_run_end)) \<in> set (d_images (w_db photo_run_end))" by simp
  from images_stay_backed [OF photo_run ann_sys g] g show ?thesis by blast
qed

text \<open>C3: Over any run of the system, a receipt with an id handed out before the run is the receipt that had
  it then: no id is reused, no receipt changes its owner, and a receipt a user has reviewed stays reviewed, through every
  scan, failure and retry.\<close>

theorem receipts_keep_identity:
  assumes "run h cfg K w w'" and "r' \<in> set (d_receipts (w_db w'))" and "r_id r' < w_seq w Receipts"
  shows "\<exists>r \<in> set (d_receipts (w_db w)). r_id r = r_id r' \<and> r_user_id r = r_user_id r' \<and>
      (r_reviewed_at r \<noteq> None \<longrightarrow> r_reviewed_at r' \<noteq> None)"
  using run_row [OF assms(1)] assms(2,3) unfolding row_step_def by fastforce

text \<open>A world with one reviewed receipt.\<close>

definition reviewed_world :: world where
  "reviewed_world = auth_world\<lparr>w_seq := (\<lambda>_. 2), w_db := (w_db auth_world)
     \<lparr>d_receipts := [(new_receipt 1 0 1 kDefaultKind ''outflow'' kManual kIdle)\<lparr>r_reviewed_at := Some 5\<rparr>]\<rparr>\<rparr>"

theorem receipts_keep_identity_witness:
  "\<exists>r' \<in> set (d_receipts (w_db (snd (event_action sample_host sample_config (Serve sample_request CreateManual) reviewed_world)))).
     \<exists>r \<in> set (d_receipts (w_db reviewed_world)). r_id r = r_id r' \<and> r_user_id r = r_user_id r' \<and>
      (r_reviewed_at r \<noteq> None \<longrightarrow> r_reviewed_at r' \<noteq> None)"
proof -
  let ?w' = "snd (event_action sample_host sample_config (Serve sample_request CreateManual) reviewed_world)"
  have "\<exists>r' \<in> set (d_receipts (w_db ?w')). r_id r' < w_seq reviewed_world Receipts" by code_simp
  then obtain r' where r': "r' \<in> set (d_receipts (w_db ?w'))" "r_id r' < w_seq reviewed_world Receipts" by blast
  have "run sample_host sample_config UNIV reviewed_world ?w'" by (rule run_step [OF run_refl step_event])
  from receipts_keep_identity [OF this r'] show ?thesis using r'(1) by blast
qed

text \<open>C4: Nothing of the worker escapes the interleaving. A tick, with everything its scans read, ask the provider and the matcher, write
  and record, and with the requests that are served while they wait, is a run of single steps: reclaims, claims, and writes and
  failures under claims that name a receipt of their user. What holds over every order of those steps holds over ticks,
  however they overlap.\<close>

theorem ticks_are_runs:
  assumes "sys_ok h cfg w"
  shows "run h cfg UNIV w (snd (tick h (app_worker ah h cfg wcfg choice during between) clock w))"
  by (rule scan_run.tick_R [OF assms])

theorem ticks_are_runs_witness:
  "run sample_host sample_config UNIV photo_run_end (snd (tick sample_host
     (app_worker sample_api sample_host sample_config \<lparr>cf_concurrency = 2, cf_maxScanAttempts = 3, cf_maxReclaims = 10,
        cf_reclaimAfterSeconds = 600, cf_matchDateDays = 3, cf_merchantMatchThreshold = dzero\<rparr> FakeProvider
        (\<lambda>_ _. [Serve photo_request Upload]) (\<lambda>_ _. [])) (\<lambda>_. 7) photo_run_end))"
proof -
  have "sys_ok sample_host sample_config photo_run_end"
    by (rule run_sys [OF photo_run ann_sys])
  then show ?thesis by (rule ticks_are_runs)
qed

end
