(* ===== verification/Access.thy ===== *)
theory Access
  imports Backing
begin

text \<open>
  Who may see and do what over HTTP: the session filter in front of the protected routes, and the one route that hands
  out stored bytes.
\<close>

lemma doFilter_no_session:
  assumes "find_row (live_session (hashToken h token) (w_now w)) (d_sessions (w_db w)) = None"
  shows "doFilter h token w = (Inr None, w) \<or> doFilter h token w = (Inr None, tick_step w) \<or>
     (\<exists>e. doFilter h token w = (Inl e, tick_step w))"
  using assms
  by (auto simp: doFilter_def validateSession_def bindM_def query_def attempt_def ret_def tick_step_def Let_def split: option.splits)

text \<open>C7: No session, no access. A request to a protected route whose cookie is not the token of a session that is live now is
  answered with 401, or fails with the database's own error, and changes nothing in the database, the bucket or the
  random stream, whatever the route and the body.\<close>

theorem session_required:
  assumes "find_row (live_session (hashToken h (rq_cookie req)) (w_now w)) (d_sessions (w_db w)) = None"
  shows "case serve h st req r w of (result, w') \<Rightarrow>
     w_db w' = w_db w \<and> w_store w' = w_store w \<and> w_rpos w' = w_rpos w \<and>
     (case result of Inr resp \<Rightarrow> resp = unauthorized \<and> rp_status resp = 401 | Inl e \<Rightarrow> w_faults w (w_step w) \<noteq> None)"
  using assms
  by (auto simp: serve_def doFilter_def validateSession_def bindM_def query_def attempt_def ret_def tick_step_def Let_def
      unauthorized_def errorResponse_def jsonResponse_def split: option.splits)

theorem session_required_witness:
  "case serve sample_host (s3_store sample_host (s3ConfigFromEnv sample_host))
        \<lparr>rq_body = JNull, rq_files = None, rq_param = (\<lambda>_. []), rq_cookie = ''x'', rq_peer = []\<rparr> (RemoveReceipt 1) sample_world of
     (result, w') \<Rightarrow> w_db w' = empty_db"
proof -
  let ?req = "\<lparr>rq_body = JNull, rq_files = None, rq_param = (\<lambda>_. []), rq_cookie = ''x'', rq_peer = []\<rparr>"
  have "find_row (live_session (hashToken sample_host (rq_cookie ?req)) (w_now sample_world)) (d_sessions (w_db sample_world)) = None"
    by code_simp
  from session_required [OF this, of "s3_store sample_host (s3ConfigFromEnv sample_host)" "RemoveReceipt 1"]
  show ?thesis by (auto simp: sample_world_def split: prod.splits)
qed

lemma doFilter_Some:
  assumes "doFilter h token w = (Inr (Some uid), w')"
  shows "\<exists>s. find_row (live_session (hashToken h token) (w_now w)) (d_sessions (w_db w)) = Some s \<and> s_user_id s = uid"
    and "d_images (w_db w') = d_images (w_db w) \<and> d_receipts (w_db w') = d_receipts (w_db w) \<and> w_store w' = w_store w"
  using assms
  by (auto simp: doFilter_def validateSession_def touch_session_def runs Let_def tick_step_def split: if_splits option.splits)

text \<open>C8: Stored bytes go to their owner only. Whenever the image route answers with image bytes, the request carried a live session
  of the user who owns the receipt the image is on, and the bytes are the object stored under that image's key.\<close>

theorem image_bytes_to_owner_only:
  assumes run: "serve h (s3_store h cfg) req (GetImage n) w = (Inr resp, w')" and webp: "rp_body resp = WebpBody bytes"
  shows "\<exists>s g r. find_row (live_session (hashToken h (rq_cookie req)) (w_now w)) (d_sessions (w_db w)) = Some s \<and>
     g \<in> set (d_images (w_db w)) \<and> g_id g = n \<and> r \<in> set (d_receipts (w_db w)) \<and> r_id r = g_receipt_id g \<and>
     r_user_id r = s_user_id s \<and> s3_object cfg w (g_image_key g) = Some bytes"
proof -
  obtain user w1 where filter: "doFilter h (rq_cookie req) w = (Inr user, w1)"
    and rest: "(case user of None \<Rightarrow> ret unauthorized | Some uid \<Rightarrow> dispatch h (s3_store h cfg) uid req (GetImage n)) w1 = (Inr resp, w')"
    using run by (auto simp: serve_def runs)
  obtain uid where uid: "user = Some uid"
    using rest webp by (cases user) (auto simp: runs unauthorized_def errorResponse_def jsonResponse_def)
  note f = doFilter_Some [OF filter [unfolded uid]]
  obtain g r w2 where row: "find_row (\<lambda>g. g_id g = n) (d_images (w_db w1)) = Some g"
    "find_row (\<lambda>r. r_id r = g_receipt_id g) (d_receipts (w_db w1)) = Some r" "r_user_id r = uid"
    and get: "is_get (s3_store h cfg) (g_image_key g) (tick_step w1) = (Inr bytes, w2)"
    using rest webp unfolding uid
    by (auto simp: receipt_image_def findImage_def runs webpResponse_def errorResponse_def jsonResponse_def
        split: option.splits if_splits)
  have "s3_object cfg (tick_step w1) = s3_object cfg w" by (rule s3.object_local) (simp add: f(2) tick_step_def)
  then have "s3_object cfg w (g_image_key g) = Some bytes" using s3.get_returns [OF get] by simp
  moreover obtain s where "find_row (live_session (hashToken h (rq_cookie req)) (w_now w)) (d_sessions (w_db w)) = Some s" "s_user_id s = uid"
    using f(1) by blast
  ultimately show ?thesis
    using f(2) row(3) find_row_SomeD [OF row(1)] find_row_SomeD [OF row(2)] by (intro exI [of _ s] exI [of _ g] exI [of _ r]) simp
qed

text \<open>Ann's session, her receipt and the image on it.\<close>

definition image_world :: world where
  "image_world = auth_world\<lparr>w_store := [hostHeader (s3ConfigFromEnv sample_host) @ canonicalUri (s3ConfigFromEnv sample_host) ''k'' \<mapsto> ''b''],
     w_db := (w_db auth_world)
       \<lparr>d_sessions := [\<lparr>s_id = 1, s_user_id = 1, s_token_hash = hashToken sample_host ''t'', s_expires_at = 9789000000000000\<rparr>],
        d_receipts := [new_receipt 1 0 1 kDefaultKind ''outflow'' kScanned kIdle],
        d_images := [\<lparr>g_id = 5, g_receipt_id = 1, g_user_id = 1, g_image_key = ''k'', g_image_sha256 = [], g_created_at = 0\<rparr>]\<rparr>\<rparr>"

definition image_request :: Request where
  "image_request = \<lparr>rq_body = JNull, rq_files = None, rq_param = (\<lambda>_. []), rq_cookie = ''t'', rq_peer = []\<rparr>"

theorem image_bytes_to_owner_only_witness:
  "\<exists>resp. fst (serve sample_host (s3_store sample_host (s3ConfigFromEnv sample_host)) image_request (GetImage 5) image_world) = Inr resp \<and>
     rp_body resp = WebpBody ''b'' \<and>
     (\<exists>g \<in> set (d_images (w_db image_world)). s3_object (s3ConfigFromEnv sample_host) image_world (g_image_key g) = Some ''b'')"
proof -
  let ?run = "serve sample_host (s3_store sample_host (s3ConfigFromEnv sample_host)) image_request (GetImage 5) image_world"
  have "case fst ?run of Inl _ \<Rightarrow> False | Inr resp \<Rightarrow> rp_body resp = WebpBody ''b''" by code_simp
  then obtain resp where resp: "fst ?run = Inr resp" "rp_body resp = WebpBody ''b''" by (auto split: sum.splits)
  then have "?run = (Inr resp, snd ?run)" by (metis prod.collapse)
  from image_bytes_to_owner_only [OF this resp(2)] resp show ?thesis by blast
qed

end
