(* ===== verification/Isolation.thy ===== *)
theory Isolation
  imports Server Access
begin

text \<open>
  No request reaches into another user's data. \<open>kept G\<close> makes a state predicate a step relation, so that the rules of
  \<open>Actions\<close> carry it through sessions, guards and the handlers; the operations that write are those of \<open>TenantOps\<close>,
  the account operations write tables that are in no user's view.
\<close>

section \<open>Predicates of the database as step relations\<close>

definition kept :: "(db \<Rightarrow> bool) \<Rightarrow> world \<Rightarrow> world \<Rightarrow> bool" where
  "kept G w w' \<longleftrightarrow> (G (w_db w) \<longrightarrow> G (w_db w'))"

interpretation kept: step_relation "kept G" for G
  by unfold_locales (auto simp: kept_def)

lemma honours_kept: "honours (kept G) m \<longleftrightarrow> keeps G m"
  by (simp add: honours_def keeps_def kept_def)

definition sees :: "host \<Rightarrow> int \<Rightarrow> category_row list \<times> tag_row list \<times> payment_method_row list \<times> receipt_row list \<times>
     image_row list \<times> item_row list \<times> (int \<times> int) list \<Rightarrow> db \<Rightarrow> bool" where
  "sees h v X d \<longleftrightarrow> ledger_ok h d \<and> view v d = X"

lemma sees_other:
  assumes "\<And>V. keeps (acting h u V) m" and "v \<noteq> u"
  shows "honours (kept (sees h v X)) m"
  unfolding honours_kept keeps_def
proof (intro allI impI)
  fix w :: world assume w: "sees h v X (w_db w)"
  then have "ledger_ok h (w_db (snd (m w)))"
    using acting_keeps [of h u m] assms(1) by (auto simp: sees_def keeps_def)
  moreover have "same_others u (w_db w) (w_db (snd (m w)))"
    using acting_same_others [of h u m w] assms(1) w by (simp add: sees_def)
  ultimately show "sees h v X (w_db (snd (m w)))" using w assms(2) by (simp add: sees_def same_others_def)
qed

lemma view_cong:
  assumes "d_items d' = d_items d" "d_item_tags d' = d_item_tags d" "d_receipts d' = d_receipts d"
    "d_images d' = d_images d" "d_categories d' = d_categories d" "d_tags d' = d_tags d"
    "d_payment_methods d' = d_payment_methods d"
  shows "view v d' = view v d"
  using assms by (simp add: view_def items_owned_def owned_def)

lemma sees_exec:
  assumes "\<And>t d d' x. f t d = Inr (d', x) \<Longrightarrow> d_items d' = d_items d \<and> d_item_tags d' = d_item_tags d \<and>
     d_receipts d' = d_receipts d \<and> d_images d' = d_images d \<and> d_categories d' = d_categories d \<and>
     d_tags d' = d_tags d \<and> d_payment_methods d' = d_payment_methods d"
  shows "honours (kept (sees h v X)) (exec h f)"
proof -
  have "tenant_ok d' \<and> view v d' = view v d" if "f t d = Inr (d', x)" "tenant_ok d" for t d d' x
    using assms [OF that(1)] account_tables_tenant [OF that(2)] view_cong [of d' d v] by blast
  then show ?thesis
    unfolding honours_kept by (intro keeps_exec triple_exec) (auto simp: sees_def ledger_ok_def)
qed

lemma sees_insert:
  assumes "\<And>n t d d' x. f n t d = Inr (d', x) \<Longrightarrow> d_items d' = d_items d \<and> d_item_tags d' = d_item_tags d \<and>
     d_receipts d' = d_receipts d \<and> d_images d' = d_images d \<and> d_categories d' = d_categories d \<and>
     d_tags d' = d_tags d \<and> d_payment_methods d' = d_payment_methods d"
  shows "honours (kept (sees h v X)) (insert_row h tb f)"
proof -
  have "tenant_ok d' \<and> view v d' = view v d" if "f n t d = Inr (d', x)" "tenant_ok d" for n t d d' x
    using assms [OF that(1)] account_tables_tenant [OF that(2)] view_cong [of d' d v] by blast
  then show ?thesis
    unfolding honours_kept by (intro keeps_insert_row triple_insert_row) (auto simp: sees_def ledger_ok_def)
qed

lemmas kept_rules = kept.honours_rules honours_option honours_if

lemma random_sees: "honours (kept G) (generateToken n)" "honours (kept G) (pw_hash h p)"
proof -
  have *: "kept G w (w\<lparr>w_rpos := n\<rparr>)" for w n by (simp add: kept_def)
  show "honours (kept G) (generateToken n)"
    unfolding generateToken_def randombytes_def by (intro kept_rules) (simp add: honours_def *)
  show "honours (kept G) (pw_hash h p)"
    by (auto simp: honours_def pw_hash_def * kept.R_refl split: option.splits)
qed

section \<open>Requests\<close>

lemma auth_sees:
  "honours (kept (sees h v X)) (login h email password)" "honours (kept (sees h v X)) (validateSession h token)"
  "honours (kept (sees h v X)) (logout h token)" "honours (kept (sees h v X)) (requestPasswordReset h email)"
  "honours (kept (sees h v X)) (confirmPasswordReset h token password)"
  "honours (kept (sees h v X)) (requestEmailVerification h u)" "honours (kept (sees h v X)) (confirmEmailVerification h token)"
  unfolding auth_defs
  by (intro kept_rules random_sees sees_insert sees_exec; auto)+

lemma read_sees:
  "honours (kept G) (listImages h u n)" "honours (kept G) (listReceipts h u lim off)"
  "honours (kept G) (getReceipt h u n)" "honours (kept G) (findImage n)"
  "honours (kept G) (item_list u n)" "honours (kept G) (category_list h u)"
  "honours (kept G) (tag_list h u)" "honours (kept G) (payment_method_list h u)"
  unfolding read_defs
  by (intro kept_rules)+

lemma s3_get_sees: "honours (kept G) (is_get (s3_store h cfg) key)"
  unfolding honours_kept keeps_def using s3.get_db by (metis prod.collapse)

lemma guarded_sees: "honours (kept G) m \<Longrightarrow> honours (kept G) (guarded m)"
  unfolding guarded_def by (intro kept_rules)

lemma dispatch_sees:
  assumes "v \<noteq> u"
  shows "honours (kept (sees h v X)) (dispatch h (s3_store h cfg) u req r)"
proof -
  note other = sees_other [where u = u, OF _ assms]
  note writes = service_acting [THEN other] s3.uploadReceipt_keeps [THEN other] s3.addImages_keeps [THEN other]
    s3.deleteReceipt_keeps [THEN other]
  show ?thesis
    by (cases r; simp only: dispatch.simps; (unfold handler_defs)?;
        intro kept_rules honours_sum honours_upload guarded_sees writes s3_get_sees read_sees auth_sees)
qed

text \<open>A registration writes for the user it makes, whose id no user has.\<close>

lemma insert_user_triple:
  "triple (\<lambda>d. sees h v X d \<and> v \<in> u_id ` set (d_users d)) (insert_user h email pw) (\<lambda>n d. sees h v X d \<and> n \<noteq> v)"
  unfolding insert_user_def
proof (rule triple_insert_row)
  fix n t d d' x
  assume P: "sees h v X d \<and> v \<in> u_id ` set (d_users d)" and ok: "violation h d' = None"
    and run: "Inr (d\<lparr>d_users := d_users d @ [\<lparr>u_id = n, u_email = email, u_password_hash = pw,
          u_email_verified_at = None\<rparr>]\<rparr>, n) = (Inr (d', x) :: error + db \<times> int)"
  have d': "d' = d\<lparr>d_users := d_users d @ [\<lparr>u_id = n, u_email = email, u_password_hash = pw, u_email_verified_at = None\<rparr>]\<rparr>" "x = n"
    using run by auto
  have "distinct (map u_id (d_users d'))" using ok by (simp add: violation_None unique_violation_def)
  then have "n \<noteq> v" using P by (auto simp: d')
  moreover have "tenant_ok d'" using P by - (rule account_tables_tenant [of d], auto simp: d' sees_def ledger_ok_def)
  ultimately show "sees h v X d' \<and> x \<noteq> v"
    using P ok view_cong [of d' d v] by (simp add: d' sees_def ledger_ok_def)
qed

lemma kept_triple: "honours (kept G) m \<Longrightarrow> triple G m (\<lambda>_. G)"
  by (fastforce simp: honours_kept keeps_def triple_def)

lemma seed_triple: "triple (\<lambda>d. sees h v X d \<and> n \<noteq> v) (seed_user h n) (\<lambda>_. sees h v X)"
proof (rule triple_pure [where c = "v \<noteq> n"])
  assume "v \<noteq> n"
  note writes = insert_category_keeps [THEN sees_other [where u = n, OF _ this]]
    insert_payment_method_keeps [THEN sees_other [where u = n, OF _ this]]
  have "honours (kept (sees h v X)) (seed_user h n)"
    unfolding seed_user_def by (intro kept_rules writes)
  then show ?thesis by (intro triple_conseq [OF kept_triple]) auto
qed auto

lemma keeps_pre_bindM: "keeps_pre P G m \<Longrightarrow> (\<And>x. keeps G (f x)) \<Longrightarrow> keeps_pre P G (bindM m f)"
  by (auto simp: keeps_pre_def keeps_def bindM_def split: prod.splits sum.splits)

lemma keeps_pre_tryM: "keeps_pre P G m \<Longrightarrow> (\<And>e. keeps G (hdl e)) \<Longrightarrow> keeps_pre P G (tryM m hdl)"
  by (auto simp: keeps_pre_def keeps_def tryM_def split: prod.splits sum.splits)

lemma keeps_pre_in_transaction:
  "triple (\<lambda>d. P d \<and> G d) m (\<lambda>_. G) \<Longrightarrow> keeps_pre P G (in_transaction m)"
  unfolding in_transaction_def by (rule keeps_pre_transaction, rule triple_bindM) (auto intro: triple_ret)

lemma pw_hash_bind:
  assumes "\<And>x. keeps_pre P G (f x)"
  shows "keeps_pre P G (bindM (pw_hash h p) f)"
  using assms by (auto simp: keeps_pre_def pw_hash_def bindM_def split: option.splits)

abbreviation registered :: "int \<Rightarrow> db \<Rightarrow> bool" where
  "registered v d \<equiv> v \<in> u_id ` set (d_users d)"

lemma registerUser_sees: "keeps_pre (registered v) (sees h v X) (registerUser h email password)"
proof -
  have body: "triple (\<lambda>d. registered v d \<and> sees h v X d)
      (bindM (insert_user h email pw) (\<lambda>n. bindM (seed_user h n) (\<lambda>_. ret n))) (\<lambda>_. sees h v X)" for pw
    by (rule triple_conseq, rule triple_bindM [OF insert_user_triple], rule triple_bindM [OF seed_triple], rule triple_ret) auto
  have rethrow: "(if has_substr kDuplicateKey (what_of e) then raise DuplicateEmailError else raise e) =
      raise (if has_substr kDuplicateKey (what_of e) then DuplicateEmailError else e)" for e
    by simp
  show ?thesis
    unfolding registerUser_def
    by (intro pw_hash_bind keeps_pre_in_transaction triple_tryM [OF body rethrow])
qed

lemma register_action_sees: "keeps_pre (registered v) (sees h v X) (register_action h email password)"
proof -
  have verify: "keeps (sees h v X) (bindM (requestEmailVerification h u) (\<lambda>_. ret y))" for u and y :: Response
    unfolding honours_kept [symmetric] by (intro kept_rules auth_sees)
  show ?thesis
    unfolding register_action_def
    by (intro keeps_pre_tryM keeps_pre_bindM registerUser_sees verify keeps_if keeps_ret keeps_raise)
qed

lemma public_sees: "keeps_pre (registered v) (sees h v X) (fst (public_action h now req lims r))"
proof (cases "r = Register")
  case True
  have R: "keeps_pre (registered v) (sees h v X) m \<longleftrightarrow>
      honours (\<lambda>w w'. registered v (w_db w) \<longrightarrow> kept (sees h v X) w w') m" for m :: "Response act"
    by (simp add: keeps_pre_def honours_def kept_def)
  show ?thesis
    unfolding True public_action.simps auth_register_def R
    by (rule honours_limited) (simp_all add: R [symmetric] register_action_sees keeps_pre_keeps keeps_ret keeps_raise)
next
  case False
  have "honours (kept (sees h v X)) (login_action h email password)" for email password
    unfolding login_action_def by (intro kept_rules auth_sees)
  then have "honours (kept (sees h v X)) (fst (auth_login h now req lims))"
    unfolding auth_login_def by (intro honours_limited kept_rules)
  then have "honours (kept (sees h v X)) (fst (public_action h now req lims r))"
    using False
    by (cases r; simp only: public_action.simps fst_conv simp_thms;
        (unfold verifyEmail_def auth_requestPasswordReset_def auth_confirmPasswordReset_def health_def)?;
        (intro kept_rules honours_sum guarded_sees auth_sees)?)
  then show ?thesis by (simp add: keeps_pre_keeps honours_kept)
qed

text \<open>The user a request acts for: the one its cookie is a live session of. The public routes act for none.\<close>

fun acts_for :: "host \<Rightarrow> event \<Rightarrow> world \<Rightarrow> int option" where
  "acts_for h (Serve req r) w =
     map_option s_user_id (find_row (live_session (hashToken h (rq_cookie req)) (w_now w)) (d_sessions (w_db w)))"
| "acts_for h (Public now lims req r) w = None"

lemma serve_sees:
  assumes "acts_for h (Serve req r) w \<noteq> Some v" and w: "sees h v X (w_db w)"
  shows "sees h v X (w_db (snd (serve h (s3_store h cfg) req r w)))"
proof -
  obtain res w1 where run: "doFilter h (rq_cookie req) w = (res, w1)" by fastforce
  have "honours (kept (sees h v X)) (doFilter h (rq_cookie req))" unfolding doFilter_def by (intro kept_rules auth_sees)
  then have w1: "sees h v X (w_db w1)" using run w unfolding honours_def kept_def by (metis snd_conv)
  have "sees h v X (w_db (snd (dispatch h (s3_store h cfg) u req r w1)))" if "res = Inr (Some u)" for u
  proof -
    have "v \<noteq> u" using doFilter_Some(1) [OF run [unfolded that]] assms(1) by auto
    from dispatch_sees [OF this, of h X cfg req r] w1 show ?thesis by (simp add: honours_def kept_def)
  qed
  then show ?thesis
    using run w1 by (auto simp: serve_def bindM_def ret_def split: sum.splits option.splits)
qed

text \<open>C5: No request changes another user's data. Whatever the route, the ids in its path, its body, and whichever call of the
  database or the bucket fails in it: a request leaves the categories, tags, payment methods, receipts, images, items and item tags
  of every user as they are but those of the user whose live session its cookie names; the public routes, registration and password
  reset among them, leave those of every existing user as they are.\<close>

theorem requests_stay_within_tenant:
  assumes "ledger_ok h (w_db w)" and "registered v (w_db w)" and "acts_for h ev w \<noteq> Some v"
  shows "view v (w_db (snd (event_action h cfg ev w))) = view v (w_db w)"
proof -
  have w: "sees h v (view v (w_db w)) (w_db w)" using assms(1) by (simp add: sees_def)
  have "sees h v (view v (w_db w)) (w_db (snd (event_action h cfg ev w)))"
  proof (cases ev)
    case (Serve req r)
    then show ?thesis using serve_sees [of h req r w v] assms(3) w by simp
  next
    case (Public now lims req r)
    then show ?thesis
      using public_sees [of v h "view v (w_db w)" now req lims r] assms(2) w by (simp add: keeps_pre_def)
  qed
  then show ?thesis by (simp add: sees_def)
qed

text \<open>Ann, who is logged in, asks for the deletion of Bob's receipt.\<close>

definition bob_world :: world where
  "bob_world = ann_world\<lparr>w_db := (w_db ann_world)
     \<lparr>d_users := d_users (w_db ann_world) @ [\<lparr>u_id = 2, u_email = ''bob@x.au'', u_password_hash = ''pw'', u_email_verified_at = None\<rparr>],
      d_receipts := [new_receipt 1 0 2 kDefaultKind ''outflow'' kManual kIdle]\<rparr>\<rparr>"

lemma bob_ledger: "ledger_ok sample_host (w_db bob_world)"
proof -
  have "violation sample_host (w_db bob_world) = None" by code_simp
  then show ?thesis
    by (simp add: ledger_ok_def tenant_ok_def bob_world_def ann_world_def auth_world_def sample_world_def empty_db_def
        receipt_ok_def new_receipt_def)
qed

theorem requests_stay_within_tenant_witness:
  "map r_id (d_receipts (w_db (snd (event_action sample_host sample_config (Serve photo_request (RemoveReceipt 1)) bob_world)))) = [1]"
proof -
  let ?ev = "Serve photo_request (RemoveReceipt 1)"
  note bob_ledger
  moreover have "registered 2 (w_db bob_world)" by (simp add: bob_world_def)
  moreover have "acts_for sample_host ?ev bob_world \<noteq> Some 2" by code_simp
  ultimately have "view 2 (w_db (snd (event_action sample_host sample_config ?ev bob_world))) = view 2 (w_db bob_world)"
    by (rule requests_stay_within_tenant)
  then have "filter (\<lambda>r. r_user_id r = 2) (d_receipts (w_db (snd (event_action sample_host sample_config ?ev bob_world)))) =
      filter (\<lambda>r. r_user_id r = 2) (d_receipts (w_db bob_world))"
    by (simp add: view_def)
  moreover have "\<forall>r \<in> set (d_receipts (w_db (snd (event_action sample_host sample_config ?ev bob_world)))). r_user_id r = 2"
    by code_simp
  ultimately show ?thesis by (simp add: bob_world_def new_receipt_def)
qed

end
