(* ===== verification/Confidential.thy ===== *)
theory Confidential
  imports Isolation
begin

text \<open>
  What a user is shown depends on that user's data only. \<open>reads h u P m\<close>: in two worlds that differ in the data of users
  other than \<open>u\<close>, the action \<open>m\<close> returns the same, makes the same calls and changes neither database. \<open>P\<close> carries what
  an earlier query of the same handler has established.
\<close>

definition reads :: "host \<Rightarrow> int \<Rightarrow> (db \<Rightarrow> bool) \<Rightarrow> 'a act \<Rightarrow> bool" where
  "reads h u P m \<longleftrightarrow> (\<forall>w d. ledger_ok h (w_db w) \<longrightarrow> ledger_ok h d \<longrightarrow> P (w_db w) \<longrightarrow> P d \<longrightarrow> view u d = view u (w_db w) \<longrightarrow>
     m (w\<lparr>w_db := d\<rparr>) = (fst (m w), (snd (m w))\<lparr>w_db := d\<rparr>) \<and> w_db (snd (m w)) = w_db w)"

lemma readsD:
  fixes w :: world
  assumes "reads h u P m" and "ledger_ok h (w_db w)" "ledger_ok h d" "P (w_db w)" "P d" "view u d = view u (w_db w)"
  shows "m (w\<lparr>w_db := d\<rparr>) = (fst (m w), (snd (m w))\<lparr>w_db := d\<rparr>)" "w_db (snd (m w)) = w_db w"
  using assms unfolding reads_def by simp_all

lemma tick_with_db: "tick_step (w\<lparr>w_db := d\<rparr>) = (tick_step w)\<lparr>w_db := d\<rparr>"
  by (simp add: tick_step_def)

lemma readsI:
  assumes "\<And>w d. ledger_ok h (w_db w) \<Longrightarrow> ledger_ok h d \<Longrightarrow> P (w_db w) \<Longrightarrow> P d \<Longrightarrow> view u d = view u (w_db w) \<Longrightarrow>
     m (w\<lparr>w_db := d\<rparr>) = (fst (m w), (snd (m w))\<lparr>w_db := d\<rparr>) \<and> w_db (snd (m w)) = w_db w"
  shows "reads h u P m"
  using assms unfolding reads_def by blast

lemma reads_ret: "reads h u P (ret x)" and reads_raise: "reads h u P (raise e)" and reads_lift: "reads h u P (lift r)"
  by (simp_all add: reads_def ret_def raise_def lift_def)

lemma reads_bindM:
  assumes m: "reads h u P m" and f: "\<And>x. reads h u P (f x)"
  shows "reads h u P (bindM m f)"
proof (rule readsI)
  fix w :: world and d
  assume w: "ledger_ok h (w_db w)" "ledger_ok h d" "P (w_db w)" "P d" "view u d = view u (w_db w)"
  obtain r w1 where run: "m w = (r, w1)" by fastforce
  have 1: "m (w\<lparr>w_db := d\<rparr>) = (r, w1\<lparr>w_db := d\<rparr>)" "w_db w1 = w_db w"
    using readsD [OF m w] run by simp_all
  show "bindM m f (w\<lparr>w_db := d\<rparr>) = (fst (bindM m f w), (snd (bindM m f w))\<lparr>w_db := d\<rparr>) \<and> w_db (snd (bindM m f w)) = w_db w"
  proof (cases r)
    case (Inl e)
    then show ?thesis using run 1 by (simp add: bindM_def)
  next
    case (Inr x)
    have "f x (w1\<lparr>w_db := d\<rparr>) = (fst (f x w1), (snd (f x w1))\<lparr>w_db := d\<rparr>) \<and> w_db (snd (f x w1)) = w_db w1"
      using readsD [OF f, of w1 d x] w 1(2) by simp
    then show ?thesis using run 1 Inr by (simp add: bindM_def)
  qed
qed

lemma reads_tryM:
  assumes m: "reads h u P m" and f: "\<And>e. reads h u P (hdl e)"
  shows "reads h u P (tryM m hdl)"
proof (rule readsI)
  fix w :: world and d
  assume w: "ledger_ok h (w_db w)" "ledger_ok h d" "P (w_db w)" "P d" "view u d = view u (w_db w)"
  obtain r w1 where run: "m w = (r, w1)" by fastforce
  have 1: "m (w\<lparr>w_db := d\<rparr>) = (r, w1\<lparr>w_db := d\<rparr>)" "w_db w1 = w_db w"
    using readsD [OF m w] run by simp_all
  show "tryM m hdl (w\<lparr>w_db := d\<rparr>) = (fst (tryM m hdl w), (snd (tryM m hdl w))\<lparr>w_db := d\<rparr>) \<and> w_db (snd (tryM m hdl w)) = w_db w"
  proof (cases r)
    case (Inl e)
    have "hdl e (w1\<lparr>w_db := d\<rparr>) = (fst (hdl e w1), (snd (hdl e w1))\<lparr>w_db := d\<rparr>) \<and> w_db (snd (hdl e w1)) = w_db w1"
      using readsD [OF f, of w1 d e] w 1(2) by simp
    then show ?thesis using run 1 Inl by (simp add: tryM_def)
  next
    case (Inr x)
    then show ?thesis using run 1 by (simp add: tryM_def)
  qed
qed

text \<open>A query whose answer is a function of what the user has.\<close>

definition own_only :: "host \<Rightarrow> int \<Rightarrow> (db \<Rightarrow> bool) \<Rightarrow> (db \<Rightarrow> 'a) \<Rightarrow> bool" where
  "own_only h u P f \<longleftrightarrow> (\<forall>d d'. ledger_ok h d \<longrightarrow> ledger_ok h d' \<longrightarrow> P d \<longrightarrow> P d' \<longrightarrow> view u d' = view u d \<longrightarrow> f d' = f d)"

lemma reads_query:
  assumes "own_only h u P f"
  shows "reads h u P (query (\<lambda>_. f))"
proof (rule readsI)
  fix w :: world and d
  assume "ledger_ok h (w_db w)" "ledger_ok h d" "P (w_db w)" "P d" "view u d = view u (w_db w)"
  then have "f d = f (w_db w)" using assms unfolding own_only_def by blast
  then show "query (\<lambda>_. f) (w\<lparr>w_db := d\<rparr>) = (fst (query (\<lambda>_. f) w), (snd (query (\<lambda>_. f) w))\<lparr>w_db := d\<rparr>) \<and>
      w_db (snd (query (\<lambda>_. f) w)) = w_db w"
    by (cases "w_faults w (w_step w)") (simp_all add: query_def attempt_def tick_step_def)
qed

lemma reads_query_or_fail:
  assumes "own_only h u P f"
  shows "reads h u P (query_or_fail f)"
proof (rule readsI)
  fix w :: world and d
  assume "ledger_ok h (w_db w)" "ledger_ok h d" "P (w_db w)" "P d" "view u d = view u (w_db w)"
  then have "f d = f (w_db w)" using assms unfolding own_only_def by blast
  then show "query_or_fail f (w\<lparr>w_db := d\<rparr>) = (fst (query_or_fail f w), (snd (query_or_fail f w))\<lparr>w_db := d\<rparr>) \<and>
      w_db (snd (query_or_fail f w)) = w_db w"
    by (cases "w_faults w (w_step w)") (simp_all add: query_or_fail_def attempt_def tick_step_def)
qed

lemma reads_bind_query:
  assumes f: "own_only h u P f" and g: "\<And>x. reads h u (\<lambda>d. P d \<and> f d = x) (g x)"
  shows "reads h u P (bindM (query (\<lambda>_. f)) g)"
proof (rule readsI)
  fix w :: world and d
  assume w: "ledger_ok h (w_db w)" "ledger_ok h d" "P (w_db w)" "P d" "view u d = view u (w_db w)"
  let ?x = "f (w_db w)" and ?w1 = "tick_step w"
  have eq: "f d = ?x" using f w unfolding own_only_def by blast
  have "g ?x (?w1\<lparr>w_db := d\<rparr>) = (fst (g ?x ?w1), (snd (g ?x ?w1))\<lparr>w_db := d\<rparr>) \<and> w_db (snd (g ?x ?w1)) = w_db ?w1"
    using readsD [OF g, of ?w1 d ?x] w eq by simp
  then show "bindM (query (\<lambda>_. f)) g (w\<lparr>w_db := d\<rparr>) = (fst (bindM (query (\<lambda>_. f)) g w), (snd (bindM (query (\<lambda>_. f)) g w))\<lparr>w_db := d\<rparr>) \<and>
      w_db (snd (bindM (query (\<lambda>_. f)) g w)) = w_db w"
    using eq by (cases "w_faults w (w_step w)") (simp_all add: bindM_def query_def attempt_def tick_with_db)
qed

lemma reads_if: "(c \<Longrightarrow> reads h u P a) \<Longrightarrow> (\<not> c \<Longrightarrow> reads h u P b) \<Longrightarrow> reads h u P (if c then a else b)"
  by simp

lemma reads_option:
  "(x = None \<Longrightarrow> reads h u P a) \<Longrightarrow> (\<And>y. x = Some y \<Longrightarrow> reads h u P (b y)) \<Longrightarrow>
   reads h u P (case x of None \<Rightarrow> a | Some y \<Rightarrow> b y)"
  by (cases x) auto

lemma reads_guarded: "reads h u P m \<Longrightarrow> reads h u P (guarded m)"
  unfolding guarded_def by (intro reads_tryM reads_ret)

lemma reads_get: "reads h u P (is_get (s3_store h' cfg) key)"
  by (rule readsI, simp add: s3_store_def s3_get_eq s3_object_def tick_step_def split: option.splits)

lemmas reads_rules = reads_ret reads_raise reads_lift reads_guarded reads_get

section \<open>What is in the view\<close>

lemma view_parts:
  assumes "view u d' = view u d"
  shows "filter (\<lambda>c. c_user_id c = u) (d_categories d') = filter (\<lambda>c. c_user_id c = u) (d_categories d)"
    "filter (\<lambda>t. t_user_id t = u) (d_tags d') = filter (\<lambda>t. t_user_id t = u) (d_tags d)"
    "filter (\<lambda>p. p_user_id p = u) (d_payment_methods d') = filter (\<lambda>p. p_user_id p = u) (d_payment_methods d)"
    "filter (\<lambda>r. r_user_id r = u) (d_receipts d') = filter (\<lambda>r. r_user_id r = u) (d_receipts d)"
    "filter (\<lambda>g. g_user_id g = u) (d_images d') = filter (\<lambda>g. g_user_id g = u) (d_images d)"
    "items_owned u d' = items_owned u d" "owned u d' = owned u d"
    "filter (\<lambda>x. fst x \<in> i_id ` set (items_owned u d)) (d_item_tags d') = filter (\<lambda>x. fst x \<in> i_id ` set (items_owned u d)) (d_item_tags d)"
proof -
  show *: "filter (\<lambda>r. r_user_id r = u) (d_receipts d') = filter (\<lambda>r. r_user_id r = u) (d_receipts d)"
    and **: "items_owned u d' = items_owned u d"
    using assms by (simp_all add: view_def)
  show "owned u d' = owned u d" using * by (simp add: owned_def)
  show "filter (\<lambda>x. fst x \<in> i_id ` set (items_owned u d)) (d_item_tags d') =
      filter (\<lambda>x. fst x \<in> i_id ` set (items_owned u d)) (d_item_tags d)"
    using assms unfolding view_def ** by simp
qed (use assms in \<open>simp_all add: view_def\<close>)

lemma find_filter: "find P (filter Q xs) = find (\<lambda>x. P x \<and> Q x) xs"
  by (induction xs) auto

lemma owns_receipt_own: "own_only h u P (owns_receipt u rid)"
proof -
  have "owns_receipt u rid d = find (\<lambda>r. r_id r = rid) (filter (\<lambda>r. r_user_id r = u) (d_receipts d))" for d
    by (simp add: owns_receipt_def find_row_def find_filter)
  then show ?thesis unfolding own_only_def by (metis view_parts(4))
qed

section \<open>Lists\<close>

lemma lists_own:
  "own_only h u P (\<lambda>d. k (filter (\<lambda>r. r_user_id r = u) (d_receipts d)))"
  "own_only h u P (\<lambda>d. k' (filter (\<lambda>c. c_user_id c = u) (d_categories d)))"
  "own_only h u P (\<lambda>d. l (filter (\<lambda>t. t_user_id t = u) (d_tags d)))"
  "own_only h u P (\<lambda>d. l' (filter (\<lambda>p. p_user_id p = u) (d_payment_methods d)))"
proof -
  show "own_only h u P (\<lambda>d. k (filter (\<lambda>r. r_user_id r = u) (d_receipts d)))"
    unfolding own_only_def by (metis view_parts(4))
  show "own_only h u P (\<lambda>d. k' (filter (\<lambda>c. c_user_id c = u) (d_categories d)))"
    unfolding own_only_def by (metis view_parts(1))
  show "own_only h u P (\<lambda>d. l (filter (\<lambda>t. t_user_id t = u) (d_tags d)))"
    unfolding own_only_def by (metis view_parts(2))
  show "own_only h u P (\<lambda>d. l' (filter (\<lambda>p. p_user_id p = u) (d_payment_methods d)))"
    unfolding own_only_def by (metis view_parts(3))
qed

lemma lists_read:
  "reads h u P (category_list h' u)" "reads h u P (tag_list h' u)" "reads h u P (payment_method_list h' u)"
  "reads h u P (listReceipts h' u lim offs)"
proof -
  show "reads h u P (category_list h' u)"
    unfolding category_list_def
    by (rule reads_query, rule lists_own(2) [where k' = "\<lambda>xs. map rowToCategory (order_by (by_name h' c_name c_id) xs)"])
  show "reads h u P (tag_list h' u)"
    unfolding tag_list_def
    by (rule reads_query, rule lists_own(3) [where l = "\<lambda>xs. map rowToTag (order_by (by_name h' t_name t_id) xs)"])
  show "reads h u P (payment_method_list h' u)"
    unfolding payment_method_list_def
    by (rule reads_query, rule lists_own(4) [where l' = "\<lambda>xs. map rowToPaymentMethod (order_by (by_name h' p_name p_id) xs)"])
  show "reads h u P (listReceipts h' u lim offs)"
    unfolding listReceipts_def
    by (rule reads_query_or_fail, rule lists_own(1) [where k = "\<lambda>xs. if lim < 0 then Inl (DbError ''LIMIT must not be negative'')
       else if offs < 0 then Inl (DbError ''OFFSET must not be negative'')
       else Inr (map (rowToSummary h') (take (nat lim) (drop (nat offs) (order_by newest_first xs))))"])
qed

lemma getReceipt_reads: "reads h u P (getReceipt h' u rid)"
  unfolding getReceipt_def by (intro reads_bindM reads_query owns_receipt_own reads_ret)

section \<open>What belongs to a receipt of the user\<close>

lemma owns_owned: "owns_receipt u rid d = Some r \<Longrightarrow> rid \<in> owned u d"
  by (auto simp: owns_receipt_def owned_def dest!: find_row_SomeD)

lemma image_owner:
  assumes "ledger_ok h d" and "g \<in> set (d_images d)"
  shows "\<exists>r. find_row (\<lambda>r. r_id r = g_receipt_id g) (d_receipts d) = Some r \<and> r_user_id r = g_user_id g"
proof -
  obtain s where s: "(g_receipt_id g, g_user_id g, s) \<in> rsig d"
    using assms tenantD(4) unfolding ledger_ok_def image_ok_def by blast
  then obtain r where "find_row (\<lambda>r. r_id r = g_receipt_id g) (d_receipts d) = Some r"
    unfolding find_row_def rsig_def by (cases "find (\<lambda>r. r_id r = g_receipt_id g) (d_receipts d)") (auto simp: find_None_iff)
  moreover from this have "(g_receipt_id g, r_user_id r, income_kind (r_kind r)) \<in> rsig d"
    by (force simp: rsig_def dest!: find_row_SomeD)
  ultimately show ?thesis using rsig_fun [OF _ s] assms(1) by (auto simp: ledger_ok_def)
qed

lemma images_of_owned:
  assumes "ledger_ok h d" and "rid \<in> owned u d"
  shows "filter (\<lambda>g. g_receipt_id g = rid) (d_images d) =
    filter (\<lambda>g. g_receipt_id g = rid) (filter (\<lambda>g. g_user_id g = u) (d_images d))"
proof -
  have "g_user_id g = u" if g: "g \<in> set (d_images d)" "g_receipt_id g = rid" for g
  proof -
    obtain r where r: "r \<in> set (d_receipts d)" "r_id r = rid" "r_user_id r = g_user_id g"
      using image_owner [OF assms(1) g(1)] g(2) by (auto dest!: find_row_SomeD)
    then have "rid \<in> owned (g_user_id g) d" by (auto simp: owned_def)
    then show ?thesis using owned_disjoint [OF ledger_ids [OF assms(1)]] assms(2) by blast
  qed
  then show ?thesis by (auto intro!: filter_cong)
qed

lemma listImages_reads: "reads h u P (listImages h' u rid)"
  unfolding listImages_def
proof (intro reads_bind_query owns_receipt_own reads_if reads_raise reads_query)
  fix x :: "receipt_row option" assume x: "x \<noteq> None"
  let ?f = "\<lambda>d. map (\<lambda>g. \<lparr>ir_id = g_id g, ir_createdAt = h_ts_text h' (g_created_at g)\<rparr>)
     (sort_key g_created_at (filter (\<lambda>g. g_receipt_id g = rid) (d_images d)))"
  show "own_only h u (\<lambda>d. P d \<and> owns_receipt u rid d = x) ?f"
    unfolding own_only_def
  proof (intro allI impI)
    fix d d' assume d: "ledger_ok h d" "ledger_ok h d'" "P d \<and> owns_receipt u rid d = x" "P d' \<and> owns_receipt u rid d' = x"
      and view: "view u d' = view u d"
    have "rid \<in> owned u d" "rid \<in> owned u d'" using d(3,4) x owns_owned by auto
    then have "filter (\<lambda>g. g_receipt_id g = rid) (d_images d') = filter (\<lambda>g. g_receipt_id g = rid) (d_images d)"
      using images_of_owned [OF d(1)] images_of_owned [OF d(2)] view_parts(5) [OF view] by metis
    then show "?f d' = ?f d" by simp
  qed
qed

lemma items_of_owned:
  "rid \<in> owned u d \<Longrightarrow> filter (\<lambda>i. i_receipt_id i = rid) (d_items d) = filter (\<lambda>i. i_receipt_id i = rid) (items_owned u d)"
  by (auto simp: items_owned_def intro!: filter_cong)

lemma item_tags_of_owned:
  assumes "rid \<in> owned u d"
  shows "filter (\<lambda>(i, t). \<exists>x \<in> set (d_items d). i_id x = i \<and> i_receipt_id x = rid) (d_item_tags d) =
    filter (\<lambda>(i, t). \<exists>x \<in> set (items_owned u d). i_id x = i \<and> i_receipt_id x = rid)
      (filter (\<lambda>x. fst x \<in> i_id ` set (items_owned u d)) (d_item_tags d))"
  using assms by (auto simp: items_owned_def intro!: filter_cong)

lemma item_list_reads: "reads h u P (item_list u rid)"
  unfolding item_list_def ownedReceiptKind_def bindM_assoc owns_receipt_def [symmetric]
proof (rule reads_bind_query [OF owns_receipt_own])
  fix x :: "receipt_row option"
  let ?Q = "\<lambda>d. P d \<and> owns_receipt u rid d = x"
  have items: "own_only h u ?Q (\<lambda>d. sort_key i_id (filter (\<lambda>i. i_receipt_id i = rid) (d_items d)))" if "x \<noteq> None"
    unfolding own_only_def
  proof (intro allI impI)
    fix d d' assume d: "?Q d" "?Q d'" and view: "view u d' = view u d"
    have "rid \<in> owned u d" "rid \<in> owned u d'" using d that owns_owned by auto
    then show "sort_key i_id (filter (\<lambda>i. i_receipt_id i = rid) (d_items d')) = sort_key i_id (filter (\<lambda>i. i_receipt_id i = rid) (d_items d))"
      using items_of_owned [of rid u d] items_of_owned [of rid u d'] view_parts(6) [OF view] by simp
  qed
  let ?tags = "\<lambda>d. sort_key snd (filter (\<lambda>(i, t). \<exists>x \<in> set (d_items d). i_id x = i \<and> i_receipt_id x = rid) (d_item_tags d))"
  have tags: "own_only h u ?Q ?tags" if "x \<noteq> None"
    unfolding own_only_def
  proof (intro allI impI)
    fix d d' assume d: "?Q d" "?Q d'" and view: "view u d' = view u d"
    have "rid \<in> owned u d" "rid \<in> owned u d'" using d that owns_owned by auto
    then show "?tags d' = ?tags d"
      using item_tags_of_owned [of rid u d] item_tags_of_owned [of rid u d'] view_parts(6,8) [OF view] by simp
  qed
  show "reads h u ?Q (bindM (case x of None \<Rightarrow> raise ReceiptNotFoundError | Some r \<Rightarrow> ret (r_kind r)) (\<lambda>_.
     bindM (query (\<lambda>_ d. sort_key i_id (filter (\<lambda>i. i_receipt_id i = rid) (d_items d)))) (\<lambda>rows.
     bindM (query (\<lambda>_. ?tags)) (\<lambda>tagRows.
     ret (map (\<lambda>row. (rowToItem row)\<lparr>it_tagIds := map snd (filter (\<lambda>(i, t). i = i_id row) tagRows)\<rparr>) rows)))))"
  proof (cases x)
    case None
    then show ?thesis by (simp add: bindM_raise reads_raise)
  next
    case (Some r)
    then have "x \<noteq> None" by simp
    then show ?thesis
      unfolding Some option.case bindM_ret
      by (intro reads_bindM reads_query items [unfolded Some] tags [unfolded Some] reads_ret)
  qed
qed

section \<open>Images by id\<close>

text \<open>The image route finds a row whoever owns it and answers for the owner only: what it does depends on the key of the
  user's own image, if the id names one.\<close>

definition location_of :: "int \<Rightarrow> db \<Rightarrow> ImageLocation option" where
  "location_of n d = (case find_row (\<lambda>g. g_id g = n) (d_images d) of
       None \<Rightarrow> None
     | Some g \<Rightarrow> (case find_row (\<lambda>r. r_id r = g_receipt_id g) (d_receipts d) of
           None \<Rightarrow> None
         | Some r \<Rightarrow> Some \<lparr>il_ownerUserId = r_user_id r, il_imageKey = g_image_key g\<rparr>))"

definition own_key :: "int \<Rightarrow> ImageLocation option \<Rightarrow> string option" where
  "own_key u x = (case x of None \<Rightarrow> None | Some l \<Rightarrow> if il_ownerUserId l \<noteq> u then None else Some (il_imageKey l))"

lemma own_key_view:
  assumes ok: "ledger_ok h d"
  shows "own_key u (location_of n d) = map_option g_image_key (find (\<lambda>g. g_id g = n) (filter (\<lambda>g. g_user_id g = u) (d_images d)))"
proof (cases "find_row (\<lambda>g. g_id g = n) (d_images d)")
  case None
  then have "\<not> (\<exists>g \<in> set (d_images d). g_id g = n)" by (auto simp: find_row_def find_None_iff)
  then have "find (\<lambda>g. g_id g = n \<and> g_user_id g = u) (d_images d) = None" by (auto simp: find_None_iff)
  then show ?thesis using None by (simp add: location_of_def own_key_def find_filter)
next
  case (Some g)
  then have g: "g \<in> set (d_images d)" "g_id g = n" by (auto dest!: find_row_SomeD)
  obtain r where r: "find_row (\<lambda>r. r_id r = g_receipt_id g) (d_receipts d) = Some r" "r_user_id r = g_user_id g"
    using image_owner [OF ok g(1)] by blast
  have only: "g' = g" if "g' \<in> set (d_images d)" "g_id g' = n" for g'
    using inj_onD [OF unique_ids(6), of h d g' g] ok that g by (simp add: ledger_ok_def)
  have "find (\<lambda>g. g_id g = n \<and> g_user_id g = u) (d_images d) = (if g_user_id g = u then Some g else None)"
  proof (cases "find (\<lambda>g. g_id g = n \<and> g_user_id g = u) (d_images d)")
    case None
    then have "g_user_id g \<noteq> u" using g unfolding find_None_iff by blast
    then show ?thesis using None by simp
  next
    case (Some g')
    then have g': "g' \<in> set (d_images d)" "g_id g' = n" "g_user_id g' = u"
      using find_row_SomeD [of "\<lambda>g. g_id g = n \<and> g_user_id g = u" "d_images d" g'] by (auto simp: find_row_def)
    then show ?thesis using Some only by simp
  qed
  then show ?thesis using Some r by (simp add: location_of_def own_key_def find_filter)
qed

lemma reads_by_key:
  assumes k: "own_only h u P (\<lambda>d. k (f d))" and g: "\<And>x. reads h u P (g (k x))"
  shows "reads h u P (bindM (query (\<lambda>_. f)) (\<lambda>x. g (k x)))"
proof -
  have "bindM (query (\<lambda>_. f)) (\<lambda>x. g (k x)) = bindM (query (\<lambda>_ d. k (f d))) g"
    by (auto simp: bindM_def query_def attempt_def fun_eq_iff split: option.splits)
  moreover have "reads h u P (bindM (query (\<lambda>_ d. k (f d))) g)"
  proof (rule readsI)
    fix w :: world and d
    assume w: "ledger_ok h (w_db w)" "ledger_ok h d" "P (w_db w)" "P d" "view u d = view u (w_db w)"
    have eq: "k (f d) = k (f (w_db w))" using k w unfolding own_only_def by blast
    show "bindM (query (\<lambda>_ d. k (f d))) g (w\<lparr>w_db := d\<rparr>) =
        (fst (bindM (query (\<lambda>_ d. k (f d))) g w), (snd (bindM (query (\<lambda>_ d. k (f d))) g w))\<lparr>w_db := d\<rparr>) \<and>
        w_db (snd (bindM (query (\<lambda>_ d. k (f d))) g w)) = w_db w"
      using eq readsD [OF g, of "tick_step w" d "f (w_db w)"] w
      by (cases "w_faults w (w_step w)") (simp_all add: bindM_def query_def attempt_def tick_with_db)
  qed
  ultimately show ?thesis by simp
qed

lemma receipt_image_reads: "reads h u P (receipt_image (s3_store h' cfg) u n)"
proof -
  define g :: "string option \<Rightarrow> Response act" where
    "g = (\<lambda>key. case key of None \<Rightarrow> ret (errorResponse 404 ''not_found'' ''image not found'')
       | Some key \<Rightarrow> bindM (is_get (s3_store h' cfg) key) (\<lambda>bytes. ret (webpResponse bytes)))"
  have "receipt_image (s3_store h' cfg) u n = bindM (query (\<lambda>_. location_of n)) (\<lambda>x. g (own_key u x))"
    unfolding receipt_image_def findImage_def bindM_assoc bindM_ret location_of_def [symmetric]
    by (rule arg_cong [where f = "bindM _"]) (auto simp: g_def own_key_def fun_eq_iff split: option.splits)
  moreover have "own_only h u P (\<lambda>d. own_key u (location_of n d))"
    unfolding own_only_def using own_key_view view_parts(5) by metis
  moreover have "reads h u P (g x)" for x
    unfolding g_def by (intro reads_option reads_bindM reads_ret reads_get)
  ultimately show ?thesis by (simp add: reads_by_key)
qed

section \<open>The routes that show data\<close>

fun read_route :: "route \<Rightarrow> bool" where
  "read_route (ListImages n) = True"
| "read_route ListReceipts = True"
| "read_route (GetReceipt n) = True"
| "read_route (GetImage n) = True"
| "read_route (ListItems n) = True"
| "read_route ListCategories = True"
| "read_route ListTags = True"
| "read_route ListPaymentMethods = True"
| "read_route r = False"

lemma dispatch_reads:
  assumes "read_route r"
  shows "reads h u (\<lambda>_. True) (dispatch h (s3_store h cfg) u req r)"
  using assms
  by (cases r; simp only: dispatch.simps read_route.simps;
      (unfold receipt_listImages_def receipt_list_def receipt_get_def items_list_def listCategories_def listTags_def listPaymentMethods_def)?;
      intro reads_tryM reads_bindM reads_rules reads_if reads_option lists_read getReceipt_reads listImages_reads item_list_reads
        receipt_image_reads)

text \<open>C6: A user is shown that user's own data and nothing that depends on anybody else's. In two states of the server that
  differ only in what other users have, every route that shows data (receipts, items, images, categories, tags, payment methods) gives the
  same answer to the same request of a user, errors included: from the ids that a request may name, nothing can be learned about
  whether another user has a row with that id.\<close>

theorem answers_depend_on_own_data:
  assumes "read_route r" and "ledger_ok h (w_db w)" "ledger_ok h d" and "view u d = view u (w_db w)"
  shows "fst (dispatch h (s3_store h cfg) u req r (w\<lparr>w_db := d\<rparr>)) = fst (dispatch h (s3_store h cfg) u req r w)"
  using readsD [OF dispatch_reads [OF assms(1)] assms(2,3) _ _ assms(4)] by simp

text \<open>Ann asks for the receipt with id 1, which Bob has in one world and nobody has in the other.\<close>

theorem answers_depend_on_own_data_witness:
  "fst (dispatch sample_host (s3_store sample_host sample_config) 1 photo_request (GetReceipt 1) (ann_world\<lparr>w_db := w_db bob_world\<rparr>)) =
     Inr (errorResponse 404 ''not_found'' ''receipt not found'')"
proof -
  have "violation sample_host (w_db ann_world) = None" by code_simp
  then have ann: "ledger_ok sample_host (w_db ann_world)"
    by (simp add: ledger_ok_def tenant_ok_def ann_world_def auth_world_def sample_world_def empty_db_def)
  have view: "view 1 (w_db bob_world) = view 1 (w_db ann_world)"
    by (simp add: view_def items_owned_def owned_def bob_world_def ann_world_def auth_world_def empty_db_def new_receipt_def)
  have "fst (dispatch sample_host (s3_store sample_host sample_config) 1 photo_request (GetReceipt 1) ann_world) =
      Inr (errorResponse 404 ''not_found'' ''receipt not found'')"
    by (simp add: receipt_get_def getReceipt_def owns_receipt_def find_row_def bindM_def query_def attempt_def ret_def ann_world_def
        auth_world_def sample_world_def empty_db_def tick_step_def)
  then show ?thesis
    using answers_depend_on_own_data [OF _ ann bob_ledger view, of "GetReceipt 1" sample_config photo_request] by simp
qed

end
