(* ===== verification/StoredImages.thy ===== *)
theory StoredImages
  imports Server
begin

text \<open>
  What reaches the bucket: only bytes that the normalizer wrote. Phone photos carry the place they were taken
  in their metadata, so no upload may be stored as it came. \<open>canon_step\<close> relates two worlds when every object of the
  second is an object of the first or such an output.
\<close>

definition canon_step :: "vips \<Rightarrow> (world \<Rightarrow> string \<Rightarrow> string option) \<Rightarrow> world \<Rightarrow> world \<Rightarrow> bool" where
  "canon_step v object w w' \<longleftrightarrow>
     (\<forall>key bytes. object w' key = Some bytes \<longrightarrow> object w key = Some bytes \<or> canonical_image v bytes)"

lemma canon_refl: "object w' = object w \<Longrightarrow> canon_step v object w w'"
  by (simp add: canon_step_def)

lemma canon_trans: "canon_step v object a b \<Longrightarrow> canon_step v object b c \<Longrightarrow> canon_step v object a c"
  unfolding canon_step_def by blast

context image_store_contract
begin

lemma put_canon:
  assumes "canonical_image v bytes"
  shows "honours (canon_step v object) (is_put st key ct bytes)"
  unfolding honours_def
proof
  fix w
  obtain r w' where run: "is_put st key ct bytes w = (r, w')" by (cases "is_put st key ct bytes w")
  show "canon_step v object w (snd (is_put st key ct bytes w))"
    using put_stores put_fails run assms by (cases r) (auto simp: canon_step_def)
qed

lemma get_canon: "honours (canon_step v object) (is_get st key)"
  unfolding honours_def by (metis canon_refl get_keeps prod.collapse)

lemma remove_canon: "honours (canon_step v object) (is_remove st key)"
  unfolding honours_def
proof
  fix w
  obtain r w' where run: "is_remove st key w = (r, w')" by (cases "is_remove st key w")
  show "canon_step v object w (snd (is_remove st key w))"
    using remove_removes remove_fails run by (cases r) (auto simp: canon_step_def split: if_splits)
qed

sublocale canon_rows: claim_relation "canon_step v object" for v
  by unfold_locales (auto intro: canon_refl canon_trans simp: canon_step_def)

lemma insert_image_canon: "honours (canon_step v object) (insert_image h u n key sha)"
  unfolding insert_image_def insert_row_def attempt_def honours_def
  by (auto simp: commit_write_def split: option.splits intro!: canon_refl)

sublocale canon: route_relation "canon_step (h_vips h) object" h st for h
proof unfold_locales
  show "honours (canon_step (h_vips h) object) (storeImage h st u n img)"
    if "normalize_image h raw = Inr (pi_normalized img)" for raw img u n
    unfolding storeImage_def
    by (intro canon_rows.row_rules canon_rows.generateImageKey_row put_canon normalize_canonical [OF that] insert_image_canon)
qed (rule get_canon)

lemma deleteReceipt_canon: "honours (canon_step v object) (deleteReceipt h st u n)"
  unfolding deleteReceipt_def delete_receipt_row_def
  by (intro canon_rows.row_rules remove_canon canon_rows.honours_exec_row) (auto intro: drop_receipts_rows)

lemma dispatch_canon: "honours (canon_step (h_vips h) object) (dispatch h st u req r)"
proof (cases "\<exists>n. r = RemoveReceipt n")
  case True
  then show ?thesis
    by (auto simp: receipt_remove_def guarded_def intro!: canon_rows.row_rules deleteReceipt_canon)
qed (rule canon.dispatch_R, simp)

end

section \<open>The system\<close>

abbreviation bucket_step :: "host \<Rightarrow> S3Config \<Rightarrow> world \<Rightarrow> world \<Rightarrow> bool" where
  "bucket_step h cfg \<equiv> canon_step (h_vips h) (s3_object cfg)"

lemma event_canon: "honours (bucket_step h cfg) (event_action h cfg ev)"
proof (cases ev)
  case (Serve req r)
  show ?thesis
    unfolding Serve event_action.simps serve_def doFilter_def
    by (intro s3.canon_rows.row_rules s3.dispatch_canon s3.canon_rows.auth_R(2))
next
  case (Public now lims req r)
  show ?thesis unfolding Public event_action.simps by (rule s3.canon_rows.public_R)
qed

lemma step_canon: "step h cfg K w w' \<Longrightarrow> bucket_step h cfg w w'"
proof (induction rule: step.induct)
  case (step_event w ev)
  show ?case using event_canon by (simp add: honours_def)
next
  case (step_reclaim w wcfg)
  show ?case using s3.canon_rows.reclaim_rows_row by (simp add: honours_def)
next
  case (step_claim clock w wcfg)
  show ?case using s3.canon_rows.claim_receipts_row by (simp add: honours_def)
next
  case (step_write c w res tx before m)
  show ?case using s3.canon_rows.write_result_row by (simp add: honours_def)
next
  case (step_fail w c e cap)
  show ?case using s3.canon_rows.spend_failure_row by (simp add: honours_def)
next
  case (step_env w' w)
  show ?case by (intro canon_refl s3.object_local step_env)
qed

lemma run_canon: "run h cfg K w w' \<Longrightarrow> bucket_step h cfg w w'"
  by (induction rule: run.induct) (auto intro: canon_refl canon_trans step_canon)

text \<open>C9: Whatever is uploaded, whoever uploads it and whatever fails, every object that a run adds to the bucket is an output
  of the normalizer: bytes that libvips saved as WebP of quality 80 with all metadata stripped, from an image
  shrunk to fit 2048 by 2048 pixels and never enlarged. No upload is stored as it came.\<close>

theorem uploads_are_stored_stripped:
  assumes "run h cfg K w0 w" and "s3_object cfg w key = Some bytes" and "s3_object cfg w0 key \<noteq> Some bytes"
  shows "\<exists>raw img. v_thumbnail_buffer (h_vips h) raw 2048 2048 VIPS_SIZE_DOWN = Inr img \<and>
     v_webpsave_buffer (h_vips h) img 80 True = Inr bytes"
  using run_canon [OF assms(1)] assms(2,3) unfolding canon_step_def canonical_image_def by blast

theorem uploads_are_stored_stripped_witness:
  "\<exists>key bytes. s3_object sample_config photo_run_end key = Some bytes \<and>
     (\<exists>raw img. v_thumbnail_buffer (h_vips sample_host) raw 2048 2048 VIPS_SIZE_DOWN = Inr img \<and>
        v_webpsave_buffer (h_vips sample_host) img 80 True = Inr bytes)"
proof -
  let ?key = "g_image_key (hd (d_images (w_db photo_run_end)))"
  have "s3_object sample_config photo_run_end ?key = Some ''webp''" by code_simp
  moreover have "s3_object sample_config ann_world ?key = None" by code_simp
  ultimately show ?thesis using uploads_are_stored_stripped [OF photo_run, of ?key] by (metis option.distinct(1))
qed

end
