(* ===== verification/Startup.thy ===== *)
theory Startup
  imports Server
begin

text \<open>
  The start of the process: \<^verbatim>\<open>src/src/main.cpp\<close>, \<^verbatim>\<open>SodiumInit.cpp\<close> and
  \<open>startScanWorker\<close> of \<^verbatim>\<open>ScanServices.cpp\<close>. \<open>app_main\<close> is what \<open>main\<close> has handed to Drogon once the beginning advice has run,
  or the exception that ended it; from then on the server is the system of \<open>Server\<close>.
\<close>

text \<open>\<open>sodium_init\<close> returns \<open>sodium\<close>; the once flags make later calls of both initializers no-ops.\<close>

definition ensureSodiumInitialized :: "int \<Rightarrow> error + unit" where
  "ensureSodiumInitialized sodium = (if sodium < 0 then Inl (RuntimeError ''sodium_init failed'') else Inr ())"

record PostgresConfig =
  pg_host :: string
  pg_port :: "16 word"
  pg_databaseName :: string
  pg_username :: string
  pg_password :: string
  pg_connectionNumber :: int
  pg_name :: string
  pg_isFast :: bool
  pg_characterSet :: string
  pg_timeout :: double
  pg_autoBatch :: bool
  pg_connectOptions :: "(string \<times> string) list"

definition dbConfig :: "host \<Rightarrow> error + PostgresConfig" where
  "dbConfig h =
     rbind (stoi (envOr h ''DB_PORT'' ''5432'')) (\<lambda>port.
     Inr \<lparr>pg_host = envOr h ''DB_HOST'' ''localhost'',
          pg_port = word_of_int port,
          pg_databaseName = envOr h ''DB_NAME'' ''receipt_scanner'',
          pg_username = envOr h ''DB_USER'' ''receipt_scanner'',
          pg_password = envOr h ''DB_PASSWORD'' [],
          pg_connectionNumber = 4, pg_name = ''default'', pg_isFast = False, pg_characterSet = [],
          pg_timeout = double_of_int (- 1), pg_autoBatch = False, pg_connectOptions = []\<rparr>)"

text \<open>The poll interval and the worker that ticks on it.\<close>

definition startScanWorker :: "ApiHost \<Rightarrow> host \<Rightarrow> error + double \<times> ScanWorker" where
  "startScanWorker ah h =
     rbind (h_stod h (envOr h ''SCAN_POLL_SECONDS'' ''5'')) (\<lambda>pollSeconds.
     rbind (scanWorker ah h (s3ConfigFromEnv h)) (\<lambda>worker.
     Inr (pollSeconds, worker)))"

record App =
  ap_clientMaxBodySize :: int
  ap_db :: PostgresConfig
  ap_listener :: "string \<times> int"
  ap_threads :: int
  ap_pollSeconds :: double
  ap_worker :: ScanWorker

definition app_main :: "int \<Rightarrow> ApiHost \<Rightarrow> host \<Rightarrow> error + App" where
  "app_main sodium ah h =
     rbind (ensureSodiumInitialized sodium) (\<lambda>_.
     rbind (initVips (h_vips h)) (\<lambda>_.
     rbind (dbConfig h) (\<lambda>db.
     rbind (startScanWorker ah h) (\<lambda>(pollSeconds, worker).
     Inr \<lparr>ap_clientMaxBodySize = 130 * 1024 * 1024, ap_db = db, ap_listener = (''0.0.0.0'', 8080), ap_threads = 4,
          ap_pollSeconds = pollSeconds, ap_worker = worker\<rparr>))))"

section \<open>What a server that starts runs\<close>

lemma interleaved_idle: "interleaved h cfg (\<lambda>_ _. []) (\<lambda>_ _. []) sw = sw"
  by (simp add: interleaved_def events_def bindM_ret)

lemma app_main_worker:
  assumes "app_main sodium ah h = Inr app"
  shows "scanWorker ah h (s3ConfigFromEnv h) = Inr (ap_worker app)" and "initVips (h_vips h) = Inr ()"
  using assms by (auto simp: app_main_def startScanWorker_def rbind_eq_Inr)

lemma started_tick:
  assumes "app_main sodium ah h = Inr app" and "sys_ok h (s3ConfigFromEnv h) w"
  shows "run h (s3ConfigFromEnv h) UNIV w (snd (tick h (ap_worker app) clock w))"
proof -
  obtain wcfg choice where "ap_worker app = worker_of ah h (s3ConfigFromEnv h) wcfg choice"
    using scanWorker_covered [OF app_main_worker(1) [OF assms(1)]] by blast
  then have "ap_worker app = app_worker ah h (s3ConfigFromEnv h) wcfg choice (\<lambda>_ _. []) (\<lambda>_ _. [])"
    by (simp add: app_worker_def interleaved_idle)
  then show ?thesis using scan_run.tick_R [OF assms(2)] by simp
qed

lemma started_provider:
  assumes "app_main sodium ah h = Inr app"
  shows "envOr h ''SCAN_PROVIDER'' ''fake'' = ''fake'' \<or>
     envOr h ''SCAN_PROVIDER'' ''fake'' = ''anthropic'' \<and> (\<exists>config. checkedAnthropicConfig h = Inr config)"
  using app_main_worker(1) [OF assms]
  by (auto simp: scanWorker_def scanProvider_def rbind_eq_Inr Let_def split: if_splits)

lemma started_normalizer:
  assumes "app_main sodium ah h = Inr app" and "normalize_image h raw = Inl e"
  shows "\<exists>what. e = decode_error what \<or> e = encode_error what"
  using assms(2) app_main_worker(2) [OF assms(1)]
  by (auto simp: normalize_image_def normalizeSync_def split: sum.splits)

text \<open>C35: A server that starts is the modelled system. When \<open>main\<close> gets as far as serving, every tick of the worker it started is a run
  of the system, on the bucket the environment names; the scan provider is the fake one or the Anthropic adapter with a configuration that
  passed the reclaim check, never an unchecked one; and no image of an upload fails for want of libvips: only bytes that do not
  decode and encoders that fail remain.\<close>

theorem started_server_is_the_system:
  assumes "app_main sodium ah h = Inr app" and "sys_ok h (s3ConfigFromEnv h) w"
  shows "run h (s3ConfigFromEnv h) UNIV w (snd (tick h (ap_worker app) clock w)) \<and>
     (envOr h ''SCAN_PROVIDER'' ''fake'' = ''fake'' \<or>
      envOr h ''SCAN_PROVIDER'' ''fake'' = ''anthropic'' \<and> (\<exists>config. checkedAnthropicConfig h = Inr config)) \<and>
     (\<forall>raw e. normalize_image h raw = Inl e \<longrightarrow> (\<exists>what. e = decode_error what \<or> e = encode_error what))"
  using started_tick [OF assms] started_provider [OF assms(1)] started_normalizer [OF assms(1)] by blast

theorem started_server_is_the_system_witness:
  "\<exists>app. app_main 0 sample_api sample_host = Inr app \<and> unat (pg_port (ap_db app)) = 5432 \<and>
     run sample_host sample_config UNIV sample_world (snd (tick sample_host (ap_worker app) (\<lambda>_. 7) sample_world))"
proof -
  have "case app_main 0 sample_api sample_host of Inl e \<Rightarrow> False | Inr app \<Rightarrow> unat (pg_port (ap_db app)) = 5432" by code_simp
  then obtain app where "app_main 0 sample_api sample_host = Inr app" "unat (pg_port (ap_db app)) = 5432"
    by (auto split: sum.splits)
  moreover have "sys_ok sample_host (s3ConfigFromEnv sample_host) sample_world" by (simp add: empty_sys sample_world_def)
  ultimately show ?thesis
    using started_server_is_the_system [of 0 sample_api sample_host app sample_world "\<lambda>_. 7"] by (auto simp: sample_config_def)
qed

end
