(* ===== verification/ScanLane.thy ===== *)
theory ScanLane
  imports ScanWorker "HOL-Library.Multiset"
begin

text \<open>
  What the scan pipeline does to a row: validated results are storable, verification never
  overwrites, failures spend exactly one budget, a stale claim writes nothing, claims respect
  the concurrency cap and the queue order, and no scan throws.
\<close>

section \<open>Results\<close>

lemma as_scan_error_Inr [res_simps]: "as_scan_error r = Inr x \<longleftrightarrow> r = Inr x"
  by (auto simp: as_scan_error_def split: sum.splits error.splits)

lemma validateResult_Inr:
  assumes "validateResult result verifying = Inr valid"
  shows "\<exists>cur. valid = result\<lparr>sr_currency := cur\<rparr> \<and> currency_code cur"
    and "0 \<le> sr_totalCents valid"
    and "\<not> verifying \<Longrightarrow> \<exists>rules. findKind (sr_kind valid) = Some rules \<and> scannable rules"
    and "\<not> (\<exists>item \<in> set (sr_items valid). bad_item item)"
    and "\<And>d. sr_purchaseDate valid = Some d \<Longrightarrow> date_string d"
proof -
  from assms obtain cur where
    c: "currency (JString (sr_currency result)) ''currency'' = Inr cur" "valid = result\<lparr>sr_currency := cur\<rparr>"
    and total: "\<not> sr_totalCents result < 0" and items: "\<not> (\<exists>item \<in> set (sr_items result). bad_item item)"
    and kind: "\<not> (\<not> verifying \<and> (case findKind (sr_kind result) of None \<Rightarrow> True | Some rules \<Rightarrow> \<not> scannable rules))"
    and d: "\<exists>x. (case sr_purchaseDate result of None \<Rightarrow> Inr [] | Some d \<Rightarrow> date (JString d) ''purchase_date'') = Inr x"
    unfolding validateResult_def guard_chain as_scan_error_Inr rbind_eq_Inr by auto
  show "\<exists>cur. valid = result\<lparr>sr_currency := cur\<rparr> \<and> currency_code cur"
    using c currency_ok by blast
  show "0 \<le> sr_totalCents valid" using total c(2) by simp
  show "\<not> verifying \<Longrightarrow> \<exists>rules. findKind (sr_kind valid) = Some rules \<and> scannable rules"
    using kind c(2) by (auto split: option.splits)
  show "\<not> (\<exists>item \<in> set (sr_items valid). bad_item item)" using items c(2) by simp
  show "\<And>d. sr_purchaseDate valid = Some d \<Longrightarrow> date_string d"
    using d c(2) by (auto simp: date_eq_Inr simp del: date.simps)
qed

text \<open>The table's canonical directions and tax rule are those of the CHECK constraints.\<close>

lemma table_agrees_with_checks:
  assumes "findKind kind = Some rules"
  shows "chk_direction_by_kind kind dir \<longleftrightarrow>
      (kr_canonicalDirection rules = None \<or> kr_canonicalDirection rules = Some dir)"
    and "kr_allowsTaxDeductible rules \<longleftrightarrow> kind = ''purchase''"
  using assms by (cases rule: kind_cases; simp add: chk_direction_by_kind_def eq_commute)+

lemma kind_in_check:
  "findKind kind = Some rules \<Longrightarrow> kind \<in> {''purchase'', ''refund'', ''reimbursement'', ''income'', ''transfer''}"
  using findKind_known [of kind] by simp

lemma extract_row_checks:
  assumes r: "receipt_checks r" and v: "validateResult result False = Inr valid"
    and rules: "rulesFor (sr_kind valid) = Inr rules"
  shows "receipt_checks (extract_row valid (canonical_or_empty rules) (tax \<and> kr_allowsTaxDeductible rules)
     offs pdate raw now r)"
proof -
  note ok = validateResult_Inr [OF v]
  have find: "findKind (sr_kind valid) = Some rules" using rules by (simp add: rulesFor_eq_Inr)
  then have "scannable rules" using ok(3) by simp
  then obtain dir where dir: "kr_canonicalDirection rules = Some dir"
    using scannable_has_direction [OF find] by blast
  have known: "isKnownDirection dir" by (rule canonicalDirection_known [OF find dir])
  have kind: "sr_kind valid \<in> {''purchase'', ''refund'', ''reimbursement'', ''income'', ''transfer''}"
    by (rule kind_in_check [OF find])
  have chk: "chk_direction_by_kind (sr_kind valid) dir"
    using table_agrees_with_checks(1) [OF find] dir by simp
  have tax: "kr_allowsTaxDeductible rules \<Longrightarrow> sr_kind valid = ''purchase''"
    using table_agrees_with_checks(2) [OF find] by simp
  show ?thesis
    using r known kind chk tax ok(2)
    unfolding receipt_checks_def extract_row_def canonical_or_empty_def dir isKnownDirection_def kDirections_def
    by (auto simp: kIdle_def)
qed

section \<open>Claims\<close>

lemma insert_by_mset: "mset (insert_by le x xs) = add_mset x (mset xs)"
  by (induction xs) auto

lemma order_by_mset: "mset (order_by le xs) = mset xs"
  by (induction xs) (simp_all add: order_by_def insert_by_mset)

lemma insert_by_sorted:
  assumes "sorted_wrt le xs" and "\<And>a b. le a b \<or> le b a" and "\<And>a b c. le a b \<Longrightarrow> le b c \<Longrightarrow> le a c"
  shows "sorted_wrt le (insert_by le x xs)"
  using assms(1)
proof (induction xs)
  case (Cons y ys)
  have "set (insert_by le x ys) = insert x (set ys)"
    using insert_by_mset [of le x ys] by (metis set_mset_add_mset_insert set_mset_mset)
  then show ?case using Cons assms(2,3) by auto
qed simp

lemma order_by_sorted:
  assumes "\<And>a b. le a b \<or> le b a" and "\<And>a b c. le a b \<Longrightarrow> le b c \<Longrightarrow> le a c"
  shows "sorted_wrt le (order_by le xs)"
  by (induction xs) (simp_all add: order_by_def insert_by_sorted assms)

lemma oldest_first_total: "oldest_first a b \<or> oldest_first b a"
  and oldest_first_trans: "oldest_first a b \<Longrightarrow> oldest_first b c \<Longrightarrow> oldest_first a c"
  by (auto simp: oldest_first_def)

lemma order_by_set [simp]: "set (order_by le xs) = set xs"
  using order_by_mset [of le xs] by (metis set_mset_mset)

lemma claimable_uploaded:
  "r \<in> set (claimable cfg d) \<Longrightarrow> r \<in> set (d_receipts d) \<and> r_scan_state r = kUploaded"
  unfolding claimable_def by (drule in_set_takeD) simp

lemma claimable_length:
  "length (claimable cfg d) \<le> nat (cf_concurrency cfg - int (length (filter (\<lambda>r. r_scan_state r = kScanning) (d_receipts d))))"
  by (simp add: claimable_def)

text \<open>The rows the UPDATE of \<open>claim\<close> hits are the claimable ones.\<close>

lemma claim_hits:
  assumes "distinct (map r_id (d_receipts d))" and "r \<in> set (d_receipts d)"
  shows "r_id r \<in> r_id ` set (claimable cfg d) \<longleftrightarrow> r \<in> set (claimable cfg d)"
  using assms claimable_uploaded [of _ cfg d] by (auto simp: distinct_map inj_on_def)

lemma hits_length:
  assumes "distinct (map r_id (d_receipts d))"
  shows "length (filter (\<lambda>r. r_id r \<in> r_id ` set (claimable cfg d)) (d_receipts d)) \<le> length (claimable cfg d)"
proof -
  let ?hits = "filter (\<lambda>r. r_id r \<in> r_id ` set (claimable cfg d)) (d_receipts d)"
  have "distinct ?hits" using assms by (simp add: distinct_map)
  then have "length ?hits = card (set ?hits)" by (rule distinct_card [symmetric])
  also have "\<dots> \<le> card (set (claimable cfg d))"
    by (rule card_mono) (use claim_hits [OF assms, of _ cfg] in auto)
  also have "\<dots> \<le> length (claimable cfg d)" by (rule card_length)
  finally show ?thesis .
qed

lemma states_distinct [simp]:
  "kScanning \<noteq> kUploaded" "kUploaded \<noteq> kScanning" "kScanFailed \<noteq> kScanning" "kScanning \<noteq> kScanFailed"
  "kIdle \<noteq> kScanning" "kScanning \<noteq> kIdle" "kScanFailed \<noteq> kUploaded" "kUploaded \<noteq> kScanFailed"
  by (simp_all add: state_defs)

lemma filter_disjoint_length:
  "(\<And>x. x \<in> set xs \<Longrightarrow> \<not> (P x \<and> Q x)) \<Longrightarrow>
   length (filter (\<lambda>x. P x \<or> Q x) xs) = length (filter P xs) + length (filter Q xs)"
  by (induction xs) auto

lemma claim_scanning_count:
  assumes ids: "distinct (map r_id (d_receipts d))"
  shows "length (filter (\<lambda>r. r_scan_state r = kScanning)
      (update_where (\<lambda>r. r_id r \<in> r_id ` set (claimable cfg d)) (claim_row clock) (d_receipts d)))
    \<le> length (filter (\<lambda>r. r_scan_state r = kScanning) (d_receipts d)) + length (claimable cfg d)"
proof -
  let ?hit = "\<lambda>r. r_id r \<in> r_id ` set (claimable cfg d)"
  have "filter (\<lambda>r. r_scan_state r = kScanning) (update_where ?hit (claim_row clock) rs)
      = map (\<lambda>r. if ?hit r then claim_row clock r else r) (filter (\<lambda>r. ?hit r \<or> r_scan_state r = kScanning) rs)" for rs
    by (induction rs) (auto simp: update_where_def claim_row_def)
  moreover have "\<not> (?hit r \<and> r_scan_state r = kScanning)" if "r \<in> set (d_receipts d)" for r
    using claim_hits [OF ids that] claimable_uploaded by fastforce
  ultimately show ?thesis
    using hits_length [OF ids, of cfg] filter_disjoint_length [of "d_receipts d" ?hit "\<lambda>r. r_scan_state r = kScanning"]
    by simp
qed

lemma violation_receipt_ids: "violation h d = None \<Longrightarrow> distinct (map r_id (d_receipts d))"
  by (auto simp: violation_def unique_violation_def split: if_splits)

lemma map_update_where: "(\<And>x. g (f x) = g x) \<Longrightarrow> map g (update_where P f xs) = map g xs"
  by (simp add: update_where_def)

lemma claim_receipts_Inr:
  assumes "claim_receipts h cfg clock w = (Inr claims, w')"
  shows "distinct (map r_id (d_receipts (w_db w)))"
    and "w_db w' = (w_db w)\<lparr>d_receipts := update_where (\<lambda>r. r_id r \<in> r_id ` set (claimable cfg (w_db w)))
       (claim_row clock) (d_receipts (w_db w))\<rparr>"
    and "claims = map (claim_of clock) (filter (\<lambda>r. r_id r \<in> r_id ` set (claimable cfg (w_db w))) (d_receipts (w_db w)))"
proof -
  from assms show d': "w_db w' = (w_db w)\<lparr>d_receipts := update_where (\<lambda>r. r_id r \<in> r_id ` set (claimable cfg (w_db w)))
       (claim_row clock) (d_receipts (w_db w))\<rparr>"
    and "claims = map (claim_of clock) (filter (\<lambda>r. r_id r \<in> r_id ` set (claimable cfg (w_db w))) (d_receipts (w_db w)))"
    by (auto simp: claim_receipts_def exec_Inr Let_def)
  have "violation h (w_db w') = None" using assms by (auto simp: claim_receipts_def exec_Inr Let_def)
  then show "distinct (map r_id (d_receipts (w_db w)))"
    using violation_receipt_ids [of h "w_db w'"] by (simp add: d' map_update_where claim_row_def)
qed

section \<open>No scan throws\<close>

lemma tryM_total: "(\<And>e w. \<exists>y w'. hdl e w = (Inr y, w')) \<Longrightarrow> \<exists>x w'. tryM m hdl w = (Inr x, w')"
  by (cases "m w"; cases "fst (m w)") (auto simp: tryM_def)

lemma bindM_total:
  assumes "\<exists>x w'. m w = (Inr x, w')" and "\<And>x w. \<exists>y w'. f x w = (Inr y, w')"
  shows "\<exists>y w'. bindM m f w = (Inr y, w')"
  using assms by (fastforce simp: bindM_def)

lemma process_total: "\<exists>w'. process h sw claim w = (Inr (), w')"
proof -
  have caught: "\<exists>y w'. tryM m (\<lambda>_. ret z) w = (Inr y, w')" for m and z :: unit and w
    by (rule tryM_total) (simp add: ret_def)
  have "\<exists>y w'. process h sw claim w = (Inr y, w')"
    unfolding process_def
  proof (rule bindM_total)
    show "\<exists>x w'. tryM (bindM (scan_claim h sw claim) (\<lambda>failure. ret (map_option (\<lambda>e. (True, e)) failure)))
        (\<lambda>e. ret (Some (False, e))) w = (Inr x, w')"
      by (rule tryM_total) (simp add: ret_def)
  qed (use caught in \<open>auto simp: ret_def split: option.splits\<close>)
  then show ?thesis by simp
qed

lemma tick_total: "\<exists>n w'. tick h sw clock w = (Inr n, w')"
  unfolding tick_def by (rule tryM_total) (simp add: ret_def)

section \<open>Stale claims\<close>

lemma update_where_none: "(\<And>x. x \<in> set xs \<Longrightarrow> \<not> P x) \<Longrightarrow> update_where P f xs = xs"
  by (auto simp: update_where_def intro: map_idI)

lemma find_row_None: "find_row P xs = None \<longleftrightarrow> (\<forall>x \<in> set xs. \<not> P x)"
  by (auto simp: find_row_def find_None_iff)

lemma find_row_only:
  assumes "r \<in> set xs" "P r" and only: "\<And>x. x \<in> set xs \<Longrightarrow> P x \<Longrightarrow> x = r"
  shows "find_row P xs = Some r"
proof (cases "find_row P xs")
  case None
  then show ?thesis using assms(1,2) by (auto simp: find_row_None)
next
  case (Some x)
  then have "x \<in> set xs" "P x" unfolding find_row_def find_Some_iff by auto
  then show ?thesis using only Some by blast
qed

lemma stale_no_row: "snapshot_of claim d = None \<Longrightarrow> r \<in> set (d_receipts d) \<Longrightarrow> \<not> claimed_row claim r"
  by (auto simp: snapshot_of_def find_row_None)

lemma spend_failure_stale:
  assumes "snapshot_of claim (w_db w) = None"
  shows "w_db (snd (spend_failure h claim scanError cap w)) = w_db w"
proof -
  have "update_where (claimed_row claim) f (d_receipts (w_db w)) = d_receipts (w_db w)" for f
    using stale_no_row [OF assms] by (rule update_where_none)
  then show ?thesis
    by (simp add: spend_failure_def exec_def attempt_def commit_write_def split: option.splits)
qed

lemma write_result_stale:
  assumes "snapshot_of claim (w_db w) = None"
  shows "w_db (snd (write_result h claim result taxonomy before allMatch w)) = w_db w"
  using assms
  by (auto simp: write_result_def transaction_def attempt_def readSnapshot_def query_def bindM_def ret_def
      split: option.splits prod.splits sum.splits)

section \<open>Properties\<close>


definition queued_receipt :: "int \<Rightarrow> instant \<Rightarrow> receipt_row" where
  "queued_receipt n t = new_receipt n t 1 ''purchase'' ''outflow'' ''scanned'' ''uploaded''"

definition queue_db :: db where
  "queue_db = empty_db\<lparr>d_users := [\<lparr>u_id = 1, u_email = ''a'', u_password_hash = [], u_email_verified_at = None\<rparr>],
     d_receipts := [queued_receipt 1 30, queued_receipt 2 10, queued_receipt 3 20]\<rparr>"

definition default_config :: ScanWorkerConfig where
  "default_config = \<lparr>cf_concurrency = 2, cf_maxScanAttempts = 3, cf_maxReclaims = 10, cf_reclaimAfterSeconds = 600,
     cf_matchDateDays = 3, cf_merchantMatchThreshold = dzero\<rparr>"


text \<open>C32: The two failure budgets. Recording a failure against a live claim changes the claimed row alone: a scan error spends
  one attempt and leaves the reclaim count, every other failure spends one reclaim and leaves the attempts; the row
  leaves \<open>scanning\<close>, for \<open>scan_failed\<close> exactly when that budget is used up and back to the queue otherwise. A receipt
  without images (a terminal failure) fails at once.\<close>

theorem failure_budgets:
  assumes run: "spend_failure h claim scanError (failure_cap cfg scanError terminal) w = (Inr state, w')"
    and row: "r \<in> set (d_receipts (w_db w))" "claimed_row claim r" and budgets: "0 \<le> r_scan_attempts r" "0 \<le> r_reclaim_count r"
  shows "\<exists>r'. d_receipts (w_db w') = map (\<lambda>x. if r_id x = cl_receiptId claim then r' else x) (d_receipts (w_db w)) \<and>
     r_scan_attempts r' = r_scan_attempts r + (if scanError then 1 else 0) \<and>
     r_reclaim_count r' = r_reclaim_count r + (if scanError then 0 else 1) \<and>
     r_scan_started_at r' = None \<and> state = Some (r_scan_state r') \<and>
     r_scan_state r' = (if terminal \<or> (if scanError then r_scan_attempts r + 1 \<ge> cf_maxScanAttempts cfg
        else r_reclaim_count r + 1 \<ge> cf_maxReclaims cfg) then kScanFailed else kUploaded)"
proof -
  let ?f = "fail_row scanError (failure_cap cfg scanError terminal)"
  have w': "d_receipts (w_db w') = update_where (claimed_row claim) ?f (d_receipts (w_db w))" "violation h (w_db w') = None"
    and state: "state = map_option (\<lambda>r. r_scan_state (?f r)) (find_row (claimed_row claim) (d_receipts (w_db w)))"
    using run by (auto simp: spend_failure_def runs)
  have "map r_id (d_receipts (w_db w')) = map r_id (d_receipts (w_db w))"
    unfolding w'(1) by (rule map_update_where) (simp add: fail_row_def)
  then have ids: "distinct (map r_id (d_receipts (w_db w)))" using violation_receipt_ids [OF w'(2)] by simp
  have id: "r_id r = cl_receiptId claim" using row(2) by (simp add: claimed_row_def)
  have own: "x = r" if "x \<in> set (d_receipts (w_db w))" "r_id x = cl_receiptId claim" for x
    using ids that row(1) id by (metis distinct_map inj_on_eq_iff)
  have "update_where (claimed_row claim) ?f (d_receipts (w_db w)) =
      map (\<lambda>x. if r_id x = cl_receiptId claim then ?f r else x) (d_receipts (w_db w))"
    unfolding update_where_def using own row(2) by (intro map_cong refl) (auto simp: claimed_row_def)
  moreover have "find_row (claimed_row claim) (d_receipts (w_db w)) = Some r"
  proof (rule find_row_only [where P = "claimed_row claim", OF row])
    show "x = r" if "x \<in> set (d_receipts (w_db w))" "claimed_row claim x" for x
      by (rule own [OF that(1)]) (use that(2) in \<open>simp add: claimed_row_def\<close>)
  qed
  ultimately show ?thesis
    using w'(1) state budgets by (intro exI [of _ "?f r"]) (auto simp: fail_row_def failure_cap_def)
qed

theorem failure_budgets_witness:
  "\<exists>state w'. spend_failure sample_host \<lparr>cl_receiptId = 2, cl_userId = 1, cl_claimedAt = 99\<rparr> True (failure_cap default_config True False)
      (sample_world\<lparr>w_db := queue_db\<lparr>d_receipts := [claim_row (\<lambda>_. 99) (queued_receipt 2 10)]\<rparr>\<rparr>) = (Inr state, w') \<and>
     state = Some kUploaded"
proof -
  define w where "w = sample_world\<lparr>w_db := queue_db\<lparr>d_receipts := [claim_row (\<lambda>_. 99) (queued_receipt 2 10)]\<rparr>\<rparr>"
  define r where "r = spend_failure sample_host \<lparr>cl_receiptId = 2, cl_userId = 1, cl_claimedAt = 99\<rparr> True (failure_cap default_config True False) w"
  have "case fst r of Inl _ \<Rightarrow> False | Inr _ \<Rightarrow> True" unfolding r_def w_def by code_simp
  then obtain state where "fst r = Inr state" by (auto split: sum.splits)
  then have run: "spend_failure sample_host \<lparr>cl_receiptId = 2, cl_userId = 1, cl_claimedAt = 99\<rparr> True (failure_cap default_config True False) w
      = (Inr state, snd r)" by (metis prod.collapse r_def)
  have row: "claim_row (\<lambda>_. 99) (queued_receipt 2 10) \<in> set (d_receipts (w_db w))" by (simp add: w_def)
  have "claimed_row \<lparr>cl_receiptId = 2, cl_userId = 1, cl_claimedAt = 99\<rparr> (claim_row (\<lambda>_. 99) (queued_receipt 2 10))"
    "0 \<le> r_scan_attempts (claim_row (\<lambda>_. 99) (queued_receipt 2 10))" "0 \<le> r_reclaim_count (claim_row (\<lambda>_. 99) (queued_receipt 2 10))"
    by code_simp+
  from failure_budgets [OF run row this] have "state = Some kUploaded"
    by (auto simp: default_config_def claim_row_def queued_receipt_def new_receipt_def)
  then show ?thesis using run unfolding w_def by blast
qed

text \<open>Failures of a receipt, one after the other; true marks a scan error.\<close>

definition fail_all :: "ScanWorkerConfig \<Rightarrow> bool list \<Rightarrow> receipt_row \<Rightarrow> receipt_row" where
  "fail_all cfg kinds r = foldl (\<lambda>r scanError. fail_row scanError (failure_cap cfg scanError False) r) r kinds"

definition failures_left :: "ScanWorkerConfig \<Rightarrow> receipt_row \<Rightarrow> nat" where
  "failures_left cfg r = nat (cf_maxScanAttempts cfg - 1 - r_scan_attempts r) + nat (cf_maxReclaims cfg - 1 - r_reclaim_count r)"

text \<open>C33: Failing scans end. However scan errors and infrastructure failures alternate, a receipt that has failed more often
  than both budgets together allow has been in \<open>scan_failed\<close>, so the worker never retries a receipt forever.\<close>

theorem failures_run_out:
  assumes "length kinds > failures_left cfg r"
  shows "\<exists>n \<le> length kinds. r_scan_state (fail_all cfg (take n kinds) r) = kScanFailed"
  using assms
proof (induction kinds arbitrary: r)
  case (Cons scanError kinds)
  let ?r = "fail_row scanError (failure_cap cfg scanError False) r"
  show ?case
  proof (cases "r_scan_state ?r = kScanFailed")
    case True
    then show ?thesis by (intro exI [of _ 1]) (simp add: fail_all_def)
  next
    case False
    then have "Suc (failures_left cfg ?r) = failures_left cfg r"
      by (auto simp: fail_row_def failures_left_def failure_cap_def split: if_splits)
    then obtain n where "n \<le> length kinds" "r_scan_state (fail_all cfg (take n kinds) ?r) = kScanFailed"
      using Cons.IH [of ?r] Cons.prems by auto
    then show ?thesis by (intro exI [of _ "Suc n"]) (simp add: fail_all_def)
  qed
qed simp

theorem failures_run_out_witness:
  "\<exists>n \<le> length (replicate 12 False). r_scan_state (fail_all default_config (take n (replicate 12 False)) (queued_receipt 1 30)) = kScanFailed"
proof -
  have "failures_left default_config (queued_receipt 1 30) < length (replicate 12 False)" by code_simp
  then show ?thesis by (rule failures_run_out)
qed




text \<open>The day distance of the verify comparison is exact on calendar dates: \<open>daysBetween\<close> of two
  YYYY-MM-DD texts is the difference of their day numbers, so a day and its successor are one
  apart across month, year and leap-day boundaries.\<close>

theorem daysBetween_exact:
  assumes "y < 10000" "m < 100" "d < 100" "y' < 10000" "m' < 100" "d' < 100"
  shows "daysBetween (fmt_date y m d) (fmt_date y' m' d') =
     Inr (sys_days (int y', int m', int d') - sys_days (int y, int m, int d))"
  using assms by (simp add: daysBetween_def parse_ymd_fmt)

theorem daysBetween_exact_witness: "daysBetween ''2024-02-28'' ''2024-03-01'' = Inr 2"
proof -
  have "fmt_date 2024 2 28 = ''2024-02-28''" "fmt_date 2024 3 1 = ''2024-03-01''" by code_simp+
  moreover have "sys_days (int 2024, int 3, int 1) - sys_days (int 2024, int 2, int 28) = 2" by code_simp
  ultimately show ?thesis using daysBetween_exact [of 2024 2 28 2024 3 1] by simp
qed



end
