(* ===== verification/ScanWrites.thy ===== *)
theory ScanWrites
  imports ScanLane
begin

text \<open>
  What writing a scan result does to the database, statement by statement: the verify mode that fills gaps of a
  reviewed receipt and the extraction mode that replaces an unreviewed one.
\<close>

section \<open>Scanned items\<close>

definition untagged :: "db \<Rightarrow> db" where
  "untagged d = d\<lparr>d_item_tags := []\<rparr>"

lemma replaceTags_frame:
  "replaceTags h u i ts w = (Inr (), w') \<Longrightarrow> untagged (w_db w') = untagged (w_db w)"
proof -
  have "triple (\<lambda>d. untagged d = X) (replaceTags h u i ts) (\<lambda>_ d. untagged d = X)" for X
    unfolding replaceTags_def clear_tags_def add_tag_def
    by (intro triple_bindM [where Q = "\<lambda>_ d. untagged d = X"] triple_exec triple_forM triple_query triple_if triple_raise)
       (auto simp: untagged_def)
  then show "replaceTags h u i ts w = (Inr (), w') \<Longrightarrow> untagged (w_db w') = untagged (w_db w)"
    unfolding triple_def by blast
qed

lemma requireCategoryFitsKind_Inr: "requireCategoryFitsKind u c kind w = (Inr (), w') \<Longrightarrow> w_db w' = w_db w"
proof -
  have "triple (\<lambda>d. d = X) (requireCategoryFitsKind u c kind) (\<lambda>_ d. d = X)" for X
    unfolding requireCategoryFitsKind_def
    by (intro triple_bindM [where Q = "\<lambda>_ d. d = X"] triple_query triple_option triple_if triple_raise triple_lift triple_ret)
       auto
  then show "requireCategoryFitsKind u c kind w = (Inr (), w') \<Longrightarrow> w_db w' = w_db w" unfolding triple_def by blast
qed

text \<open>A line of the scan as an item of the receipt.\<close>

definition item_of :: "host \<Rightarrow> int \<Rightarrow> ScannedItem \<Rightarrow> item_row \<Rightarrow> bool" where
  "item_of h receiptId scanned i \<longleftrightarrow> i_receipt_id i = receiptId \<and> i_name i = si_name scanned \<and>
     i_quantity i = map_option (h_numeric h) (si_quantity scanned) \<and> i_unit_price_cents i = si_unitPriceCents scanned \<and>
     i_amount_cents i = si_amountCents scanned \<and> i_informational i = si_informational scanned"

lemma insertScannedItem_Inr:
  assumes "insertScannedItem h claim kind taxonomy scanned w = (Inr (), w')"
  shows "\<exists>i. item_of h (cl_receiptId claim) scanned i \<and>
     untagged (w_db w') = (untagged (w_db w))\<lparr>d_items := d_items (w_db w) @ [i]\<rparr>"
proof -
  obtain input w1 w2 n w3 where input: "toItemInput scanned kind taxonomy = Inr input" and db1: "w_db w1 = w_db w"
    and ins: "insert_item h (cl_receiptId claim) input w1 = (Inr n, w2)"
    and tags: "replaceTags h (cl_userId claim) n (ii_tagIds input) w2 = (Inr (), w3)" "w' = w3"
    using assms requireCategoryFitsKind_Inr
    by (fastforce simp: insertScannedItem_def item_insert_def runs split: option.splits)
  have "untagged (w_db w') = (untagged (w_db w))\<lparr>d_items := d_items (w_db w) @ [new_item h n (cl_receiptId claim) input]\<rparr>"
    using replaceTags_frame [OF tags(1)] tags(2) ins db1 by (auto simp: insert_item_def runs untagged_def)
  moreover have "item_of h (cl_receiptId claim) scanned (new_item h n (cl_receiptId claim) input)"
    using input by (auto simp: toItemInput_def rbind_eq_Inr item_of_def new_item_def)
  ultimately show ?thesis by blast
qed

lemma insertScannedItems_Inr:
  assumes "insertScannedItems h claim kind items taxonomy w = (Inr (), w')"
  shows "\<exists>new. list_all2 (item_of h (cl_receiptId claim)) items new \<and>
     untagged (w_db w') = (untagged (w_db w))\<lparr>d_items := d_items (w_db w) @ new\<rparr>"
  using assms unfolding insertScannedItems_def
proof (induction items arbitrary: w)
  case Nil
  then show ?case by (simp add: runs untagged_def)
next
  case (Cons x xs)
  then obtain w1 where 1: "insertScannedItem h claim kind taxonomy x w = (Inr (), w1)"
    and 2: "forM xs (insertScannedItem h claim kind taxonomy) w1 = (Inr (), w')" by (auto simp: runs)
  from insertScannedItem_Inr [OF 1] obtain i where i: "item_of h (cl_receiptId claim) x i"
    "untagged (w_db w1) = (untagged (w_db w))\<lparr>d_items := d_items (w_db w) @ [i]\<rparr>" by blast
  from Cons.IH [OF 2] obtain new where new: "list_all2 (item_of h (cl_receiptId claim)) xs new"
    "untagged (w_db w') = (untagged (w_db w1))\<lparr>d_items := d_items (w_db w1) @ new\<rparr>" by blast
  have "d_items (w_db w1) = d_items (w_db w) @ [i]" using arg_cong [OF i(2), of d_items] by (simp add: untagged_def)
  then show ?case using i new by (intro exI [of _ "i # new"]) simp
qed

section \<open>A written result\<close>

lemma write_result_Written:
  assumes "write_result h claim result taxonomy before allMatch w = (Inr Written, w')"
  obtains s w1 where "snapshot_of claim (w_db w) = Some s" "unchanged s before" "w_db w1 = w_db w" "w_now w1 = w_now w"
    "(if sn_reviewed s then writeVerify h claim result taxonomy s allMatch
      else writeExtraction h claim result taxonomy s) w1 = (Inr (), w')"
proof -
  have "w_faults w (w_step w) = None"
    using assms by (auto simp: write_result_def transaction_def attempt_def split: option.splits)
  then obtain s where "snapshot_of claim (w_db w) = Some s" "unchanged s before"
    "(if sn_reviewed s then writeVerify h claim result taxonomy s allMatch
      else writeExtraction h claim result taxonomy s) (tick_step (tick_step w)) = (Inr (), w')"
    using assms
    by (auto simp: write_result_def transaction_def attempt_def readSnapshot_def query_def bindM_def ret_def tick_step_def
        split: option.splits sum.splits prod.splits if_splits outcome.splits)
  then show ?thesis using that [of s "tick_step (tick_step w)"] by (simp add: tick_step_def)
qed

lemma update_verified_Inr:
  assumes "update_verified h claim result allMatch w = (Inr (), w')"
  shows "\<exists>raw pdate. w_db w' = (w_db w)\<lparr>d_receipts := update_where (\<lambda>r. r_id r = cl_receiptId claim)
     (verify_row result pdate raw allMatch (w_now w)) (d_receipts (w_db w))\<rparr> \<and> sql_date h (sr_purchaseDate result) = Inr pdate"
  using assms by (auto simp: update_verified_def runs rbind_eq_Inr)

lemma update_extracted_Inr:
  assumes "update_extracted h claim result dir tax offs w = (Inr (), w')"
  shows "\<exists>raw pdate. w_db w' = (w_db w)\<lparr>d_receipts := update_where (\<lambda>r. r_id r = cl_receiptId claim)
     (extract_row result dir tax offs pdate raw (w_now w)) (d_receipts (w_db w))\<rparr> \<and> sql_date h (sr_purchaseDate result) = Inr pdate"
  using assms by (auto simp: update_extracted_def runs rbind_eq_Inr)

definition keeps_user_columns :: "receipt_row \<Rightarrow> receipt_row \<Rightarrow> bool" where
  "keeps_user_columns r v \<longleftrightarrow>
     (r_kind v, r_direction v, r_total_cents v, r_currency v, r_fx_rate_to_aud v, r_aud_equivalent_cents v) =
     (r_kind r, r_direction r, r_total_cents r, r_currency r, r_fx_rate_to_aud r, r_aud_equivalent_cents r) \<and>
     (r_payment_method_id v, r_tax_deductible v, r_note v, r_offsets_receipt_id v, r_source v) =
     (r_payment_method_id r, r_tax_deductible r, r_note r, r_offsets_receipt_id r, r_source r) \<and>
     (r_merchant r \<noteq> None \<longrightarrow> r_merchant v = r_merchant r) \<and>
     (r_store_name_raw r \<noteq> None \<longrightarrow> r_store_name_raw v = r_store_name_raw r) \<and>
     (r_purchase_date r \<noteq> None \<longrightarrow> r_purchase_date v = r_purchase_date r)"

lemma verify_row_keeps:
  "keeps_user_columns r (verify_row result pdate raw allMatch now r)"
  "is_confirmed (verify_row result pdate raw allMatch now r) \<longleftrightarrow> allMatch \<or> (\<exists>t. r_reviewed_at r = Some t \<and> now \<le> t)"
  "needs_review (verify_row result pdate raw allMatch now r) \<longleftrightarrow> \<not> is_confirmed (verify_row result pdate raw allMatch now r)"
  by (auto simp: keeps_user_columns_def verify_row_def coalesce_def is_confirmed_def needs_review_def split: option.splits)

section \<open>Properties\<close>

text \<open>C13: Verification never overwrites. When the result of a scan is written to a receipt its owner has reviewed, the
  row of every other receipt is unchanged; in its own row the kind, direction, money, payment, tax, note, offset and
  source columns are unchanged, and a merchant, store name or date it already has is kept. Existing items stay as they
  are, and lines of the scan become items only of a receipt that had none. The row is confirmed when everything
  matched, and needs review when not and its review is older than the scan.\<close>

theorem verify_never_overwrites:
  assumes run: "write_result h claim result taxonomy before allMatch w = (Inr Written, w')"
    and snap: "snapshot_of claim (w_db w) = Some s" and rev: "sn_reviewed s"
  shows "\<exists>pdate raw new. d_receipts (w_db w') = map (\<lambda>r. if r_id r = cl_receiptId claim
        then verify_row result pdate raw allMatch (w_now w) r else r) (d_receipts (w_db w)) \<and>
     d_items (w_db w') = d_items (w_db w) @ new \<and>
     (if sn_itemCount s = 0 then list_all2 (item_of h (cl_receiptId claim)) (sr_items result) new else new = []) \<and>
     (\<forall>r. let v = verify_row result pdate raw allMatch (w_now w) r in keeps_user_columns r v \<and>
        (is_confirmed v \<longleftrightarrow> allMatch \<or> (\<exists>t. r_reviewed_at r = Some t \<and> w_now w \<le> t)) \<and> (needs_review v \<longleftrightarrow> \<not> is_confirmed v))"
proof -
  obtain s' w1 where s': "snapshot_of claim (w_db w) = Some s'" and w1: "w_db w1 = w_db w" "w_now w1 = w_now w"
    and body: "(if sn_reviewed s' then writeVerify h claim result taxonomy s' allMatch
      else writeExtraction h claim result taxonomy s') w1 = (Inr (), w')"
    by (rule write_result_Written [OF run])
  then have ver: "writeVerify h claim result taxonomy s allMatch w1 = (Inr (), w')" using snap rev by simp
  then obtain w2 where upd: "update_verified h claim result allMatch w1 = (Inr (), w2)"
    and rest: "(if sn_itemCount s = 0 then insertScannedItems h claim (sn_kind s) (sr_items result) taxonomy else ret ()) w2 = (Inr (), w')"
    by (auto simp: writeVerify_def runs)
  from update_verified_Inr [OF upd] w1 obtain raw pdate where db: "w_db w2 = (w_db w)\<lparr>d_receipts :=
      update_where (\<lambda>r. r_id r = cl_receiptId claim) (verify_row result pdate raw allMatch (w_now w)) (d_receipts (w_db w))\<rparr>"
    by auto
  obtain new where new: "untagged (w_db w') = (untagged (w_db w2))\<lparr>d_items := d_items (w_db w2) @ new\<rparr>"
    "if sn_itemCount s = 0 then list_all2 (item_of h (cl_receiptId claim)) (sr_items result) new else new = []"
  proof (cases "sn_itemCount s = 0")
    case True
    then show ?thesis using that insertScannedItems_Inr [of h claim "sn_kind s" "sr_items result" taxonomy w2 w'] rest by auto
  next
    case False
    then have "w' = w2" using rest by (simp add: runs)
    then show ?thesis using that [of "[]"] False by (simp add: untagged_def)
  qed
  have "d_receipts (w_db w') = d_receipts (w_db w2)" "d_items (w_db w') = d_items (w_db w2) @ new"
    using arg_cong [OF new(1), of d_receipts] arg_cong [OF new(1), of d_items] by (simp_all add: untagged_def)
  then show ?thesis
    using db new(2) verify_row_keeps
    by (intro exI [of _ pdate] exI [of _ raw] exI [of _ new] conjI) (simp_all add: update_where_def Let_def)
qed

text \<open>A reviewed receipt that a worker has claimed, and a scan with one line.\<close>

definition claimed_reviewed :: receipt_row where
  "claimed_reviewed = (claim_row (\<lambda>_. 99) (queued_receipt 1 30))\<lparr>r_reviewed_at := Some 50, r_total_cents := 700, r_merchant := Some ''Shell''\<rparr>"

definition claim1 :: Claim where
  "claim1 = \<lparr>cl_receiptId = 1, cl_userId = 1, cl_claimedAt = 99\<rparr>"

definition shop_scan :: ScanResult where
  "shop_scan = ScanResult_init\<lparr>sr_kind := ''purchase'', sr_totalCents := 800, sr_merchant := Some ''BP'',
     sr_items := [ScannedItem_init\<lparr>si_amountCents := 800\<rparr>]\<rparr>"

definition scan_world :: "receipt_row \<Rightarrow> world" where
  "scan_world r = sample_world\<lparr>w_db := queue_db\<lparr>d_receipts := [r]\<rparr>\<rparr>"

definition no_taxonomy :: Taxonomy where
  "no_taxonomy = \<lparr>tx_categories = [], tx_tags = []\<rparr>"

theorem verify_never_overwrites_witness:
  "\<exists>w'. write_result sample_host claim1 shop_scan no_taxonomy (rowToSnapshot queue_db claimed_reviewed) False
        (scan_world claimed_reviewed) = (Inr Written, w') \<and>
     (\<exists>r' \<in> set (d_receipts (w_db w')). r_total_cents r' = 700 \<and> r_merchant r' = Some ''Shell'')"
proof -
  let ?run = "write_result sample_host claim1 shop_scan no_taxonomy (rowToSnapshot queue_db claimed_reviewed) False
        (scan_world claimed_reviewed)"
  have "fst ?run = Inr Written" by code_simp
  then have run: "?run = (Inr Written, snd ?run)" by (metis prod.collapse)
  have "case snapshot_of claim1 (w_db (scan_world claimed_reviewed)) of None \<Rightarrow> False | Some s \<Rightarrow> sn_reviewed s" by code_simp
  then obtain s where s: "snapshot_of claim1 (w_db (scan_world claimed_reviewed)) = Some s" "sn_reviewed s"
    by (auto split: option.splits)
  have rows: "d_receipts (w_db (scan_world claimed_reviewed)) = [claimed_reviewed]" "r_id claimed_reviewed = 1"
    "cl_receiptId claim1 = 1" by (simp_all add: scan_world_def claimed_reviewed_def claim_row_def queued_receipt_def
      new_receipt_def claim1_def)
  have user: "r_total_cents claimed_reviewed = 700" "r_merchant claimed_reviewed = Some ''Shell''"
    by (simp_all add: claimed_reviewed_def)
  from verify_never_overwrites [OF run s] obtain v where
    "d_receipts (w_db (snd ?run)) = [v]" "keeps_user_columns claimed_reviewed v"
    unfolding Let_def by (auto simp: rows)
  then show ?thesis using run user by (intro exI [of _ "snd ?run"]) (auto simp: keeps_user_columns_def)
qed

text \<open>C31: An extraction replaces an unreviewed receipt. When the validated result of a scan is written to a receipt nobody has
  reviewed, its row takes the scan's fields and the direction, tax flag and offset its kind allows, so that it satisfies
  every CHECK constraint; its items are exactly the lines of the scan, in order; other receipts and their
  items are unchanged.\<close>

theorem extraction_replaces_unreviewed:
  assumes run: "write_result h claim result taxonomy before allMatch w = (Inr Written, w')"
    and snap: "snapshot_of claim (w_db w) = Some s" and rev: "\<not> sn_reviewed s"
    and valid: "validateResult reply False = Inr result"
  shows "\<exists>rules pdate raw new. rulesFor (sr_kind result) = Inr rules \<and>
     (let e = extract_row result (canonical_or_empty rules) (sn_taxDeductible s \<and> kr_allowsTaxDeductible rules)
           (if kr_canOffset rules then sn_offsetsReceiptId s else None) pdate raw (w_now w) in
      d_receipts (w_db w') = map (\<lambda>r. if r_id r = cl_receiptId claim then e r else r) (d_receipts (w_db w)) \<and>
      (\<forall>r. receipt_checks r \<longrightarrow> receipt_checks (e r))) \<and>
     d_items (w_db w') = filter (\<lambda>i. i_receipt_id i \<noteq> cl_receiptId claim) (d_items (w_db w)) @ new \<and>
     list_all2 (item_of h (cl_receiptId claim)) (sr_items result) new"
proof -
  obtain s' w1 where s': "snapshot_of claim (w_db w) = Some s'" and w1: "w_db w1 = w_db w" "w_now w1 = w_now w"
    and body: "(if sn_reviewed s' then writeVerify h claim result taxonomy s' allMatch
      else writeExtraction h claim result taxonomy s') w1 = (Inr (), w')"
    by (rule write_result_Written [OF run])
  then have "writeExtraction h claim result taxonomy s w1 = (Inr (), w')" using snap rev by simp
  then obtain rules w2 w3 where rules: "rulesFor (sr_kind result) = Inr rules"
    and upd: "update_extracted h claim result (canonical_or_empty rules) (sn_taxDeductible s \<and> kr_allowsTaxDeductible rules)
        (if kr_canOffset rules then sn_offsetsReceiptId s else None) w1 = (Inr (), w2)"
    and del: "delete_items h (cl_receiptId claim) w2 = (Inr (), w3)"
    and ins: "insertScannedItems h claim (sr_kind result) (sr_items result) taxonomy w3 = (Inr (), w')"
    by (auto simp: writeExtraction_def runs)
  from update_extracted_Inr [OF upd] w1 obtain raw pdate where db2: "w_db w2 = (w_db w)\<lparr>d_receipts :=
      update_where (\<lambda>r. r_id r = cl_receiptId claim) (extract_row result (canonical_or_empty rules)
        (sn_taxDeductible s \<and> kr_allowsTaxDeductible rules) (if kr_canOffset rules then sn_offsetsReceiptId s else None)
        pdate raw (w_now w)) (d_receipts (w_db w))\<rparr>" by auto
  from insertScannedItems_Inr [OF ins] obtain new where new: "list_all2 (item_of h (cl_receiptId claim)) (sr_items result) new"
    "untagged (w_db w') = (untagged (w_db w3))\<lparr>d_items := d_items (w_db w3) @ new\<rparr>" by blast
  have db3: "d_receipts (w_db w3) = d_receipts (w_db w2)"
    "d_items (w_db w3) = filter (\<lambda>i. i_receipt_id i \<noteq> cl_receiptId claim) (d_items (w_db w2))"
    using del by (auto simp: delete_items_def runs drop_items_def)
  have db': "d_receipts (w_db w') = d_receipts (w_db w3)" "d_items (w_db w') = d_items (w_db w3) @ new"
    using arg_cong [OF new(2), of d_receipts] arg_cong [OF new(2), of d_items] by (simp_all add: untagged_def)
  have checks: "receipt_checks r \<Longrightarrow> receipt_checks (extract_row result (canonical_or_empty rules)
      (sn_taxDeductible s \<and> kr_allowsTaxDeductible rules) (if kr_canOffset rules then sn_offsetsReceiptId s else None)
      pdate raw (w_now w) r)" for r by (rule extract_row_checks [OF _ valid rules])
  show ?thesis
    unfolding Let_def
    by (intro exI [of _ rules] exI [of _ pdate] exI [of _ raw] exI [of _ new] conjI)
       (simp_all add: rules db' db3 db2 update_where_def new(1) checks)
qed

theorem extraction_replaces_unreviewed_witness:
  "\<exists>w'. write_result sample_host claim1 shop_scan no_taxonomy
        (rowToSnapshot queue_db (claimed_reviewed\<lparr>r_reviewed_at := None\<rparr>)) False
        (scan_world (claimed_reviewed\<lparr>r_reviewed_at := None\<rparr>)) = (Inr Written, w') \<and> length (d_items (w_db w')) = 1"
proof -
  let ?r = "claimed_reviewed\<lparr>r_reviewed_at := None\<rparr>"
  let ?run = "write_result sample_host claim1 shop_scan no_taxonomy (rowToSnapshot queue_db ?r) False (scan_world ?r)"
  have "fst ?run = Inr Written" by code_simp
  then have run: "?run = (Inr Written, snd ?run)" by (metis prod.collapse)
  have "case snapshot_of claim1 (w_db (scan_world ?r)) of None \<Rightarrow> False | Some s \<Rightarrow> \<not> sn_reviewed s" by code_simp
  then obtain s where s: "snapshot_of claim1 (w_db (scan_world ?r)) = Some s" "\<not> sn_reviewed s" by (auto split: option.splits)
  have valid: "validateResult shop_scan False = Inr shop_scan" by code_simp
  have none: "d_items (w_db (scan_world ?r)) = []" "length (sr_items shop_scan) = 1"
    by (simp_all add: scan_world_def queue_db_def empty_db_def shop_scan_def)
  from extraction_replaces_unreviewed [OF run s valid] obtain new where
    "d_items (w_db (snd ?run)) = filter (\<lambda>i. i_receipt_id i \<noteq> cl_receiptId claim1) (d_items (w_db (scan_world ?r))) @ new"
    "list_all2 (item_of sample_host (cl_receiptId claim1)) (sr_items shop_scan) new" by blast
  then have "length (d_items (w_db (snd ?run))) = 1" using none by (auto dest: list_all2_lengthD)
  then show ?thesis using run by (intro exI [of _ "snd ?run"] conjI)
qed

text \<open>What an extraction leaves behind: a foreign receipt that carries an exchange rate and is scanned again as AUD keeps the
  rate, and the editing rules reject the row as it stands.\<close>

lemma rescan_as_aud_keeps_rate:
  assumes "sr_currency result = ''AUD''" and "r_fx_rate_to_aud r = Some rate"
  shows "r_fx_rate_to_aud (extract_row result dir tax offs pdate raw now r) = Some rate \<and>
     r_aud_equivalent_cents (extract_row result dir tax offs pdate raw now r) = r_aud_equivalent_cents r \<and>
     (\<nexists>u. validateReceipt (rowToEditable (extract_row result dir tax offs pdate raw now r)) = Inr u)"
  using assms by (simp add: validateReceipt_iff kind_rules_hold_def extract_row_def rowToEditable_def split: option.split)

end
