(* ===== verification/ScanOnce.thy ===== *)
theory ScanOnce
  imports Server ScanWrites
begin

text \<open>
  One claim, one result. Once a row has left a claim, nothing but a new claim with the same token brings it back, whatever requests,
  reclaims and other scans do: \<open>ended c\<close> relates the worlds before and after. So a scan whose result was written, or
  whose failure was recorded, changes nothing any more.
\<close>

definition dead :: "Claim \<Rightarrow> db \<Rightarrow> bool" where
  "dead c d \<longleftrightarrow> (\<forall>r \<in> set (d_receipts d). \<not> claimed_row c r)"

lemma dead_snapshot: "dead c d \<longleftrightarrow> snapshot_of c d = None"
  by (auto simp: dead_def snapshot_of_def find_row_def find_None_iff)

definition ended :: "Claim \<Rightarrow> world \<Rightarrow> world \<Rightarrow> bool" where
  "ended c w w' \<longleftrightarrow> (cl_receiptId c < w_seq w Receipts \<and> dead c (w_db w) \<longrightarrow>
     cl_receiptId c < w_seq w' Receipts \<and> dead c (w_db w'))"

lemma rows_from_dead: "rows_from d d' \<Longrightarrow> dead c d \<Longrightarrow> dead c d'"
  unfolding rows_from_def dead_def claimed_row_def no_new_scan_def by metis

interpretation ended: row_relation "ended c" for c
proof unfold_locales
  show "ended c w w' \<Longrightarrow> ended c w (rolled_back w w')" for w w'
    by (simp add: ended_def rolled_back_def)
  show "rows_from (w_db w) d' \<Longrightarrow> ended c w (w\<lparr>w_db := d'\<rparr>)" for w d'
    by (simp add: ended_def rows_from_dead)
  show "ended c a b \<Longrightarrow> ended c b d \<Longrightarrow> ended c a d" for a b d by (simp add: ended_def)
  show "ended c w (next_id t w)" for t w by (simp add: ended_def next_id_def)
  show "r_id row = w_seq w Receipts \<Longrightarrow>
      ended c w ((next_id Receipts w)\<lparr>w_db := (w_db w)\<lparr>d_receipts := d_receipts (w_db w) @ [row]\<rparr>\<rparr>)" for row w
    by (auto simp: ended_def next_id_def dead_def claimed_row_def)
qed (simp_all add: ended_def tick_step_def)

lemma same_but_store_ended: "same_but_store w w' \<Longrightarrow> ended c w w'"
  unfolding same_but_store_def ended_def
  by (metis (no_types, lifting) world.select_convs(1,2) world.surjective world.update_convs(3,8))

lemma insert_image_ended: "honours (ended c) (insert_image h u n key sha)"
  unfolding insert_image_def insert_row_def
  by (rule ended.honours_attempt)
     (auto simp: honours_def commit_write_def ended_def next_id_def dead_def split: option.splits)

context image_store_contract
begin

lemma store_ended:
  "honours (ended c) (is_put st k ct b)" "honours (ended c) (is_get st k)" "honours (ended c) (is_remove st k)"
  unfolding honours_def
  by (metis prod.collapse put_frame get_frame remove_frame same_but_store_ended)+

sublocale ended_routes: route_relation "ended c" h st for c h
proof unfold_locales
  show "honours (ended c) (storeImage h st u n img)" for u n img
    unfolding storeImage_def by (intro ended.row_rules ended.generateImageKey_row store_ended insert_image_ended)
qed (rule store_ended)

lemma deleteReceipt_ended: "honours (ended c) (deleteReceipt h st u n)"
  unfolding deleteReceipt_def delete_receipt_row_def
  by (intro ended.row_rules store_ended ended.honours_exec_row) (auto intro: drop_receipts_rows)

lemma dispatch_ended: "honours (ended c) (dispatch h st u req r)"
proof (cases "\<exists>n. r = RemoveReceipt n")
  case True
  then show ?thesis by (auto simp: receipt_remove_def guarded_def intro!: ended.row_rules deleteReceipt_ended)
qed (rule ended_routes.dispatch_R, simp)

end

lemma event_ended: "honours (ended c) (event_action h cfg ev)"
proof (cases ev)
  case (Serve req r)
  show ?thesis
    unfolding Serve event_action.simps serve_def doFilter_def
    by (intro ended.row_rules s3.dispatch_ended ended.auth_R(2))
next
  case (Public now lims req r)
  show ?thesis unfolding Public event_action.simps by (rule ended.public_R)
qed

section \<open>Steps\<close>

lemma claim_ended:
  assumes "clock (cl_receiptId c) \<noteq> cl_claimedAt c"
  shows "honours (ended c) (claim_receipts h cfg clock)"
proof -
  have "dead c (d\<lparr>d_receipts := update_where hit (claim_row clock) (d_receipts d)\<rparr>)" if "dead c d" for d hit
    using that assms by (auto simp: dead_def update_where_def claim_row_def claimed_row_def)
  then show ?thesis
    unfolding claim_receipts_def exec_def
    by (intro ended.honours_attempt) (auto simp: honours_def commit_write_def Let_def ended_def split: option.splits)
qed

lemma step_ended:
  assumes "step h cfg K w w'" and "\<forall>clock \<in> K. clock (cl_receiptId c) \<noteq> cl_claimedAt c"
  shows "ended c w w'"
  using assms
proof (induction rule: step.induct)
  case (step_event w ev)
  show ?case using event_ended by (simp add: honours_def)
next
  case (step_reclaim w wcfg)
  show ?case using ended.reclaim_rows_row by (simp add: honours_def)
next
  case (step_claim clock w wcfg)
  then show ?case using claim_ended by (simp add: honours_def)
next
  case (step_write c' w res tx before m)
  show ?case using ended.write_result_row by (simp add: honours_def)
next
  case (step_fail w c' e cap)
  show ?case using ended.spend_failure_row by (simp add: honours_def)
next
  case (step_env w' w)
  then show ?case by (simp add: ended_def)
qed

lemma run_ended:
  assumes "run h cfg K w w'" and "\<forall>clock \<in> K. clock (cl_receiptId c) \<noteq> cl_claimedAt c"
  shows "ended c w w'"
  using assms by (induction rule: run.induct) (auto intro: ended.R_refl ended.R_trans step_ended)

section \<open>Writing ends a claim\<close>

lemma ends_bind:
  assumes "triple (\<lambda>_. True) m (\<lambda>_. dead c)" and "honours row_step m" and "\<And>x. honours (ended c) (f x)"
    and "bindM m f w = (Inr y, w')" and "cl_receiptId c < w_seq w Receipts"
  shows "dead c (w_db w') \<and> cl_receiptId c < w_seq w' Receipts"
proof -
  obtain x w1 where run: "m w = (Inr x, w1)" "f x w1 = (Inr y, w')" using assms(4) by (auto simp: runs)
  have "dead c (w_db w1)" using assms(1) run(1) unfolding triple_def by blast
  moreover have "w_seq w Receipts \<le> w_seq w1 Receipts"
    using assms(2) run(1) unfolding honours_def row_step_def by (metis snd_conv)
  moreover have "ended c w1 w'" using assms(3) [of x] run(2) unfolding honours_def by (metis snd_conv)
  ultimately show ?thesis using assms(5) by (simp add: ended_def)
qed

lemma writes_end:
  assumes "(if sn_reviewed s then writeVerify h c res tx s m else writeExtraction h c res tx s) w = (Inr y, w')"
    and "cl_receiptId c < w_seq w Receipts"
  shows "dead c (w_db w') \<and> cl_receiptId c < w_seq w' Receipts"
proof (cases "sn_reviewed s")
  case True
  have upd: "triple (\<lambda>_. True) (update_verified h c res m) (\<lambda>_. dead c)"
    unfolding update_verified_def
    by (rule triple_exec) (auto simp: rbind_eq_Inr dead_def update_where_def claimed_row_def verify_row_def lane_states)
  have row: "honours row_step (update_verified h c res m)"
    unfolding update_verified_def
    by (rule row.honours_exec_row)
       (auto simp: rbind_def verify_row_def no_new_scan_def lane_states split: sum.splits intro!: rows_from_update)
  have rest: "honours (ended c) (if sn_itemCount s = 0 then insertScannedItems h c (sn_kind s) (sr_items res) tx else ret ())"
    by (intro ended.row_rules ended.insertScannedItems_row)
  have "bindM (update_verified h c res m) (\<lambda>_. if sn_itemCount s = 0
       then insertScannedItems h c (sn_kind s) (sr_items res) tx else ret ()) w = (Inr y, w')"
    using assms(1) True by (simp add: writeVerify_def)
  then show ?thesis by (rule ends_bind [OF upd row rest _ assms(2)])
next
  case False
  obtain rules where rules: "rulesFor (sr_kind res) = Inr rules"
    using assms(1) False by (auto simp: writeExtraction_def runs)
  let ?upd = "update_extracted h c res (canonical_or_empty rules) (sn_taxDeductible s \<and> kr_allowsTaxDeductible rules)
     (if kr_canOffset rules then sn_offsetsReceiptId s else None)"
  have upd: "triple (\<lambda>_. True) ?upd (\<lambda>_. dead c)"
    unfolding update_extracted_def
    by (rule triple_exec) (auto simp: rbind_eq_Inr dead_def update_where_def claimed_row_def extract_row_def lane_states)
  have row: "honours row_step ?upd"
    unfolding update_extracted_def
    by (rule row.honours_exec_row)
       (auto simp: rbind_def extract_row_def no_new_scan_def lane_states split: sum.splits intro!: rows_from_update)
  have rest: "honours (ended c) (bindM (delete_items h (cl_receiptId c)) (\<lambda>_. insertScannedItems h c (sr_kind res) (sr_items res) tx))"
    unfolding delete_items_def
    by (intro ended.row_rules ended.insertScannedItems_row ended.honours_exec_row) (auto intro: drop_items_rows)
  have "bindM ?upd (\<lambda>_. bindM (delete_items h (cl_receiptId c)) (\<lambda>_. insertScannedItems h c (sr_kind res) (sr_items res) tx)) w =
      (Inr y, w')"
    using assms(1) False rules by (simp add: writeExtraction_def bindM_def lift_def)
  then show ?thesis by (rule ends_bind [OF upd row rest _ assms(2)])
qed

lemma written_ends:
  assumes "write_result h c res tx b m w = (Inr Written, w')" and "cl_receiptId c < w_seq w Receipts"
  shows "dead c (w_db w') \<and> cl_receiptId c < w_seq w' Receipts"
proof -
  let ?w = "w\<lparr>w_step := Suc (Suc (w_step w))\<rparr>"
  have "\<exists>s. (if sn_reviewed s then writeVerify h c res tx s m else writeExtraction h c res tx s) ?w = (Inr (), w')"
    using assms(1)
    by (auto simp: write_result_def transaction_def attempt_def readSnapshot_def query_def bindM_def ret_def tick_step_def
        split: option.splits prod.splits sum.splits if_splits intro: exI)
  then show ?thesis using writes_end [of _ h c res tx m ?w] assms(2) by auto
qed

text \<open>C12: A claim's result is written at most once. When a worker has written a result under a claim, then whatever follows, in any
  order (requests that queue the receipt again, other ticks that claim it, other scans that write it), as long as no later
  claim is given the same token: a second result or a failure under that claim changes nothing in the database.\<close>

theorem results_written_once:
  assumes "write_result h c res tx before m w = (Inr Written, w1)" and "claim_held c w"
    and "run h cfg K w1 w2" and "\<forall>clock \<in> K. clock (cl_receiptId c) \<noteq> cl_claimedAt c"
  shows "w_db (snd (write_result h c res' tx' before' m' w2)) = w_db w2 \<and> w_db (snd (spend_failure h c e cap w2)) = w_db w2"
proof -
  have "dead c (w_db w2)"
    using written_ends [OF assms(1)] run_ended [OF assms(3,4)] assms(2) by (simp add: ended_def claim_held_def)
  then show ?thesis using write_result_stale spend_failure_stale by (simp add: dead_snapshot)
qed

text \<open>A result is written, another tick claims what is queued, and the scan that wrote reports a failure after all.\<close>

theorem results_written_once_witness:
  "let w = (scan_world claimed_reviewed)\<lparr>w_seq := (\<lambda>_. 2)\<rparr>;
       w1 = snd (write_result sample_host claim1 shop_scan no_taxonomy (rowToSnapshot queue_db claimed_reviewed) False w);
       w2 = snd (claim_receipts sample_host default_config (\<lambda>_. 9) w1)
   in w_db w1 \<noteq> w_db w \<and> w_db (snd (spend_failure sample_host claim1 True 3 w2)) = w_db w2"
proof -
  let ?w = "(scan_world claimed_reviewed)\<lparr>w_seq := (\<lambda>_. 2)\<rparr>"
  let ?m = "write_result sample_host claim1 shop_scan no_taxonomy (rowToSnapshot queue_db claimed_reviewed) False ?w"
  let ?w2 = "snd (claim_receipts sample_host default_config (\<lambda>_. 9) (snd ?m))"
  have "fst ?m = Inr Written" by code_simp
  then have run: "?m = (Inr Written, snd ?m)" by (metis prod.collapse)
  have held: "claim_held claim1 ?w"
    by (simp add: claim_held_def held_def scan_world_def claimed_reviewed_def claim_row_def queued_receipt_def new_receipt_def claim1_def)
  have step: "run sample_host sample_config {\<lambda>_. 9} (snd ?m) ?w2" by (rule step_run, rule step_claim) simp
  have token: "\<forall>clock \<in> {\<lambda>_::int. 9}. clock (cl_receiptId claim1) \<noteq> cl_claimedAt claim1" by (simp add: claim1_def)
  have "map r_scan_state (d_receipts (w_db (snd ?m))) \<noteq> map r_scan_state (d_receipts (w_db ?w))" by code_simp
  then have "w_db (snd ?m) \<noteq> w_db ?w" by metis
  then show ?thesis using results_written_once [OF run held step token, of _ _ _ _ True 3] by (simp add: Let_def)
qed

end
