(* ===== verification/Reports.thy ===== *)
theory Reports
  imports Server
begin

text \<open>
  The reporting views of \<^verbatim>\<open>db/migrations/20260906000000_initial_schema.sql\<close>: which receipts and items count as spending and as
  income, and with which sign. A view is a list of rows computed from the database; what it promises over every run of the
  server rests on the ledger invariant.
\<close>

section \<open>The views\<close>

text \<open>\<open>v_receipt_state\<close>: a receipt with \<open>needs_review\<close> and \<open>is_confirmed\<close>.\<close>

record receipt_state =
  vs_receipt :: receipt_row
  vs_needs_review :: bool
  vs_is_confirmed :: bool

definition receipt_state_of :: "receipt_row \<Rightarrow> receipt_state" where
  "receipt_state_of r = \<lparr>vs_receipt = r, vs_needs_review = needs_review r, vs_is_confirmed = is_confirmed r\<rparr>"

definition v_receipt_state :: "db \<Rightarrow> receipt_state list" where
  "v_receipt_state d = map receipt_state_of (d_receipts d)"

definition spend_sign :: "string \<Rightarrow> int" where
  "spend_sign kind = (if kind = ''purchase'' then 1 else - 1)"

text \<open>\<open>LEFT JOIN payment_methods pm ON pm.id = payment_method_id\<close>: one row per match, or one without a match.\<close>

definition left_join_method :: "db \<Rightarrow> receipt_row \<Rightarrow> payment_method_row option list" where
  "left_join_method d r =
     (case filter (\<lambda>p. r_payment_method_id r = Some (p_id p)) (d_payment_methods d) of
        [] \<Rightarrow> [None]
      | ps \<Rightarrow> map Some ps)"

definition coalesce_stored_value :: "payment_method_row option \<Rightarrow> bool" where
  "coalesce_stored_value pm = (case pm of None \<Rightarrow> False | Some p \<Rightarrow> p_stored_value p)"

definition v_countable_spend :: "db \<Rightarrow> (receipt_state \<times> int) list" where
  "v_countable_spend d =
     concat (map (\<lambda>vrs.
       let r = vs_receipt vrs in
       map (\<lambda>pm. (vrs, r_total_cents r * spend_sign (r_kind r)))
         (filter (\<lambda>pm. vs_is_confirmed vrs \<and> r_kind r \<in> {''purchase'', ''refund'', ''reimbursement''} \<and>
              \<not> (r_kind r = ''purchase'' \<and> coalesce_stored_value pm))
            (left_join_method d r)))
       (v_receipt_state d))"

definition v_income :: "db \<Rightarrow> receipt_state list" where
  "v_income d = filter (\<lambda>vrs. vs_is_confirmed vrs \<and> r_kind (vs_receipt vrs) = ''income'') (v_receipt_state d)"

record spend_item =
  si_item_id :: int
  si_receipt_id :: int
  si_category_id :: "int option"
  si_amount_cents :: int
  si_signed_amount_cents :: int
  si_user_id :: int
  si_currency :: string
  si_purchase_date :: "string option"
  si_kind :: string

record income_item =
  ni_item_id :: int
  ni_receipt_id :: int
  ni_category_id :: "int option"
  ni_amount_cents :: int
  ni_user_id :: int
  ni_currency :: string
  ni_purchase_date :: "string option"

definition spend_item_of :: "item_row \<Rightarrow> receipt_row \<Rightarrow> spend_item" where
  "spend_item_of i r =
     \<lparr>si_item_id = i_id i, si_receipt_id = i_receipt_id i, si_category_id = i_category_id i,
      si_amount_cents = i_amount_cents i, si_signed_amount_cents = i_amount_cents i * spend_sign (r_kind r),
      si_user_id = r_user_id r, si_currency = r_currency r, si_purchase_date = r_purchase_date r, si_kind = r_kind r\<rparr>"

definition income_item_of :: "item_row \<Rightarrow> receipt_row \<Rightarrow> income_item" where
  "income_item_of i r =
     \<lparr>ni_item_id = i_id i, ni_receipt_id = i_receipt_id i, ni_category_id = i_category_id i,
      ni_amount_cents = i_amount_cents i, ni_user_id = r_user_id r, ni_currency = r_currency r,
      ni_purchase_date = r_purchase_date r\<rparr>"

text \<open>\<open>FROM items i JOIN receipts r ON r.id = i.receipt_id WHERE NOT i.informational\<close>.\<close>

definition join_items :: "db \<Rightarrow> receipt_row list \<Rightarrow> (item_row \<times> receipt_row) list" where
  "join_items d rs =
     concat (map (\<lambda>i. map (\<lambda>r. (i, r)) (filter (\<lambda>r. r_id r = i_receipt_id i \<and> \<not> i_informational i) rs)) (d_items d))"

definition v_countable_spend_items :: "db \<Rightarrow> spend_item list" where
  "v_countable_spend_items d =
     map (\<lambda>(i, r). spend_item_of i r) (join_items d (map (\<lambda>v. vs_receipt (fst v)) (v_countable_spend d)))"

definition v_income_items :: "db \<Rightarrow> income_item list" where
  "v_income_items d = map (\<lambda>(i, r). income_item_of i r) (join_items d (map vs_receipt (v_income d)))"

section \<open>Which rows a view has\<close>

text \<open>A receipt that counts as spending.\<close>

definition countable :: "db \<Rightarrow> receipt_row \<Rightarrow> bool" where
  "countable d r \<longleftrightarrow> is_confirmed r \<and> r_kind r \<in> {''purchase'', ''refund'', ''reimbursement''} \<and>
     \<not> (r_kind r = ''purchase'' \<and>
        (\<exists>p \<in> set (d_payment_methods d). r_payment_method_id r = Some (p_id p) \<and> p_stored_value p))"

lemma filter_at_most_one:
  assumes "distinct (map f xs)"
  shows "filter (\<lambda>x. k = Some (f x)) xs = [] \<or> (\<exists>x \<in> set xs. k = Some (f x) \<and> filter (\<lambda>x. k = Some (f x)) xs = [x])"
  using assms
proof (induction xs)
  case (Cons y ys)
  show ?case
  proof (cases "k = Some (f y)")
    case True
    then have "filter (\<lambda>x. k = Some (f x)) ys = []"
      using Cons.prems by (auto simp: filter_empty_conv image_iff)
    then show ?thesis using True by simp
  qed (use Cons in auto)
qed simp

lemma concat_map_if: "concat (map (\<lambda>x. if P x then [f x] else []) xs) = map f (filter P xs)"
  by (induction xs) auto

lemma state_sel [simp]: "vs_receipt (receipt_state_of r) = r" "vs_is_confirmed (receipt_state_of r) = is_confirmed r"
  by (simp_all add: receipt_state_of_def)

definition spend_row :: "receipt_row \<Rightarrow> receipt_state \<times> int" where
  "spend_row r = (receipt_state_of r, r_total_cents r * spend_sign (r_kind r))"

text \<open>The join with the payment methods repeats no receipt: the view is a filter of the receipts.\<close>

lemma spend_rows_eq:
  assumes "violation h d = None"
  shows "v_countable_spend d = map spend_row (filter (countable d) (d_receipts d))"
proof -
  have ids: "distinct (map p_id (d_payment_methods d))"
    using assms by (simp add: violation_None unique_violation_def)
  let ?rows = "\<lambda>r. filter (\<lambda>pm. is_confirmed r \<and> r_kind r \<in> {''purchase'', ''refund'', ''reimbursement''} \<and>
     \<not> (r_kind r = ''purchase'' \<and> coalesce_stored_value pm)) (left_join_method d r)"
  have one: "map (\<lambda>_. spend_row r) (?rows r) = (if countable d r then [spend_row r] else [])" for r
    using filter_at_most_one [OF ids, of "r_payment_method_id r"] inj_onD [OF unique_ids(4) [OF assms]]
    by (auto simp: left_join_method_def countable_def coalesce_stored_value_def filter_empty_conv) metis
  have "v_countable_spend d = concat (map (\<lambda>r. map (\<lambda>_. spend_row r) (?rows r)) (d_receipts d))"
    by (simp add: v_countable_spend_def v_receipt_state_def comp_def Let_def spend_row_def)
  also have "\<dots> = map spend_row (filter (countable d) (d_receipts d))"
    unfolding one by (rule concat_map_if)
  finally show ?thesis .
qed

lemma income_rows_eq:
  "v_income d = map receipt_state_of (filter (\<lambda>r. is_confirmed r \<and> r_kind r = ''income'') (d_receipts d))"
  by (simp add: v_income_def v_receipt_state_def filter_map comp_def)

lemma spend_receipts:
  "violation h d = None \<Longrightarrow> map (\<lambda>v. vs_receipt (fst v)) (v_countable_spend d) = filter (countable d) (d_receipts d)"
  by (simp add: spend_rows_eq spend_row_def comp_def)

lemma income_receipts: "map vs_receipt (v_income d) = filter (\<lambda>r. is_confirmed r \<and> r_kind r = ''income'') (d_receipts d)"
  by (simp add: income_rows_eq comp_def)

lemma join_items_mem:
  "(i, r) \<in> set (join_items d rs) \<longleftrightarrow> i \<in> set (d_items d) \<and> r \<in> set rs \<and> r_id r = i_receipt_id i \<and> \<not> i_informational i"
  by (auto simp: join_items_def)

text \<open>An item joins at most one receipt.\<close>

lemma join_at_most_one:
  assumes "distinct (map r_id rs)"
  shows "filter (\<lambda>r. r_id r = n) rs = [] \<or> (\<exists>r \<in> set rs. r_id r = n \<and> filter (\<lambda>r. r_id r = n) rs = [r])"
  using filter_at_most_one [OF assms, of "Some n"] by (simp add: eq_commute)

lemma join_items_distinct:
  assumes "distinct (map i_id (d_items d))" and rs: "distinct (map r_id rs)"
  shows "distinct (map (\<lambda>x. i_id (fst x)) (join_items d rs))"
proof -
  let ?row = "\<lambda>i. map (Pair i) (filter (\<lambda>r. r_id r = i_receipt_id i \<and> \<not> i_informational i) rs)"
  have row: "?row i = [] \<or> (\<exists>r. ?row i = [(i, r)])" for i
    using join_at_most_one [OF rs, of "i_receipt_id i"] by (cases "i_informational i") auto
  have "distinct (map (\<lambda>x. i_id (fst x)) (concat (map ?row xs)))" if "distinct (map i_id xs)" for xs
    using that
  proof (induction xs)
    case (Cons i xs)
    then show ?case using row [of i] by (auto simp: image_iff)
  qed simp
  then show ?thesis using assms(1) unfolding join_items_def .
qed

section \<open>What the views promise over every run\<close>

lemma spend_item_cases:
  assumes "s \<in> set (v_countable_spend_items d)" and "violation h d = None"
  obtains i r where "s = spend_item_of i r" "i \<in> set (d_items d)" "r \<in> set (d_receipts d)" "countable d r" "r_id r = i_receipt_id i"
  using assms by (auto simp: v_countable_spend_items_def spend_receipts join_items_mem)

lemma income_item_cases:
  assumes "s \<in> set (v_income_items d)"
  obtains i r where "s = income_item_of i r" "i \<in> set (d_items d)" "r \<in> set (d_receipts d)" "r_kind r = ''income''" "r_id r = i_receipt_id i"
  using assms by (auto simp: v_income_items_def income_receipts join_items_mem)

lemma spend_side: "countable d r \<Longrightarrow> \<not> income_kind (r_kind r)"
  by (auto simp: countable_def income_kind_def kKinds_def)

lemma income_side: "income_kind ''income''"
  by (simp add: income_kind_def kKinds_def)

text \<open>The category of an item lies on its receipt's side and belongs to its receipt's user.\<close>

lemma item_category:
  assumes ok: "ledger_ok h d" and i: "i \<in> set (d_items d)" "i_category_id i = Some cid"
    and r: "r \<in> set (d_receipts d)" "r_id r = i_receipt_id i"
  shows "\<exists>c \<in> set (d_categories d). c_id c = cid \<and> c_user_id c = r_user_id r \<and> c_is_income c = income_kind (r_kind r)"
proof -
  have v: "violation h d = None" and t: "tenant_ok d" using ok by (simp_all add: ledger_ok_def)
  obtain u s where us: "(i_receipt_id i, u, s) \<in> rsig d" "(cid, u, s) \<in> csig d"
    using tenantD(1) [OF t i(1)] i(2) by (auto simp: item_ok_def)
  moreover have "(i_receipt_id i, r_user_id r, income_kind (r_kind r)) \<in> rsig d" using r by (force simp: rsig_def)
  ultimately have "u = r_user_id r" "s = income_kind (r_kind r)" using rsig_fun [OF v] by blast+
  then show ?thesis using us(2) by (auto simp: csig_def)
qed

lemma reports_distinct:
  assumes v: "violation h d = None"
  shows "distinct (map (\<lambda>v. r_id (vs_receipt (fst v))) (v_countable_spend d) @ map (\<lambda>v. r_id (vs_receipt v)) (v_income d))"
    and "distinct (map si_item_id (v_countable_spend_items d) @ map ni_item_id (v_income_items d))"
proof -
  have ids: "distinct (map r_id (d_receipts d))" "distinct (map i_id (d_items d))" and fk: "\<not> fk_violation d"
    using v by (simp_all add: violation_None unique_violation_def)
  note inj = inj_onD [OF unique_ids(1) [OF v]] inj_onD [OF unique_ids(5) [OF v]]
  let ?inc = "\<lambda>r. is_confirmed r \<and> r_kind r = ''income''"
  have apart: "\<not> (countable d r \<and> ?inc r)" for r by (auto simp: countable_def)
  have sub: "distinct (map r_id (filter P (d_receipts d)))" for P using ids(1) by (simp add: distinct_map_filter)
  show "distinct (map (\<lambda>v. r_id (vs_receipt (fst v))) (v_countable_spend d) @ map (\<lambda>v. r_id (vs_receipt v)) (v_income d))"
    using sub inj(1) apart
    by (auto simp: spend_rows_eq [OF v] income_rows_eq spend_row_def comp_def)
  have "map si_item_id (v_countable_spend_items d) = map (\<lambda>x. i_id (fst x)) (join_items d (filter (countable d) (d_receipts d)))"
    "map ni_item_id (v_income_items d) = map (\<lambda>x. i_id (fst x)) (join_items d (filter ?inc (d_receipts d)))"
    by (auto simp: v_countable_spend_items_def v_income_items_def spend_receipts [OF v] income_receipts spend_item_of_def income_item_of_def)
  moreover have False if "(i, r) \<in> set (join_items d (filter (countable d) (d_receipts d)))"
    "(j, q) \<in> set (join_items d (filter ?inc (d_receipts d)))" "i_id i = i_id j" for i j r q
    using that inj(1) [of r q] inj(2) [of i j] apart by (auto simp: join_items_mem)
  ultimately show "distinct (map si_item_id (v_countable_spend_items d) @ map ni_item_id (v_income_items d))"
    using join_items_distinct [OF ids(2) sub] by (fastforce simp: image_iff)
qed

lemma signed_by_direction:
  assumes v: "violation h d = None" and m: "(vrs, n) \<in> set (v_countable_spend d)"
  shows "vs_is_confirmed vrs \<and>
     n = (if r_direction (vs_receipt vrs) = ''outflow'' then r_total_cents (vs_receipt vrs) else - r_total_cents (vs_receipt vrs)) \<and>
     0 \<le> r_total_cents (vs_receipt vrs)"
proof -
  obtain r where r: "r \<in> set (d_receipts d)" "countable d r" "vrs = receipt_state_of r" "n = r_total_cents r * spend_sign (r_kind r)"
    using m by (auto simp: spend_rows_eq [OF v] spend_row_def)
  have "receipt_checks r" using v r(1) by (simp add: violation_None check_violation_def list_all_iff)
  then have sign: "0 \<le> r_total_cents r" "chk_direction_by_kind (r_kind r) (r_direction r)" by (simp_all add: receipt_checks_def)
  have "r_kind r = ''purchase'' \<or> r_kind r = ''refund'' \<or> r_kind r = ''reimbursement''" "is_confirmed r"
    using r(2) by (simp_all add: countable_def)
  then show ?thesis using sign unfolding r(3,4) by (elim disjE) (simp_all add: chk_direction_by_kind_def spend_sign_def)
qed

text \<open>C14: Reports add up. Whatever requests and scans came before: no receipt and no item counts twice in the spending and income
  views together, although the spending view joins the payment methods; every receipt that counts as spending is confirmed and
  counts its magnitude with the sign of its stored direction, money out positive and money back negative; and every category that
  spending (income) is broken down by is an expense (income) category of the user who spent (earned) it.\<close>

theorem reports_add_up:
  assumes "run h cfg K w0 w" and "sys_ok h cfg w0" and "d = w_db w"
  shows "distinct (map (\<lambda>v. r_id (vs_receipt (fst v))) (v_countable_spend d) @ map (\<lambda>v. r_id (vs_receipt v)) (v_income d)) \<and>
     distinct (map si_item_id (v_countable_spend_items d) @ map ni_item_id (v_income_items d)) \<and>
     (\<forall>(vrs, n) \<in> set (v_countable_spend d). vs_is_confirmed vrs \<and>
        n = (if r_direction (vs_receipt vrs) = ''outflow'' then r_total_cents (vs_receipt vrs) else - r_total_cents (vs_receipt vrs)) \<and>
        0 \<le> r_total_cents (vs_receipt vrs)) \<and>
     (\<forall>s \<in> set (v_countable_spend_items d). \<forall>cid. si_category_id s = Some cid \<longrightarrow>
        (\<exists>c \<in> set (d_categories d). c_id c = cid \<and> c_user_id c = si_user_id s \<and> \<not> c_is_income c)) \<and>
     (\<forall>s \<in> set (v_income_items d). \<forall>cid. ni_category_id s = Some cid \<longrightarrow>
        (\<exists>c \<in> set (d_categories d). c_id c = cid \<and> c_user_id c = ni_user_id s \<and> c_is_income c))"
proof -
  have ok: "ledger_ok h d" using run_sys [OF assms(1,2)] by (simp add: sys_ok_def assms(3))
  then have v: "violation h d = None" by (simp add: ledger_ok_def)
  show ?thesis
    using reports_distinct [OF v] signed_by_direction [OF v] item_category [OF ok] spend_side income_side
    by (fastforce elim!: spend_item_cases [OF _ v] income_item_cases simp: spend_item_of_def income_item_of_def)
qed

section \<open>Manual entries in the reports\<close>

text \<open>The reports of one receipt.\<close>

lemma join_items_of:
  assumes "distinct (map r_id rs)"
  shows "filter (\<lambda>x. i_receipt_id (fst x) = n) (join_items d rs) =
    concat (map (\<lambda>r. map (\<lambda>i. (i, r)) (filter (\<lambda>i. i_receipt_id i = n \<and> \<not> i_informational i) (d_items d))) (filter (\<lambda>r. r_id r = n) rs))"
proof -
  have "filter (\<lambda>x. i_receipt_id (fst x) = n)
      (concat (map (\<lambda>i. map (Pair i) (filter (\<lambda>r. r_id r = i_receipt_id i \<and> \<not> i_informational i) rs)) xs)) =
    concat (map (\<lambda>r. map (\<lambda>i. (i, r)) (filter (\<lambda>i. i_receipt_id i = n \<and> \<not> i_informational i) xs)) (filter (\<lambda>r. r_id r = n) rs))" for xs
    using join_at_most_one [OF assms, of n]
    by (induction xs) (auto simp: filter_map comp_def)
  then show ?thesis unfolding join_items_def .
qed

text \<open>The database with a receipt and the items entered for it added.\<close>

definition figures :: "item_row \<Rightarrow> int \<times> int option \<times> int \<times> bool" where
  "figures i = (i_receipt_id i, i_category_id i, i_amount_cents i, i_informational i)"

definition entered :: "host \<Rightarrow> db \<Rightarrow> receipt_row \<Rightarrow> ItemInput list \<Rightarrow> db \<Rightarrow> bool" where
  "entered h d row xs d' \<longleftrightarrow> violation h d' = None \<and> d_receipts d' = d_receipts d @ [row] \<and>
     d_payment_methods d' = d_payment_methods d \<and>
     (\<exists>js. d_items d' = d_items d @ js \<and>
       map figures js = map (\<lambda>x. (r_id row, ii_categoryId x, ii_amountCents x, ii_informational x)) xs)"

lemma item_insert_entered:
  "triple (entered h d row xs) (item_insert h u (r_id row) kind x) (\<lambda>_. entered h d row (xs @ [x]))"
proof -
  have new: "triple (entered h d row xs) (insert_item h (r_id row) x) (\<lambda>_. entered h d row (xs @ [x]))"
    unfolding insert_item_def
    by (rule triple_insert_row) (fastforce simp: entered_def new_item_def figures_def)
  have tags: "triple (entered h d row ys) (replaceTags h u m tags) (\<lambda>_. entered h d row ys)" for ys m tags
    unfolding replaceTags_def clear_tags_def add_tag_def
    by (intro triple_bindM [OF triple_exec [where Q = "\<lambda>_. entered h d row ys"]] triple_forM triple_bind_query triple_if triple_raise
        triple_exec) (auto simp: entered_def)
  have fit: "triple (entered h d row xs) (case ii_categoryId x of None \<Rightarrow> ret () | Some c \<Rightarrow> requireCategoryFitsKind u c kind)
     (\<lambda>_. entered h d row xs)"
    unfolding requireCategoryFitsKind_def
    by (intro triple_option triple_bind_query triple_bind_lift triple_if triple_ret triple_raise) auto
  show ?thesis
    unfolding item_insert_def
    by (rule triple_bindM [OF fit], rule triple_bindM [OF new], rule triple_bindM [OF tags], rule triple_ret) simp
qed

lemma items_entered:
  "triple (entered h d row xs) (forM ys (\<lambda>x. bindM (item_insert h u (r_id row) kind x) (\<lambda>_. ret ()))) (\<lambda>_. entered h d row (xs @ ys))"
proof (induction ys arbitrary: xs)
  case Nil
  show ?case by (simp add: triple_ret)
next
  case (Cons y ys)
  have "triple (entered h d row xs) (bindM (item_insert h u (r_id row) kind y) (\<lambda>_. ret ())) (\<lambda>_. entered h d row (xs @ [y]))"
    by (rule triple_bindM [OF item_insert_entered], rule triple_ret) simp
  from triple_bindM [OF this Cons.IH] show ?case by simp
qed

text \<open>The row of a manual entry.\<close>

definition manual_row :: "int \<Rightarrow> EditableReceipt \<Rightarrow> int \<Rightarrow> receipt_row \<Rightarrow> bool" where
  "manual_row u r n row \<longleftrightarrow> r_id row = n \<and> r_user_id row = u \<and> r_kind row = er_kind r \<and> r_total_cents row = er_totalCents r \<and>
     r_payment_method_id row = er_paymentMethodId r \<and> is_confirmed row"

lemma manual_receipt_manual: "manual_receipt h u r aud n t = Inr row \<Longrightarrow> manual_row u r n row"
  by (auto simp: manual_receipt_def manual_row_def rbind_eq_Inr new_receipt_def is_confirmed_def)

lemma createManual_entered:
  assumes run: "createManual h u body w = (Inr n, w')" and input: "parseManualEntry body = Inr input"
  obtains row where "manual_row u (me_receipt input) n row" "entered h (w_db w) row (manual_entry_items input) (w_db w')"
proof -
  let ?r = "me_receipt input"
  let ?Q = "\<lambda>xs n d'. \<exists>row. manual_row u ?r n row \<and> entered h (w_db w) row xs d'"
  have refs: "triple (\<lambda>d. d = w_db w) (validateReferences u None ?r) (\<lambda>_ d. d = w_db w)"
    by (rule triple_conseq [OF validateReferences_triple [where P = "\<lambda>d. d = w_db w"]]) auto
  have insert: "triple (\<lambda>d. d = w_db w) (insert_receipt h (manual_receipt h u ?r aud)) (?Q [])" for aud
    unfolding insert_receipt_def
    by (rule triple_insert_row) (auto simp: rbind_eq_Inr entered_def dest!: manual_receipt_manual)
  have items: "triple (?Q [] m) (forM ys (\<lambda>x. bindM (item_insert h u m kind x) (\<lambda>_. ret ()))) (\<lambda>_. ?Q ys m)" for m kind ys
  proof -
    have "?Q ys m (w_db w2)" if "manual_row u ?r m row" "entered h (w_db w) row [] (w_db w1)"
      "forM ys (\<lambda>x. bindM (item_insert h u m kind x) (\<lambda>_. ret ())) w1 = (Inr x, w2)" for row w1 w2 x
      using that items_entered [of h "w_db w" row "[]" ys u kind] unfolding triple_def manual_row_def by fastforce
    then show ?thesis unfolding triple_def by blast
  qed
  have "triple (\<lambda>d. d = w_db w) (bindM (validateReferences u None ?r) (\<lambda>_.
      bindM (insert_receipt h (manual_receipt h u ?r aud)) (\<lambda>m.
      bindM (forM (manual_entry_items input) (\<lambda>x. bindM (item_insert h u m (er_kind ?r) x) (\<lambda>_. ret ()))) (\<lambda>_. ret m))))
     (?Q (manual_entry_items input))" for aud
    by (rule triple_bindM [OF refs], rule triple_bindM [OF insert], rule triple_bindM [OF items], rule triple_ret) simp
  then have "?Q (manual_entry_items input) n (w_db w')"
    using run unfolding createManual_def triple_def by (auto simp: runs input Let_def) (metis w_db_tick)
  then show ?thesis using that by blast
qed


text \<open>The reports of the receipt whose items came last.\<close>

lemma entered_ids:
  assumes e: "entered h d row xs d'"
  shows "distinct (map r_id (d_receipts d'))" and "r_id row \<notin> r_id ` set (d_receipts d)"
proof -
  have d': "d_receipts d' = d_receipts d @ [row]" and v: "violation h d' = None" using e by (simp_all add: entered_def)
  from v show ids: "distinct (map r_id (d_receipts d'))" by (simp add: violation_None unique_violation_def)
  then show "r_id row \<notin> r_id ` set (d_receipts d)" by (simp add: d')
qed

lemma entered_row:
  assumes e: "entered h d row xs d'"
  shows "filter (\<lambda>r. r_id r = r_id row) (filter P (d_receipts d')) = (if P row then [row] else [])"
proof -
  note fresh = entered_ids(2) [OF e]
  have "filter (\<lambda>r. r_id r = r_id row) (filter P (d_receipts d)) = []"
    using fresh
    by (auto simp: filter_empty_conv image_iff)
  then show ?thesis using e by (simp add: entered_def)
qed

lemma entered_items:
  assumes e: "entered h d row xs d'" and v: "violation h d = None"
  shows "map figures (filter (\<lambda>i. i_receipt_id i = r_id row) (d_items d')) =
       map (\<lambda>x. (r_id row, ii_categoryId x, ii_amountCents x, ii_informational x)) xs"
proof -
  obtain js where js: "d_items d' = d_items d @ js"
    "map figures js = map (\<lambda>x. (r_id row, ii_categoryId x, ii_amountCents x, ii_informational x)) xs"
    using e by (auto simp: entered_def)
  note fresh = entered_ids(2) [OF e]
  have old: "filter (\<lambda>i. i_receipt_id i = r_id row) (d_items d) = []"
    using fresh v by (auto simp: violation_None fk_violation_def list_all_iff filter_empty_conv) metis
  have "figures j \<in> set (map figures js)" if "j \<in> set js" for j using that by simp
  then have "\<forall>j \<in> set js. i_receipt_id j = r_id row" unfolding js(2) by (auto simp: figures_def)
  then show ?thesis using js old by (simp add: filter_id_conv)
qed

lemma figures_filter:
  assumes "map figures js = map (\<lambda>x. (n, ii_categoryId x, ii_amountCents x, ii_informational x)) xs"
  shows "map (\<lambda>j. (i_category_id j, i_amount_cents j)) (filter (\<lambda>j. \<not> i_informational j) js) =
    map (\<lambda>x. (ii_categoryId x, ii_amountCents x)) (filter (\<lambda>x. \<not> ii_informational x) xs)"
  using assms by (induction js arbitrary: xs) (auto simp: figures_def Cons_eq_map_conv)

lemma joined_figures:
  assumes e: "entered h d row xs d'" and v: "violation h d = None"
  shows "map (\<lambda>(i, r). (r, i_category_id i, i_amount_cents i))
      (filter (\<lambda>x. i_receipt_id (fst x) = r_id row) (join_items d' (filter P (d_receipts d')))) =
    (if P row then map (\<lambda>x. (row, ii_categoryId x, ii_amountCents x)) (filter (\<lambda>x. \<not> ii_informational x) xs) else [])"
proof -
  have ids: "distinct (map r_id (filter P (d_receipts d')))" using entered_ids(1) [OF e] by (simp add: distinct_map_filter)
  have "map (Pair row) (map (\<lambda>j. (i_category_id j, i_amount_cents j))
      (filter (\<lambda>j. \<not> i_informational j) (filter (\<lambda>i. i_receipt_id i = r_id row) (d_items d')))) =
    map (Pair row) (map (\<lambda>x. (ii_categoryId x, ii_amountCents x)) (filter (\<lambda>x. \<not> ii_informational x) xs))"
    by (simp only: figures_filter [OF entered_items [OF e v]])
  then show ?thesis
    unfolding join_items_of [OF ids] entered_row [OF e] by (simp add: comp_def conj_commute)
qed

text \<open>C15: What a user enters by hand is in the reports at once, whole, and once. An entry of money spent or returned counts in the spending
  view with its signed total, unless it was paid with a stored-value method; its items that are not informational count in the item
  view with their categories and the same sign; income counts in the income views; transfers count nowhere. An entry without
  items of its own gets one for its total, so that item and receipt figures agree.\<close>

theorem manual_entries_are_reported:
  assumes "createManual h u body w = (Inr n, w')" and "parseManualEntry body = Inr input" and "violation h (w_db w) = None"
    and "r = me_receipt input" and "d' = w_db w'"
    and "spent \<longleftrightarrow> er_kind r \<in> {''purchase'', ''refund'', ''reimbursement''} \<and>
       \<not> (er_kind r = ''purchase'' \<and> (\<exists>p \<in> set (d_payment_methods (w_db w)). er_paymentMethodId r = Some (p_id p) \<and> p_stored_value p))"
    and "listed = filter (\<lambda>i. \<not> ii_informational i) (manual_entry_items input)"
  shows "map (\<lambda>v. (r_user_id (vs_receipt (fst v)), snd v)) (filter (\<lambda>v. r_id (vs_receipt (fst v)) = n) (v_countable_spend d')) =
       (if spent then [(u, er_totalCents r * spend_sign (er_kind r))] else []) \<and>
     map (\<lambda>s. (si_user_id s, si_category_id s, si_signed_amount_cents s)) (filter (\<lambda>s. si_receipt_id s = n) (v_countable_spend_items d')) =
       (if spent then map (\<lambda>i. (u, ii_categoryId i, ii_amountCents i * spend_sign (er_kind r))) listed else []) \<and>
     map (\<lambda>v. (r_user_id (vs_receipt v), r_total_cents (vs_receipt v))) (filter (\<lambda>v. r_id (vs_receipt v) = n) (v_income d')) =
       (if er_kind r = ''income'' then [(u, er_totalCents r)] else []) \<and>
     map (\<lambda>s. (ni_user_id s, ni_category_id s, ni_amount_cents s)) (filter (\<lambda>s. ni_receipt_id s = n) (v_income_items d')) =
       (if er_kind r = ''income'' then map (\<lambda>i. (u, ii_categoryId i, ii_amountCents i)) listed else []) \<and>
     (me_items input = [] \<longrightarrow> map ii_amountCents listed = [er_totalCents r])"
proof -
  obtain row where row: "manual_row u r n row" and e: "entered h (w_db w) row (manual_entry_items input) d'"
    using createManual_entered [OF assms(1,2)] unfolding assms(4,5) .
  have v': "violation h d' = None" and pms: "d_payment_methods d' = d_payment_methods (w_db w)" using e by (simp_all add: entered_def)
  have n: "n = r_id row" and sp: "countable d' row = spent" and u: "r_user_id row = u" "r_kind row = er_kind r" "r_total_cents row = er_totalCents r"
    and conf: "is_confirmed row"
    using row pms unfolding assms(6) by (auto simp: manual_row_def countable_def)
  have spend: "map f (filter (\<lambda>v. r_id (vs_receipt (fst v)) = n) (v_countable_spend d')) = (if spent then [f (spend_row row)] else [])" for f :: "receipt_state \<times> int \<Rightarrow> 'z"
    using entered_row [OF e, of "countable d'"] by (simp add: spend_rows_eq [OF v'] filter_map comp_def spend_row_def n sp)
  have earned: "map f (filter (\<lambda>v. r_id (vs_receipt v) = n) (v_income d')) = (if er_kind r = ''income'' then [f (receipt_state_of row)] else [])"
    for f :: "receipt_state \<Rightarrow> 'z"
    using entered_row [OF e, of "\<lambda>r. is_confirmed r \<and> r_kind r = ''income''"]
    by (simp add: income_rows_eq filter_map comp_def n u conf)
  note joined = joined_figures [OF e assms(3)]
  have items: "map (\<lambda>s. (si_user_id s, si_category_id s, si_signed_amount_cents s)) (filter (\<lambda>s. si_receipt_id s = n) (v_countable_spend_items d')) =
     map (\<lambda>(r, c, a). (r_user_id r, c, a * spend_sign (r_kind r))) (map (\<lambda>(i, r). (r, i_category_id i, i_amount_cents i))
      (filter (\<lambda>x. i_receipt_id (fst x) = r_id row) (join_items d' (filter (countable d') (d_receipts d')))))"
    by (auto simp: v_countable_spend_items_def spend_receipts [OF v'] filter_map comp_def n spend_item_of_def case_prod_beta)
  have income: "map (\<lambda>s. (ni_user_id s, ni_category_id s, ni_amount_cents s)) (filter (\<lambda>s. ni_receipt_id s = n) (v_income_items d')) =
     map (\<lambda>(r, c, a). (r_user_id r, c, a)) (map (\<lambda>(i, r). (r, i_category_id i, i_amount_cents i))
      (filter (\<lambda>x. i_receipt_id (fst x) = r_id row) (join_items d' (filter (\<lambda>r. is_confirmed r \<and> r_kind r = ''income'') (d_receipts d')))))"
    by (auto simp: v_income_items_def income_receipts filter_map comp_def n income_item_of_def case_prod_beta)
  have "me_items input = [] \<longrightarrow> map ii_amountCents listed = [er_totalCents r]"
    by (simp add: assms(4,7) manual_entry_items_def implicit_item_def ItemInput_init_def)
  then show ?thesis
    unfolding spend earned items income joined by (simp add: spend_row_def u sp conf assms(7) comp_def)
qed

text \<open>Ann enters a refund with two items, one of them informational.\<close>

definition refund_body :: json where
  "refund_body = JObject [(''total_cents'', JInteger 1250), (''kind'', JString ''refund''), (''items'', JArray
     [JObject [(''amount_cents'', JInteger 1250)], JObject [(''amount_cents'', JInteger 300), (''informational'', JBool True)]])]"

definition refund_request :: Request where
  "refund_request = photo_request\<lparr>rq_body := refund_body\<rparr>"

definition refund_run_end :: world where
  "refund_run_end = snd (event_action sample_host sample_config (Serve refund_request CreateManual) ann_world)"

lemma refund_run: "run sample_host sample_config UNIV ann_world refund_run_end"
  unfolding refund_run_end_def by (rule run_step [OF run_refl step_event])

theorem reports_add_up_witness:
  "\<exists>vrs. v_countable_spend (w_db refund_run_end) = [(vrs, - 1250)] \<and> vs_is_confirmed vrs \<and> r_total_cents (vs_receipt vrs) = 1250 \<and>
     map si_signed_amount_cents (v_countable_spend_items (w_db refund_run_end)) = [- 1250]"
proof -
  have views: "map (\<lambda>v. (r_direction (vs_receipt (fst v)), snd v)) (v_countable_spend (w_db refund_run_end)) = [(''inflow'', - 1250)]"
    "map si_signed_amount_cents (v_countable_spend_items (w_db refund_run_end)) = [- 1250]"
    by code_simp+
  then obtain vrs where vrs: "v_countable_spend (w_db refund_run_end) = [(vrs, - 1250)]" "r_direction (vs_receipt vrs) = ''inflow''"
    unfolding map_eq_Cons_conv by fastforce
  then have "(vrs, - 1250) \<in> set (v_countable_spend (w_db refund_run_end))" by simp
  from bspec [OF conjunct1 [OF conjunct2 [OF conjunct2 [OF reports_add_up [OF refund_run ann_sys refl]]]] this]
  have "vs_is_confirmed vrs \<and> r_total_cents (vs_receipt vrs) = 1250" by (simp add: vrs(2))
  then show ?thesis by (intro exI [of _ vrs] conjI vrs(1) views(2)) simp_all
qed

theorem manual_entries_are_reported_witness:
  "\<exists>n w'. createManual sample_host 1 refund_body ann_world = (Inr n, w') \<and>
     map snd (filter (\<lambda>v. r_id (vs_receipt (fst v)) = n) (v_countable_spend (w_db w'))) = [- 1250]"
proof -
  have run: "case createManual sample_host 1 refund_body ann_world of (Inl e, w') \<Rightarrow> False | (Inr n, w') \<Rightarrow> True" by code_simp
  then obtain n w' where m: "createManual sample_host 1 refund_body ann_world = (Inr n, w')" by (auto split: prod.splits sum.splits)
  have parsed: "case parseManualEntry refund_body of Inl e \<Rightarrow> False
     | Inr input \<Rightarrow> er_kind (me_receipt input) = ''refund'' \<and> er_totalCents (me_receipt input) = 1250" by code_simp
  then obtain input where p: "parseManualEntry refund_body = Inr input"
    "er_kind (me_receipt input) = ''refund''" "er_totalCents (me_receipt input) = 1250" by (auto split: sum.splits)
  have v: "violation sample_host (w_db ann_world) = None" by code_simp
  have "map (\<lambda>v. (r_user_id (vs_receipt (fst v)), snd v)) (filter (\<lambda>v. r_id (vs_receipt (fst v)) = n) (v_countable_spend (w_db w'))) = [(1, - 1250)]"
    using manual_entries_are_reported [OF m p(1) v refl refl refl refl] p(2,3) by (simp add: spend_sign_def)
  from arg_cong [OF this, of "map snd"] show ?thesis using m by (auto simp: comp_def)
qed

end
