(* ===== verification/DoubleDiv.thy ===== *)
theory DoubleDiv
  imports DoubleArith
begin

text \<open>
  Division, equality and truncation of doubles, and the round trip of an amount of money: cents
  divided by 100 and multiplied by 100 again are the cents.
\<close>

text \<open>A quotient is computed to at least 55 bits; the last bit says whether anything is left over, so that
  rounding it to 53 bits is rounding the exact quotient.\<close>

definition quot_bits :: "int \<Rightarrow> int \<Rightarrow> nat \<Rightarrow> int" where
  "quot_bits a b k = 2 * (a * 2 ^ k div b) + (if a * 2 ^ k mod b = 0 then 0 else 1)"

fun ddiv :: "double \<Rightarrow> double \<Rightarrow> double" where
  "ddiv (Fin a e) (Fin b f) =
     (if b = 0 then if a = 0 then NaN else Infinite (a < 0)
      else let k = 56 + bits (nat \<bar>b\<bar>) in double_of (sgn b * sgn a * quot_bits \<bar>a\<bar> \<bar>b\<bar> k) (e - f - int k - 1))"
| "ddiv NaN y = NaN"
| "ddiv x NaN = NaN"
| "ddiv (Infinite s) (Fin b f) = Infinite (s \<noteq> (b < 0))"
| "ddiv (Fin a e) (Infinite s) = Fin 0 0"
| "ddiv (Infinite s) (Infinite t) = NaN"

text \<open>The comparison \<open>x == y\<close>.\<close>

definition deq :: "double \<Rightarrow> double \<Rightarrow> bool" where
  "deq x y \<longleftrightarrow> x \<noteq> NaN \<and> y \<noteq> NaN \<and> \<not> dless x y \<and> \<not> dless y x"

text \<open>\<open>static_cast<int>\<close>: towards zero, undefined (\<open>unspec\<close>) outside the range of \<open>int\<close>.\<close>

definition int_of_double :: "(double \<Rightarrow> int) \<Rightarrow> double \<Rightarrow> int" where
  "int_of_double unspec x =
     (case x of
        Fin m e \<Rightarrow>
          (let n = (if 0 \<le> e then m * 2 ^ nat e else sgn m * (\<bar>m\<bar> div 2 ^ nat (- e)))
           in if - (2 ^ 31) \<le> n \<and> n < 2 ^ 31 then n else unspec x)
      | _ \<Rightarrow> unspec x)"

section \<open>Rounding the quotient is rounding the exact value\<close>

lemma half_bounds: "2 * \<bar>2 * x - y\<bar> \<le> 4 * z \<longleftrightarrow> 2 * (x - z) \<le> y \<and> y \<le> 2 * (x + z)" for x y z :: int
  by (auto simp: abs_if)

text \<open>Between two neighbouring even numbers lies no point halfway between multiples of \<open>2 ^ s\<close>.\<close>

lemma sticky_round:
  fixes a b :: int
  assumes b: "0 < b" and s: "2 \<le> s"
  shows "2 * \<bar>round_shift (quot_bits a b k) s * 2 ^ s * b - a * 2 ^ Suc k\<bar> \<le> 2 ^ s * b"
proof -
  define q r M where "q = a * 2 ^ k div b" and "r = a * 2 ^ k mod b" and "M = quot_bits a b k"
  define m P where "m = round_shift M s" and "P = (2 ^ (s - 2) :: int)"
  define c where "c = m * 2 * P"
  have M: "M = 2 * q + (if r = 0 then 0 else 1)" by (simp add: M_def quot_bits_def q_def r_def)
  have exact: "a * 2 ^ k = q * b + r" and r: "0 \<le> r" "r < b" using b by (simp_all add: q_def r_def div_mult_mod_eq)
  have P: "2 ^ s = 4 * P" unfolding P_def by (subst le_add_diff_inverse [OF s, symmetric], subst power_add) simp
  have scaled: "m * (4 * P) = 2 * c" by (simp add: c_def)
  have near: "2 * \<bar>2 * c - M\<bar> \<le> 4 * P"
    using round_shift_error [of M s] unfolding m_def [symmetric] P scaled .
  have twice: "a * 2 ^ Suc k = 2 * (q * b) + 2 * r" using exact by simp
  have "2 * \<bar>2 * (c * b) - (2 * (q * b) + 2 * r)\<bar> \<le> 4 * (P * b)"
  proof (cases "r = 0")
    case True
    have "2 * (c * b) - 2 * (q * b) = (2 * c - M) * b" using M True by (simp add: algebra_simps)
    then have "\<bar>2 * (c * b) - 2 * (q * b)\<bar> = \<bar>2 * c - M\<bar> * b" using b by (simp add: abs_mult)
    moreover have "2 * \<bar>2 * c - M\<bar> * b \<le> 4 * P * b" using near b by (intro mult_right_mono) simp_all
    ultimately show ?thesis using True by simp
  next
    case False
    then have "2 * (c - P) \<le> 2 * q + 1" "2 * q + 1 \<le> 2 * (c + P)" using near M unfolding half_bounds by simp_all
    then have "c - P \<le> q" "q + 1 \<le> c + P" by - presburger+
    then have "(c - P) * b \<le> q * b" "(q + 1) * b \<le> (c + P) * b" using b by (intro mult_right_mono; simp)+
    then show ?thesis unfolding half_bounds using r by (simp add: algebra_simps)
  qed
  moreover have "m * 2 ^ s * b = 2 * (c * b)" "2 ^ s * b = 4 * (P * b)" by (simp_all add: P c_def)
  ultimately show ?thesis unfolding M_def [symmetric] m_def [symmetric] twice by (simp only:)
qed

lemma round_shift_minus: "round_shift (- m) s = - round_shift m s"
proof -
  have "0 \<le> m mod 2 ^ s" "m mod 2 ^ s < 2 ^ s" by simp_all
  then show ?thesis
    unfolding round_shift_def Let_def by (auto simp: zdiv_zminus1_eq_if zmod_zminus1_eq_if)
qed

section \<open>Cents\<close>

definition shifted :: "int \<Rightarrow> nat" where
  "shifted k = bits (nat (quot_bits \<bar>k\<bar> 100 63)) - 53"

lemma quotient_bounds:
  assumes "k \<noteq> 0" and "\<bar>k\<bar> < 2 ^ 50"
  defines "M \<equiv> quot_bits \<bar>k\<bar> 100 63"
  shows "2 ^ 54 \<le> M" and "M < 2 ^ 114" and "100 * M \<le> \<bar>k\<bar> * 2 ^ 64 + 100"
    and "even x \<Longrightarrow> x \<le> M \<Longrightarrow> 100 * x \<le> \<bar>k\<bar> * 2 ^ 64"
proof -
  define a where "a = \<bar>k\<bar>"
  have a: "1 \<le> a" "a < 2 ^ 50" using assms by (simp_all add: a_def)
  have M: "M = 2 * (a * 2 ^ 63 div 100) + (if a * 2 ^ 63 mod 100 = 0 then 0 else 1)"
    by (simp add: M_def quot_bits_def a_def)
  show "2 ^ 54 \<le> M" using a M by auto
  show "M < 2 ^ 114" using a M by auto
  show "100 * M \<le> \<bar>k\<bar> * 2 ^ 64 + 100" using M by (auto simp: a_def [symmetric])
  show "100 * x \<le> \<bar>k\<bar> * 2 ^ 64" if ev: "even x" and le: "x \<le> M"
  proof -
    obtain y where y: "x = 2 * y" using ev by (elim evenE)
    then have "y \<le> a * 2 ^ 63 div 100" using le M by (auto split: if_splits)
    then have "100 * y \<le> a * 2 ^ 63" by simp
    then show ?thesis using y by (simp add: a_def [symmetric])
  qed
qed

lemma cents_near:
  assumes k: "k \<noteq> 0" "\<bar>k\<bar> < 2 ^ 50"
  defines "M \<equiv> quot_bits \<bar>k\<bar> 100 63" and "s \<equiv> shifted k"
  shows "53 < bits (nat M)" and "s \<le> 61" and "round_shift M s < 2 ^ 114"
    and "2 ^ 53 * \<bar>round_shift M s * 100 - \<bar>k\<bar> * 2 ^ (64 - s)\<bar> \<le> \<bar>k\<bar> * 2 ^ (64 - s)"
proof -
  note bounds = quotient_bounds [OF k, folded M_def]
  have M: "0 < M" "nat M < 2 ^ 114" "\<not> nat M < 2 ^ 54" using bounds(1,2) by (simp_all add: nat_less_iff)
  then have b: "bits (nat M) \<le> 114" "54 < bits (nat M)" by (simp only: bits_le_iff, metis bits_le_iff not_le)
  then show "53 < bits (nat M)" by simp
  have s: "s = bits (nat M) - 53" by (simp add: s_def shifted_def M_def)
  then show s61: "s \<le> 61" using b by simp
  have s2: "2 \<le> s" using s b by simp
  define S where "S = (2 ^ s :: int)"
  have SP: "0 < S" by (simp add: S_def)
  have "bits (nat M) = 53 + s" using s b by simp
  then have "(2::nat) ^ (53 + s) \<le> 2 * nat M" using two_power_bits_le [of "nat M"] M by simp
  then have "int (2 ^ (53 + s)) \<le> 2 * M" using M(1) by linarith
  then have "2 ^ (52 + s) \<le> M" by (simp add: power_add)
  then have low: "100 * (2 ^ 52 * S) \<le> \<bar>k\<bar> * 2 ^ 64"
    using bounds(4) [of "2 ^ (52 + s)"] by (simp add: S_def power_add)
  define E where "E = round_shift M s * 100 - \<bar>k\<bar> * 2 ^ (64 - s)"
  have split: "\<bar>k\<bar> * 2 ^ 64 = \<bar>k\<bar> * 2 ^ (64 - s) * S" using s61 by (simp add: S_def flip: power_add)
  have "round_shift M s * S * 100 - \<bar>k\<bar> * 2 ^ 64 = E * S" unfolding split E_def by (simp add: algebra_simps)
  then have "2 * \<bar>E * S\<bar> \<le> S * 100"
    using sticky_round [of 100 s "\<bar>k\<bar>" 63] s2 by (simp add: M_def S_def)
  then have E: "2 * \<bar>E\<bar> \<le> 100" using SP by (simp add: abs_mult)
  have "100 * 2 ^ 52 * S \<le> \<bar>k\<bar> * 2 ^ (64 - s) * S" using low unfolding split mult.assoc .
  then have "100 * 2 ^ 52 \<le> \<bar>k\<bar> * 2 ^ (64 - s)" using SP by simp
  then show "2 ^ 53 * \<bar>round_shift M s * 100 - \<bar>k\<bar> * 2 ^ (64 - s)\<bar> \<le> \<bar>k\<bar> * 2 ^ (64 - s)"
    using order_trans [of "2 ^ 53 * \<bar>E\<bar>" "100 * 2 ^ 52"] E unfolding E_def [symmetric] by simp
  define Y where "Y = \<bar>k\<bar> * 2 ^ (64 - s)"
  have "Y \<le> \<bar>k\<bar> * 2 ^ 64" unfolding Y_def by (intro mult_left_mono power_increasing) simp_all
  then have Y: "Y < 2 ^ 114" using k(2) by simp
  show "round_shift M s < 2 ^ 114" using E Y unfolding E_def Y_def [symmetric] by (simp add: abs_if split: if_splits)
qed

lemma units_of_cents:
  assumes k: "\<bar>k\<bar> < 2 ^ 50"
  shows "\<exists>m n. ddiv (double_of_int k) (double_of_int 100) = Fin m (- int n) \<and> n \<le> 1074 \<and>
     2 ^ 53 * \<bar>m * 100 - k * 2 ^ n\<bar> \<le> \<bar>k\<bar> * 2 ^ n"
proof -
  define M where "M = quot_bits \<bar>k\<bar> 100 63"
  have hundred: "bits 100 = 7" by (simp add: bits.simps)
  have "double_of_int k = Fin k 0" "double_of_int 100 = Fin 100 0" using k by (simp_all add: double_of_int_exact)
  then have div: "ddiv (double_of_int k) (double_of_int 100) = double_of (sgn k * M) (- 64)"
    by (simp add: M_def hundred Let_def)
  show ?thesis
  proof (cases "k = 0")
    case True
    then show ?thesis unfolding div by (intro exI [of _ 0] exI [of _ 64]) (simp add: double_of_exact)
  next
    case False
    define s where "s = shifted k"
    note near = cents_near [OF False k, folded M_def s_def]
    have "0 \<le> M" using quotient_bounds(1) [OF False k] by (simp add: M_def)
    then have M: "\<bar>sgn k * M\<bar> = M" using False by (simp add: abs_mult abs_sgn_eq)
    have s: "s = bits (nat M) - 53" by (simp add: s_def shifted_def M_def)
    have rounded: "round_shift (sgn k * M) s = sgn k * round_shift M s" using False by (simp add: sgn_if round_shift_minus)
    have "0 \<le> round_shift M s" using M \<open>0 \<le> M\<close> by (intro round_shift_nonneg)
    then have abs: "\<bar>sgn k * round_shift M s\<bar> = round_shift M s" using False by (simp add: abs_mult abs_sgn_eq)
    have "nat (round_shift M s) < 2 ^ 114" using near(3) by (simp add: nat_less_iff)
    then have "bits (nat (round_shift M s)) \<le> 114" by (simp only: bits_le_iff)
    then have "double_of (sgn k * M) (- 64) = Fin (round_shift (sgn k * M) s) (- 64 + int s)"
      using double_of_rounded [of "sgn k * M" "- 64"] near(1,2) by (simp add: M s [symmetric] rounded abs)
    moreover have "- 64 + int s = - int (64 - s)" using near(2) by simp
    ultimately have res: "ddiv (double_of_int k) (double_of_int 100) = Fin (round_shift (sgn k * M) s) (- int (64 - s))"
      unfolding div by (simp only:)
    have "round_shift (sgn k * M) s * 100 - k * 2 ^ (64 - s) = sgn k * (round_shift M s * 100 - \<bar>k\<bar> * 2 ^ (64 - s))"
      unfolding rounded right_diff_distrib mult.assoc [symmetric] sgn_mult_abs ..
    then have "\<bar>round_shift (sgn k * M) s * 100 - k * 2 ^ (64 - s)\<bar> = \<bar>round_shift M s * 100 - \<bar>k\<bar> * 2 ^ (64 - s)\<bar>"
      using False by (simp add: abs_mult abs_sgn_eq)
    then have "2 ^ 53 * \<bar>round_shift (sgn k * M) s * 100 - k * 2 ^ (64 - s)\<bar> \<le> \<bar>k\<bar> * 2 ^ (64 - s)"
      using near(4) by (simp only:)
    moreover have "64 - s \<le> 1074" by simp
    ultimately show ?thesis using res by blast
  qed
qed

text \<open>Cents printed in units and read back are the cents.\<close>

lemma units_are_cents:
  assumes "\<bar>k\<bar> < 2 ^ 50"
  shows "llround unspec (dmul (ddiv (double_of_int k) (double_of_int 100)) (double_of_int 100)) = k"
  using units_of_cents [OF assms] llround_scaled [of _ 100 k] assms by (auto simp: double_of_int_exact)

end
