(* ===== verification/Golden.thy ===== *)
theory Golden
  imports Anthropic Auth DoubleDiv "HOL-Library.AList"
begin

text \<open>
  The golden-set harness, \<^verbatim>\<open>src/tools/golden_harness.cpp\<close>: it scans every labelled case with the
  production normalizer and adapter and scores the results against the labels. A case is scored by
  the functions \<open>score_kind\<close> to \<open>score_currency\<close> in the order of the source; \<open>golden_main\<close> is the program.

  A \<open>std::map\<close> is an association list in key order. Files, the printing of floating-point numbers,
  \<open>dump(2)\<close> and what the language leaves undefined are the record \<open>GoldenHost\<close>; an exception that
  leaves \<open>main\<close> is the error of the action. The counters are unbounded integers: they count labels.
\<close>

section \<open>Environment\<close>

record GoldenHost =
  gh_read :: "string \<Rightarrow> string option"            \<comment> \<open>the contents of a file that opens\<close>
  gh_missing :: "string \<Rightarrow> error + json"         \<comment> \<open>operator[] of a const object without the key: undefined\<close>
  gh_to_int :: "double \<Rightarrow> int"                    \<comment> \<open>a double outside int converted to int: undefined\<close>
  gh_to_string :: "double \<Rightarrow> string"              \<comment> \<open>std::to_string\<close>
  gh_print :: "bool \<Rightarrow> nat \<Rightarrow> double \<Rightarrow> string"     \<comment> \<open>operator<<: std::fixed set, the precision, the number\<close>
  gh_dump2 :: "json \<Rightarrow> error + string"           \<comment> \<open>dump(2)\<close>

definition kInputPerMTok :: double where
  "kInputPerMTok = Fin 3602879701896397 (- 55)"

definition kOutputPerMTok :: double where
  "kOutputPerMTok = Fin 1 (- 1)"

record Tally =
  ta_correct :: int
  ta_total :: int

definition Tally_init :: Tally where
  "Tally_init = \<lparr>ta_correct = 0, ta_total = 0\<rparr>"

definition kTargets :: "(string \<times> (string \<times> int) list) list" where
  "kTargets =
     [(''receipts'', [(''kind'', 98), (''total'', 98), (''purchase_date'', 95), (''merchant'', 90), (''item_category'', 80)]),
      (''payslips'', [(''kind'', 98), (''total'', 98), (''purchase_date'', 95), (''merchant'', 90)])]"

text \<open>\<open>m[key]\<close> followed by an update of the value it refers to.\<close>

definition map_at :: "'k::linorder \<Rightarrow> 'v \<Rightarrow> ('v \<Rightarrow> 'v) \<Rightarrow> ('k \<times> 'v) list \<Rightarrow> ('k \<times> 'v) list" where
  "map_at k v f m = (case map_of m k of Some x \<Rightarrow> AList.update k (f x) m | None \<Rightarrow> insort_key fst (k, f v) m)"

definition readFile :: "GoldenHost \<Rightarrow> string \<Rightarrow> error + string" where
  "readFile gh path = (case gh_read gh path of None \<Rightarrow> Inl (RuntimeError (''can't read '' @ path)) | Some s \<Rightarrow> Inr s)"

text \<open>\<open>path::parent_path\<close> and \<open>operator/\<close> of \<open>std::filesystem\<close>.\<close>

definition parent_path :: "string \<Rightarrow> string" where
  "parent_path p =
     (let dir = rev (dropWhile (\<lambda>c. c \<noteq> CHR ''/'') (rev p));
          trimmed = rev (dropWhile (\<lambda>c. c = CHR ''/'') (rev dir))
      in if dir \<noteq> [] \<and> trimmed = [] then ''/'' else trimmed)"

definition path_join :: "string \<Rightarrow> string \<Rightarrow> string" where
  "path_join dir name =
     (if name \<noteq> [] \<and> hd name = CHR ''/'' then name
      else if dir = [] \<or> last dir = CHR ''/'' then dir @ name
      else dir @ ''/'' @ name)"

section \<open>Comparing and printing\<close>

definition isalnum :: "char \<Rightarrow> bool" where
  "isalnum c \<longleftrightarrow> isalpha c \<or> isdigit c"

definition squash :: "string \<Rightarrow> string" where
  "squash s = map to_lower (filter isalnum s)"

definition merchantMatches :: "string \<Rightarrow> string option \<Rightarrow> bool" where
  "merchantMatches expected scanned =
     (case scanned of
        None \<Rightarrow> False
      | Some name \<Rightarrow>
          (let a = squash expected; b = squash name
           in a \<noteq> [] \<and> b \<noteq> [] \<and> (has_substr b a \<or> has_substr a b)))"

definition orNull :: "string option \<Rightarrow> json" where
  "orNull value = (case value of Some s \<Rightarrow> JString s | None \<Rightarrow> JNull)"

definition in_units :: "int \<Rightarrow> json" where
  "in_units n = JFloat (ddiv (double_of_int n) (double_of_int 100))"

definition expected_line :: "ScannedItem \<Rightarrow> json" where
  "expected_line item =
     (let line = jobject [(''name'', orNull (si_name item)), (''amount'', in_units (si_amountCents item)),
            (''category'', orNull (si_category item))];
          line = (case si_quantity item of Some q \<Rightarrow> jset line ''quantity'' (JFloat q) | None \<Rightarrow> line)
      in if si_informational item then jset line ''informational'' (JBool True) else line)"

definition asExpected :: "ScanResult \<Rightarrow> json" where
  "asExpected result =
     jobject [(''kind'', JString (sr_kind result)), (''total'', in_units (sr_totalCents result)),
       (''currency'', JString (sr_currency result)), (''purchase_date'', orNull (sr_purchaseDate result)),
       (''merchant'', orNull (sr_merchant result)), (''items'', JArray (map expected_line (sr_items result)))]"

fun unknown_items :: "nlohmann \<Rightarrow> ScanContext \<Rightarrow> json \<Rightarrow> json list \<Rightarrow> error + string list" where
  "unknown_items js context testCase [] = Inr []"
| "unknown_items js context testCase (item # items) =
     rbind (value_json js item ''category'' JNull) (\<lambda>category.
     rbind (if is_null category then Inr []
            else rbind (as_string js category) (\<lambda>name.
              if name \<in> set (sc_expenseCategories context) \<or> name \<in> set (sc_incomeCategories context) then Inr []
              else rbind (value_string js testCase ''id'' ''?'') (\<lambda>caseId.
                Inr [caseId @ '': unknown category '' @ [CHR 0x22] @ name @ [CHR 0x22]]))) (\<lambda>problem.
     rbind (unknown_items js context testCase items) (\<lambda>problems. Inr (problem @ problems))))"

fun unknown_cases :: "nlohmann \<Rightarrow> ScanContext \<Rightarrow> json list \<Rightarrow> error + string list" where
  "unknown_cases js context [] = Inr []"
| "unknown_cases js context (testCase # cases) =
     rbind (value_json js testCase ''expected'' (JObject [])) (\<lambda>expected.
     rbind (value_json js expected ''items'' (JArray [])) (\<lambda>items.
     rbind (unknown_items js context testCase (jelements items)) (\<lambda>problems.
     rbind (unknown_cases js context cases) (\<lambda>more. Inr (problems @ more)))))"

definition unknownCategories :: "nlohmann \<Rightarrow> json \<Rightarrow> ScanContext \<Rightarrow> error + string list" where
  "unknownCategories js golden context = rbind (jat js golden ''cases'') (\<lambda>cases. unknown_cases js context (jelements cases))"

definition utcStamp :: "instant \<Rightarrow> string" where
  "utcStamp now = fst (formatTimestamps (nat (now div 1000000)))"

section \<open>Scoring one case\<close>

record Scores =
  gs_tallies :: "(string \<times> (string \<times> Tally) list) list"   \<comment> \<open>group, field\<close>
  gs_currency :: "(string \<times> Tally) list"                    \<comment> \<open>group\<close>
  gs_misses :: "string list"

definition bump :: "bool \<Rightarrow> Tally \<Rightarrow> Tally" where
  "bump ok t = \<lparr>ta_correct = ta_correct t + (if ok then 1 else 0), ta_total = ta_total t + 1\<rparr>"

definition tally_field :: "string \<Rightarrow> string \<Rightarrow> bool \<Rightarrow> Scores \<Rightarrow> Scores" where
  "tally_field grp field ok s =
     s\<lparr>gs_tallies := map_at grp [] (map_at field Tally_init (bump ok)) (gs_tallies s)\<rparr>"

definition miss :: "string \<Rightarrow> Scores \<Rightarrow> Scores" where
  "miss what s = s\<lparr>gs_misses := gs_misses s @ [what]\<rparr>"

definition score :: "nlohmann \<Rightarrow> json \<Rightarrow> string \<Rightarrow> string \<Rightarrow> bool \<Rightarrow> string \<Rightarrow> Scores \<Rightarrow> error + Scores" where
  "score js expected grp field ok got s =
     (let counted = tally_field grp field ok s in
      if ok then Inr counted
      else rbind (jat js expected field) (\<lambda>want. rbind (nl_dump js want) (\<lambda>dump.
        Inr (miss (field @ '' expected '' @ dump @ '' got '' @ got) counted))))"

text \<open>\<open>result && test\<close>, and a text of the result or a dash.\<close>

definition if_scanned :: "ScanResult option \<Rightarrow> (ScanResult \<Rightarrow> error + bool) \<Rightarrow> error + bool" where
  "if_scanned result test = (case result of None \<Rightarrow> Inr False | Some r \<Rightarrow> test r)"

definition got_or_dash :: "ScanResult option \<Rightarrow> (ScanResult \<Rightarrow> string) \<Rightarrow> string" where
  "got_or_dash result f = (case result of None \<Rightarrow> ''-'' | Some r \<Rightarrow> f r)"

definition or_null :: "string option \<Rightarrow> string" where
  "or_null x = (case x of None \<Rightarrow> ''null'' | Some s \<Rightarrow> s)"

definition score_kind :: "nlohmann \<Rightarrow> json \<Rightarrow> string \<Rightarrow> ScanResult option \<Rightarrow> Scores \<Rightarrow> error + Scores" where
  "score_kind js expected grp result s =
     (case jfind expected ''kind'' of
        None \<Rightarrow> Inr s
      | Some want \<Rightarrow>
          rbind (if_scanned result (\<lambda>r. rbind (as_string js want) (\<lambda>kind. Inr (sr_kind r = kind)))) (\<lambda>ok.
          score js expected grp ''kind'' ok (got_or_dash result sr_kind) s))"

definition label_cents :: "nlohmann \<Rightarrow> host \<Rightarrow> json \<Rightarrow> error + int" where
  "label_cents js h amount = rbind (as_double js amount) (\<lambda>x. Inr (llround (h_llround h) (dmul x (double_of_int 100))))"

definition score_total ::
    "GoldenHost \<Rightarrow> nlohmann \<Rightarrow> host \<Rightarrow> json \<Rightarrow> string \<Rightarrow> ScanResult option \<Rightarrow> Scores \<Rightarrow> error + Scores" where
  "score_total gh js h expected grp result s =
     (case jfind expected ''total'' of
        None \<Rightarrow> Inr s
      | Some want \<Rightarrow>
          rbind (label_cents js h want) (\<lambda>cents.
          rbind (if_scanned result (\<lambda>r. Inr (sr_totalCents r = cents))) (\<lambda>ok.
          score js expected grp ''total'' ok
            (got_or_dash result (\<lambda>r. gh_to_string gh (ddiv (double_of_int (sr_totalCents r)) (double_of_int 100)))) s)))"

definition score_date :: "nlohmann \<Rightarrow> json \<Rightarrow> string \<Rightarrow> ScanResult option \<Rightarrow> Scores \<Rightarrow> error + Scores" where
  "score_date js expected grp result s =
     (case jfind expected ''purchase_date'' of
        None \<Rightarrow> Inr s
      | Some want \<Rightarrow>
          rbind (if_scanned result (\<lambda>r.
             if is_null want then Inr (sr_purchaseDate r = None)
             else rbind (as_string js want) (\<lambda>d. Inr (sr_purchaseDate r = Some d)))) (\<lambda>ok.
          score js expected grp ''purchase_date'' ok (got_or_dash result (\<lambda>r. or_null (sr_purchaseDate r))) s))"

definition score_merchant :: "nlohmann \<Rightarrow> json \<Rightarrow> string \<Rightarrow> ScanResult option \<Rightarrow> Scores \<Rightarrow> error + Scores" where
  "score_merchant js expected grp result s =
     (case jfind expected ''merchant'' of
        None \<Rightarrow> Inr s
      | Some want \<Rightarrow>
          rbind (if_scanned result (\<lambda>r.
             if is_null want then Inr (sr_merchant r = None)
             else rbind (as_string js want) (\<lambda>name. Inr (merchantMatches name (sr_merchant r))))) (\<lambda>ok.
          score js expected grp ''merchant'' ok (got_or_dash result (\<lambda>r. or_null (sr_merchant r))) s))"

subsection \<open>Items\<close>

text \<open>The inner loop: an unused scanned item of the same amount, preferring the same name.\<close>

fun find_match :: "int \<Rightarrow> string \<Rightarrow> nat \<Rightarrow> (ScannedItem \<times> bool) list \<Rightarrow> nat option \<Rightarrow> nat option" where
  "find_match amount wantName i [] found = found"
| "find_match amount wantName i ((item, used) # rest) found =
     find_match amount wantName (Suc i) rest
       (if used \<or> si_amountCents item \<noteq> amount then found
        else if found = None \<or> squash (case si_name item of Some n \<Rightarrow> n | None \<Rightarrow> []) = wantName then Some i
        else found)"

definition jindex :: "GoldenHost \<Rightarrow> json \<Rightarrow> string \<Rightarrow> error + json" where
  "jindex gh j key = (case jfind j key of Some v \<Rightarrow> Inr v | None \<Rightarrow> gh_missing gh key)"

fun is_string :: "json \<Rightarrow> bool" where
  "is_string (JString s) = True"
| "is_string j = False"

definition want_name :: "GoldenHost \<Rightarrow> nlohmann \<Rightarrow> json \<Rightarrow> error + string" where
  "want_name gh js want =
     rbind (value_json js want ''name'' (JString [])) (\<lambda>name.
     rbind (if is_string name then rbind (jindex gh want ''name'') (as_string js) else Inr []) (\<lambda>s. Inr (squash s)))"

definition item_label :: "GoldenHost \<Rightarrow> nlohmann \<Rightarrow> json \<Rightarrow> error + string" where
  "item_label gh js want =
     rbind (rbind (value_json js want ''name'' (JString ''item'')) (nl_dump js)) (\<lambda>name.
     rbind (rbind (jindex gh want ''amount'') (nl_dump js)) (\<lambda>amount. Inr (name @ '' '' @ amount)))"

definition score_quantity :: "nlohmann \<Rightarrow> string \<Rightarrow> string \<Rightarrow> json \<Rightarrow> ScannedItem \<Rightarrow> Scores \<Rightarrow> error + Scores" where
  "score_quantity js grp label want item s =
     (case jfind want ''quantity'' of
        None \<Rightarrow> Inr s
      | Some wantQuantity \<Rightarrow>
          rbind (if is_null wantQuantity then Inr (si_quantity item = None)
                 else case si_quantity item of
                        None \<Rightarrow> Inr False
                      | Some got \<Rightarrow> rbind (as_double js wantQuantity) (\<lambda>q. Inr (deq got q))) (\<lambda>ok.
          if ok then Inr (tally_field grp ''item_quantity'' True s)
          else rbind (nl_dump js wantQuantity) (\<lambda>wanted.
               rbind (case si_quantity item of Some got \<Rightarrow> nl_dump js (JFloat got) | None \<Rightarrow> Inr ''null'') (\<lambda>got.
               Inr (miss (''item '' @ label @ '' quantity expected '' @ wanted @ '' got '' @ got)
                      (tally_field grp ''item_quantity'' False s))))))"

definition score_category :: "nlohmann \<Rightarrow> string \<Rightarrow> string \<Rightarrow> json \<Rightarrow> ScannedItem \<Rightarrow> Scores \<Rightarrow> error + Scores" where
  "score_category js grp label want item s =
     rbind (value_bool js want ''informational'' False) (\<lambda>informational.
     if informational then Inr s
     else
     rbind (value_json js want ''category'' JNull) (\<lambda>wantCategory.
     rbind (if is_null wantCategory then Inr (si_category item = None)
            else rbind (as_string js wantCategory) (\<lambda>c. Inr (si_category item = Some c))) (\<lambda>ok.
     if ok then Inr (tally_field grp ''item_category'' True s)
     else rbind (nl_dump js wantCategory) (\<lambda>wanted.
          Inr (miss (''item '' @ label @ '' category expected '' @ wanted @ '' got '' @ or_null (si_category item))
                 (tally_field grp ''item_category'' False s))))))"

text \<open>The loop over the labelled items, with the flags of the scanned items that are taken.\<close>

fun score_labels ::
    "GoldenHost \<Rightarrow> nlohmann \<Rightarrow> host \<Rightarrow> string \<Rightarrow> ScannedItem list \<Rightarrow> json list \<Rightarrow> bool list \<Rightarrow> Scores \<Rightarrow>
     error + (bool list \<times> Scores)" where
  "score_labels gh js h grp items [] used s = Inr (used, s)"
| "score_labels gh js h grp items (want # wants) used s =
     rbind (rbind (jat js want ''amount'') (label_cents js h)) (\<lambda>cents.
     rbind (want_name gh js want) (\<lambda>wantName.
     rbind (item_label gh js want) (\<lambda>label.
     case find_match cents wantName 0 (zip items used) None of
       None \<Rightarrow>
         score_labels gh js h grp items wants used
           (miss (''item '' @ label @ '' not found'') (tally_field grp ''items_found'' False s))
     | Some i \<Rightarrow>
         rbind (score_quantity js grp label want (items ! i) (tally_field grp ''items_found'' True s)) (\<lambda>s1.
         rbind (score_category js grp label want (items ! i) s1) (\<lambda>s2.
         score_labels gh js h grp items wants (used[i := True]) s2)))))"

definition score_items ::
    "GoldenHost \<Rightarrow> nlohmann \<Rightarrow> host \<Rightarrow> json \<Rightarrow> string \<Rightarrow> ScanResult option \<Rightarrow> Scores \<Rightarrow> error + Scores" where
  "score_items gh js h expected grp result s =
     (case jfind expected ''items'' of
        None \<Rightarrow> Inr s
      | Some wants \<Rightarrow>
          let items = (case result of None \<Rightarrow> [] | Some r \<Rightarrow> sr_items r) in
          rbind (score_labels gh js h grp items (jelements wants) (map (\<lambda>_. False) items) s) (\<lambda>(used, s1).
          let extra = length (filter Not used) in
          Inr (if 0 < extra
               then miss (nat_to_string extra @ '' scanned item(s) with no labelled match'') s1 else s1)))"

definition score_currency :: "nlohmann \<Rightarrow> json \<Rightarrow> string \<Rightarrow> ScanResult option \<Rightarrow> Scores \<Rightarrow> error + Scores" where
  "score_currency js expected grp result s =
     (case jfind expected ''currency'' of
        None \<Rightarrow> Inr s
      | Some want \<Rightarrow>
          rbind (if_scanned result (\<lambda>r. rbind (as_string js want) (\<lambda>c. Inr (sr_currency r = c)))) (\<lambda>ok.
          let counted = s\<lparr>gs_currency := map_at grp Tally_init (bump ok) (gs_currency s)\<rparr> in
          if ok then Inr counted
          else rbind (nl_dump js want) (\<lambda>dump.
            Inr (miss (''currency expected '' @ dump @ '' got '' @ got_or_dash result sr_currency) counted))))"

definition score_case ::
    "GoldenHost \<Rightarrow> nlohmann \<Rightarrow> host \<Rightarrow> json \<Rightarrow> string \<Rightarrow> ScanResult option \<Rightarrow> Scores \<Rightarrow> error + Scores" where
  "score_case gh js h expected grp result s =
     rbind (score_kind js expected grp result s) (\<lambda>s.
     rbind (score_total gh js h expected grp result s) (\<lambda>s.
     rbind (score_date js expected grp result s) (\<lambda>s.
     rbind (score_merchant js expected grp result s) (\<lambda>s.
     rbind (score_items gh js h expected grp result s) (\<lambda>s.
     score_currency js expected grp result s)))))"

section \<open>Scanning one case\<close>

definition as_int32 :: "GoldenHost \<Rightarrow> nlohmann \<Rightarrow> json \<Rightarrow> error + int" where
  "as_int32 gh js j =
     (case j of
        JInteger i \<Rightarrow> Inr (sint (ucast i :: 32 word))
      | JUnsigned u \<Rightarrow> Inr (sint (ucast u :: 32 word))
      | JFloat d \<Rightarrow> Inr (int_of_double (gh_to_int gh) d)
      | JBool b \<Rightarrow> Inr (if b then 1 else 0)
      | _ \<Rightarrow> type_error js ''number'' j)"

text \<open>\<open>addUsage\<close>: the counters it leaves, and the exception if it throws.\<close>

definition addUsage :: "GoldenHost \<Rightarrow> nlohmann \<Rightarrow> json \<Rightarrow> int \<times> int \<Rightarrow> (int \<times> int) \<times> error option" where
  "addUsage gh js raw tokens =
     (case rbind (jat js raw ''usage'') (\<lambda>usage. value_or js usage ''input_tokens'' (as_int32 gh js) 0) of
        Inl e \<Rightarrow> (tokens, Some e)
      | Inr i \<Rightarrow>
          (case rbind (jat js raw ''usage'') (\<lambda>usage. value_or js usage ''output_tokens'' (as_int32 gh js) 0) of
             Inl e \<Rightarrow> ((fst tokens + i, snd tokens), Some e)
           | Inr n \<Rightarrow> ((fst tokens + i, snd tokens + n), None)))"

definition add_usages :: "GoldenHost \<Rightarrow> nlohmann \<Rightarrow> json \<Rightarrow> int \<times> int \<Rightarrow> (int \<times> int) \<times> error option" where
  "add_usages gh js raw tokens =
     (case addUsage gh js raw tokens of
        (tokens1, Some e) \<Rightarrow> (tokens1, Some e)
      | (tokens1, None) \<Rightarrow>
          (case jfind raw ''first_scan'' of None \<Rightarrow> (tokens1, None) | Some first \<Rightarrow> addUsage gh js first tokens1))"

definition load_images :: "GoldenHost \<Rightarrow> nlohmann \<Rightarrow> host \<Rightarrow> string \<Rightarrow> json \<Rightarrow> error + string list" where
  "load_images gh js h baseDir testCase =
     rbind (jat js testCase ''images'') (\<lambda>names.
     rmap (\<lambda>name. rbind (as_string js name) (\<lambda>file.
       rbind (readFile gh (path_join baseDir file)) (\<lambda>bytes.
       rbind (normalize_image h bytes) (\<lambda>normalized. Inr (ni_bytes normalized))))) (jelements names))"

text \<open>The try block: the scan if there is one, and the exception that ended it.\<close>

definition scan_case ::
    "GoldenHost \<Rightarrow> ApiHost \<Rightarrow> host \<Rightarrow> AnthropicConfig \<Rightarrow> ScanContext \<Rightarrow> string \<Rightarrow> json \<Rightarrow> (error + ScanResult) act" where
  "scan_case gh ah h config context baseDir testCase =
     tryM (bindM (lift (load_images gh (ah_json ah) h baseDir testCase)) (\<lambda>images.
           bindM (scanReceipt ah h config images context) (\<lambda>r. ret (Inr r))))
       (\<lambda>e. ret (Inl e))"

fun is_empty_json :: "json \<Rightarrow> bool" where
  "is_empty_json JNull = True"
| "is_empty_json (JArray xs) = (xs = [])"
| "is_empty_json (JObject ms) = (ms = [])"
| "is_empty_json _ = False"

definition first_image :: "nlohmann \<Rightarrow> json \<Rightarrow> error + string" where
  "first_image js testCase =
     rbind (jat js testCase ''images'') (\<lambda>images.
     case images of
       JArray (x # _) \<Rightarrow> as_string js x
     | JArray [] \<Rightarrow> Inl (JsonException (nl_key_what js ''0''))
     | _ \<Rightarrow> type_error js ''at'' images)"

record GoldenState =
  gr_scores :: Scores
  gr_tokens :: "int \<times> int"       \<comment> \<open>input, output\<close>
  gr_cases :: "json list"
  gr_out :: string

definition GoldenState_init :: GoldenState where
  "GoldenState_init = \<lparr>gr_scores = \<lparr>gs_tallies = [], gs_currency = [], gs_misses = []\<rparr>, gr_tokens = (0, 0),
     gr_cases = [], gr_out = []\<rparr>"

text \<open>The record of a case in the results file.\<close>

definition case_record :: "string \<Rightarrow> json \<Rightarrow> error + ScanResult \<Rightarrow> error option \<Rightarrow> json" where
  "case_record caseId images scan thrown =
     (let record = jobject [(''id'', JString caseId), (''images'', images)] in
      case thrown of
        Some e \<Rightarrow> jset record ''error'' (JString (what_of e))
      | None \<Rightarrow> (case scan of
            Inl e \<Rightarrow> jset record ''error'' (JString (what_of e))
          | Inr r \<Rightarrow> jset (jset record ''expected'' (asExpected r)) ''raw'' (sr_raw r)))"

definition labelled_case :: "nlohmann \<Rightarrow> json \<Rightarrow> json \<Rightarrow> error + bool" where
  "labelled_case js testCase expected =
     (if is_empty_json expected then Inr False else value_bool js testCase ''checked'' True)"

definition misses_text :: "string list \<Rightarrow> string" where
  "misses_text misses = (if misses = [] then ''ok'' else []) @ nl @ concat (map (\<lambda>m. ''    '' @ m @ nl) misses)"

text \<open>What follows the try block: printing, and scoring when a person has checked the labels.\<close>

definition finish_case ::
    "GoldenHost \<Rightarrow> nlohmann \<Rightarrow> host \<Rightarrow> string \<Rightarrow> json \<Rightarrow> bool \<Rightarrow> string \<Rightarrow> json \<Rightarrow> error + ScanResult \<Rightarrow> error option \<Rightarrow>
     GoldenState \<Rightarrow> error + GoldenState" where
  "finish_case gh js h caseId expected labelled grp record scan thrown g =
     (let result = (case scan of Inl _ \<Rightarrow> None | Inr r \<Rightarrow> Some r);
          heading = caseId @ '': '' @
            (case result of Some r \<Rightarrow> if jcontains (sr_raw r) ''first_scan'' then ''(rescanned: items didn't add up) '' else []
             | None \<Rightarrow> []);
          g = g\<lparr>gr_cases := gr_cases g @ [record]\<rparr>
      in rbind (case scan of
                  Inl e \<Rightarrow> Inr (''ERROR '' @ what_of e @ nl)
                | Inr _ \<Rightarrow> if labelled then Inr []
                    else rbind (nl_dump js (case jfind record ''expected'' of Some v \<Rightarrow> v | None \<Rightarrow> JNull)) (\<lambda>dump.
                      Inr (''not scored -> '' @ dump @ nl))) (\<lambda>line.
         let g = g\<lparr>gr_out := gr_out g @ heading @ line\<rparr> in
         if \<not> labelled then Inr g
         else rbind (score_case gh js h expected grp result (gr_scores g\<lparr>gs_misses := []\<rparr>)) (\<lambda>s.
           Inr (g\<lparr>gr_scores := s\<lparr>gs_misses := []\<rparr>, gr_out := gr_out g @ misses_text (gs_misses s)\<rparr>))))"

definition golden_case ::
    "GoldenHost \<Rightarrow> ApiHost \<Rightarrow> host \<Rightarrow> AnthropicConfig \<Rightarrow> ScanContext \<Rightarrow> string \<Rightarrow> json \<Rightarrow> GoldenState \<Rightarrow> GoldenState act" where
  "golden_case gh ah h config context baseDir testCase g =
     (let js = ah_json ah in
      bindM (lift (rbind (first_image js testCase) (value_string js testCase ''id''))) (\<lambda>caseId.
      bindM (lift (value_json js testCase ''expected'' (JObject []))) (\<lambda>expected.
      bindM (lift (labelled_case js testCase expected)) (\<lambda>labelled.
      bindM (lift (value_string js expected ''kind'' [])) (\<lambda>kind.
      bindM (lift (jat js testCase ''images'')) (\<lambda>images.
      bindM (scan_case gh ah h config context baseDir testCase) (\<lambda>scan.
      let (tokens, thrown) = (case scan of Inl _ \<Rightarrow> (gr_tokens g, None) | Inr r \<Rightarrow> add_usages gh js (sr_raw r) (gr_tokens g));
          grp = (if kind = ''income'' then ''payslips'' else ''receipts'')
      in lift (finish_case gh js h caseId expected labelled grp (case_record caseId images scan thrown) scan thrown
                 (g\<lparr>gr_tokens := tokens\<rparr>)))))))))"

fun golden_cases ::
    "GoldenHost \<Rightarrow> ApiHost \<Rightarrow> host \<Rightarrow> AnthropicConfig \<Rightarrow> ScanContext \<Rightarrow> string \<Rightarrow> json list \<Rightarrow> GoldenState \<Rightarrow> GoldenState act" where
  "golden_cases gh ah h config context baseDir [] g = ret g"
| "golden_cases gh ah h config context baseDir (testCase # cases) g =
     bindM (golden_case gh ah h config context baseDir testCase g) (\<lambda>g. golden_cases gh ah h config context baseDir cases g)"

section \<open>The report and the program\<close>

text \<open>\<open>std::left << std::setw(n)\<close>.\<close>

definition setw :: "nat \<Rightarrow> string \<Rightarrow> string" where
  "setw n s = s @ replicate (n - length s) (CHR '' '')"

definition percent :: "Tally \<Rightarrow> double" where
  "percent t = ddiv (dmul (double_of_int 100) (double_of_int (ta_correct t))) (double_of_int (ta_total t))"

definition meets :: "Tally \<Rightarrow> int \<Rightarrow> bool" where
  "meets t target \<longleftrightarrow> percent t \<noteq> NaN \<and> \<not> dless (percent t) (double_of_int target)"

definition field_line :: "GoldenHost \<Rightarrow> string \<Rightarrow> (string \<times> int) list \<Rightarrow> string \<times> Tally \<Rightarrow> string" where
  "field_line gh grp targets ft =
     (case ft of (field, t) \<Rightarrow>
        setw 10 grp @ setw 15 field @ setw 12 (to_string (ta_correct t) @ ''/'' @ to_string (ta_total t)) @
        gh_print gh True 0 (percent t) @ ''%'' @
        (case map_of targets field of
           Some target \<Rightarrow> '' (target '' @ to_string target @ ''%)'' @ (if meets t target then [] else ''  BELOW'')
         | None \<Rightarrow> '' (no target)'') @ nl)"

text \<open>\<open>kTargets.at(group)\<close> throws for a group without targets; it is read once per line.\<close>

definition group_lines :: "GoldenHost \<Rightarrow> string \<times> (string \<times> Tally) list \<Rightarrow> error + string" where
  "group_lines gh gf =
     (case gf of (grp, rows) \<Rightarrow>
        if rows = [] then Inr []
        else case map_of kTargets grp of
               None \<Rightarrow> Inl (OutOfRange ''map::at'')
             | Some targets \<Rightarrow> Inr (concat (map (field_line gh grp targets) rows)))"

definition currency_line :: "string \<times> Tally \<Rightarrow> string" where
  "currency_line ct =
     (case ct of (grp, t) \<Rightarrow>
        setw 10 grp @ setw 15 ''currency'' @ to_string (ta_correct t) @ ''/'' @ to_string (ta_total t) @ '' (no target)'' @ nl)"

definition scan_cost :: "int \<times> int \<Rightarrow> double" where
  "scan_cost tokens =
     dadd (dmul (ddiv (double_of_int (fst tokens)) (double_of_int 1000000)) kInputPerMTok)
          (dmul (ddiv (double_of_int (snd tokens)) (double_of_int 1000000)) kOutputPerMTok)"

definition report :: "GoldenHost \<Rightarrow> GoldenState \<Rightarrow> error + string" where
  "report gh g =
     rbind (rmap (group_lines gh) (gs_tallies (gr_scores g))) (\<lambda>lines.
     Inr (nl @ setw 10 ''group'' @ setw 15 ''field'' @ setw 12 ''accuracy'' @ ''target'' @ nl @
          concat lines @ concat (map currency_line (gs_currency (gr_scores g))) @
          nl @ ''tokens: '' @ to_string (fst (gr_tokens g)) @ '' in, '' @ to_string (snd (gr_tokens g)) @ '' out; ~$'' @
          gh_print gh (gs_tallies (gr_scores g) \<noteq> []) 4 (scan_cost (gr_tokens g)) @ '' at Haiku 5.5 list price'' @ nl))"

definition results_json :: "AnthropicConfig \<Rightarrow> json list \<Rightarrow> json" where
  "results_json config cases =
     jobject [(''model'', JString (ac_model config)), (''effort'', JString (ac_effort config)), (''cases'', JArray cases)]"

definition golden_context :: ScanContext where
  "golden_context = \<lparr>sc_knownKind = None, sc_expenseCategories = kExpenseCategories, sc_incomeCategories = kIncomeCategories,
     sc_tags = []\<rparr>"

record GoldenOutput =
  go_exit :: int
  go_cout :: string
  go_cerr :: string
  go_file :: "(string \<times> string) option"      \<comment> \<open>the results file and its text\<close>

definition refused :: "string \<Rightarrow> GoldenOutput" where
  "refused message = \<lparr>go_exit = 2, go_cout = [], go_cerr = message, go_file = None\<rparr>"

definition write_results ::
    "GoldenHost \<Rightarrow> AnthropicConfig \<Rightarrow> string \<Rightarrow> instant \<Rightarrow> GoldenState \<Rightarrow> error + GoldenOutput" where
  "write_results gh config baseDir now g =
     rbind (report gh g) (\<lambda>table.
     rbind (gh_dump2 gh (results_json config (gr_cases g))) (\<lambda>dump.
     let resultsPath = path_join baseDir (''results-'' @ utcStamp now @ ''.json'') in
     Inr \<lparr>go_exit = 0, go_cout = gr_out g @ table @ ''wrote '' @ resultsPath @ nl, go_cerr = [],
          go_file = Some (resultsPath, dump @ nl)\<rparr>))"

definition golden_main :: "GoldenHost \<Rightarrow> ApiHost \<Rightarrow> host \<Rightarrow> string list \<Rightarrow> GoldenOutput act" where
  "golden_main gh ah h argv =
     (let js = ah_json ah in
      if length argv \<noteq> 2 then ret (refused (''usage: golden_harness <golden.json>'' @ nl))
      else
      bindM (lift (rbind (readFile gh (argv ! 1)) (parse_or_throw js))) (\<lambda>golden.
      bindM (lift (AnthropicConfig_fromEnv h)) (\<lambda>config.
      bindM (lift (unknownCategories js golden golden_context)) (\<lambda>problems.
      if problems \<noteq> []
      then ret (refused (concat (map (\<lambda>p. p @ nl) problems) @ ''fix these labels first (no API calls were made)'' @ nl))
      else
      bindM (lift (jat js golden ''cases'')) (\<lambda>cases.
      bindM (golden_cases gh ah h config golden_context (parent_path (argv ! 1)) (jelements cases) GoldenState_init) (\<lambda>g.
      (\<lambda>w. lift (write_results gh config (parent_path (argv ! 1)) (w_now w) g) w)))))))"

end
