(* ===== verification/GoldenScores.thy ===== *)
theory GoldenScores
  imports Golden "HOL-Library.Multiset"
begin

text \<open>
  What the scores of the golden-set harness mean. Pairing labelled with scanned items greedily finds as
  many as any pairing of equal amounts could, and a case labelled with the draft that the harness wrote for
  a scan scores that scan in full.
\<close>

section \<open>Counters\<close>

definition tally_of :: "Scores \<Rightarrow> string \<Rightarrow> string \<Rightarrow> Tally" where
  "tally_of s grp field =
     (case map_of (gs_tallies s) grp of
        None \<Rightarrow> Tally_init
      | Some rows \<Rightarrow> (case map_of rows field of None \<Rightarrow> Tally_init | Some t \<Rightarrow> t))"

lemma map_of_insort: "map_of m k = None \<Longrightarrow> map_of (insort_key fst (k, x) m) = (map_of m)(k \<mapsto> x)"
  by (induction m) (auto simp: fun_eq_iff split: if_splits)

lemma map_of_map_at:
  "map_of (map_at k v f m) = (map_of m)(k \<mapsto> f (case map_of m k of None \<Rightarrow> v | Some x \<Rightarrow> x))"
  by (auto simp: map_at_def map_of_insort update_conv' split: option.splits)

lemma tally_of_field:
  "tally_of (tally_field g f ok s) grp field =
     (if grp = g \<and> field = f then bump ok (tally_of s grp field) else tally_of s grp field)"
  by (auto simp: tally_of_def tally_field_def map_of_map_at split: option.splits)

lemma tally_of_frame [simp]:
  "tally_of (miss what s) = tally_of s" "tally_of (s\<lparr>gs_currency := c\<rparr>) = tally_of s"
  "tally_of (s\<lparr>gs_misses := ms\<rparr>) = tally_of s"
  by (simp_all add: tally_of_def miss_def fun_eq_iff)

lemma currency_frame [simp]:
  "gs_currency (miss what s) = gs_currency s" "gs_currency (tally_field g f ok s) = gs_currency s"
  by (simp_all add: miss_def tally_field_def)

lemma bump_sel [simp]:
  "ta_total (bump ok t) = ta_total t + 1" "ta_correct (bump ok t) = ta_correct t + (if ok then 1 else 0)"
  by (simp_all add: bump_def)

section \<open>Pairing\<close>

text \<open>The amounts of the scanned items that are not taken yet.\<close>

definition open_amounts :: "ScannedItem list \<Rightarrow> bool list \<Rightarrow> int multiset" where
  "open_amounts items used = mset (map (si_amountCents \<circ> fst) (filter (Not \<circ> snd) (zip items used)))"

lemma find_match_Some:
  assumes "find_match a n i zs found = Some j"
  shows "found = Some j \<or> (\<exists>k < length zs. j = i + k \<and> \<not> snd (zs ! k) \<and> si_amountCents (fst (zs ! k)) = a)"
  using assms
proof (induction zs arbitrary: i found)
  case (Cons z zs)
  obtain item used where z: "z = (item, used)" by force
  let ?found = "if used \<or> si_amountCents item \<noteq> a then found
      else if found = None \<or> squash (case si_name item of Some n \<Rightarrow> n | None \<Rightarrow> []) = n then Some i else found"
  have "?found = Some j \<or> (\<exists>k < length zs. j = Suc i + k \<and> \<not> snd (zs ! k) \<and> si_amountCents (fst (zs ! k)) = a)"
    using Cons.IH [OF Cons.prems [unfolded z find_match.simps]] .
  then show ?case
  proof
    assume "?found = Some j"
    then have "found = Some j \<or> (j = i \<and> \<not> used \<and> si_amountCents item = a)" by (auto split: if_splits)
    then show ?thesis by (auto simp: z)
  next
    assume "\<exists>k < length zs. j = Suc i + k \<and> \<not> snd (zs ! k) \<and> si_amountCents (fst (zs ! k)) = a"
    then obtain k where "k < length zs" "j = Suc i + k" "\<not> snd (zs ! k)" "si_amountCents (fst (zs ! k)) = a" by blast
    then show ?thesis by (intro disjI2 exI [of _ "Suc k"]) simp
  qed
qed simp

lemma find_match_None:
  "find_match a n i zs found = None \<longleftrightarrow> found = None \<and> (\<forall>z \<in> set zs. \<not> snd z \<longrightarrow> si_amountCents (fst z) \<noteq> a)"
  by (induction a n i zs found rule: find_match.induct) auto

lemma open_amounts_take:
  assumes "length used = length items" and "i < length items" and "\<not> used ! i"
  shows "open_amounts items used = add_mset (si_amountCents (items ! i)) (open_amounts items (used[i := True]))"
  using assms
proof (induction items arbitrary: used i)
  case (Cons item items)
  obtain u us where used: "used = u # us" using Cons.prems(1) by (cases used) auto
  show ?case
  proof (cases i)
    case 0
    then show ?thesis using Cons.prems by (simp add: used open_amounts_def)
  next
    case (Suc k)
    then show ?thesis using Cons.IH [of us k] Cons.prems by (simp add: used open_amounts_def)
  qed
qed simp

lemma pairing_step:
  assumes "length used = length items"
  shows "case find_match a n 0 (zip items used) None of
      None \<Rightarrow> a \<notin># open_amounts items used
    | Some i \<Rightarrow> i < length items \<and> open_amounts items used = add_mset a (open_amounts items (used[i := True]))"
proof (cases "find_match a n 0 (zip items used) None")
  case None
  then have "\<forall>z \<in> set (zip items used). \<not> snd z \<longrightarrow> si_amountCents (fst z) \<noteq> a" by (simp add: find_match_None)
  then show ?thesis using None by (force simp: open_amounts_def)
next
  case (Some i)
  then show ?thesis using find_match_Some [OF Some] open_amounts_take [OF assms, of i] assms by auto
qed

lemma quantity_found: "score_quantity js g l want item s = Inr s' \<Longrightarrow> tally_of s' grp ''items_found'' = tally_of s grp ''items_found''"
  by (auto simp: score_quantity_def res_simps tally_of_field split: option.splits if_splits)

lemma category_found: "score_category js g l want item s = Inr s' \<Longrightarrow> tally_of s' grp ''items_found'' = tally_of s grp ''items_found''"
  by (auto simp: score_category_def res_simps tally_of_field split: if_splits)

definition labelled_cents :: "nlohmann \<Rightarrow> host \<Rightarrow> json list \<Rightarrow> error + int list" where
  "labelled_cents js h wants = rmap (\<lambda>want. rbind (jat js want ''amount'') (label_cents js h)) wants"

lemma score_labels_found:
  assumes "score_labels gh js h grp items wants used s = Inr (used', s')" and "length used = length items"
  shows "length used' = length items \<and> (\<exists>cs. labelled_cents js h wants = Inr cs \<and>
     open_amounts items used' = open_amounts items used - mset cs \<and>
     ta_total (tally_of s' grp ''items_found'') = ta_total (tally_of s grp ''items_found'') + int (length wants) \<and>
     ta_correct (tally_of s' grp ''items_found'') =
       ta_correct (tally_of s grp ''items_found'') + int (size (mset cs \<inter># open_amounts items used)))"
  using assms
proof (induction wants arbitrary: used s)
  case Nil
  then show ?case by (simp add: labelled_cents_def)
next
  case (Cons want wants)
  let ?F = "open_amounts items used"
  obtain c n l where c: "rbind (jat js want ''amount'') (label_cents js h) = Inr c"
    and n: "want_name gh js want = Inr n" and l: "item_label gh js want = Inr l"
    using Cons.prems(1) by (auto simp: rbind_eq_Inr)
  have run: "(case find_match c n 0 (zip items used) None of
       None \<Rightarrow> score_labels gh js h grp items wants used
           (miss (''item '' @ l @ '' not found'') (tally_field grp ''items_found'' False s))
     | Some i \<Rightarrow> rbind (score_quantity js grp l want (items ! i) (tally_field grp ''items_found'' True s)) (\<lambda>s1.
         rbind (score_category js grp l want (items ! i) s1) (\<lambda>s2.
         score_labels gh js h grp items wants (used[i := True]) s2))) = Inr (used', s')"
    using Cons.prems(1) by (simp add: c n l)
  have labels: "labelled_cents js h (want # wants) = Inr (c # cs)" if "labelled_cents js h wants = Inr cs" for cs
    using that c by (simp add: labelled_cents_def)
  note step = pairing_step [OF Cons.prems(2), of c n]
  show ?case
  proof (cases "find_match c n 0 (zip items used) None")
    case None
    then have F: "c \<notin># ?F" using step by simp
    from Cons.IH [OF _ Cons.prems(2)] run None obtain cs where
      "length used' = length items" "labelled_cents js h wants = Inr cs" "open_amounts items used' = ?F - mset cs"
      "ta_total (tally_of s' grp ''items_found'') = ta_total (tally_of s grp ''items_found'') + 1 + int (length wants)"
      "ta_correct (tally_of s' grp ''items_found'') = ta_correct (tally_of s grp ''items_found'') + int (size (mset cs \<inter># ?F))"
      by (fastforce simp: tally_of_field)
    then show ?thesis using F labels by (auto simp: inter_add_left1 minus_add_mset_if_not_in_lhs)
  next
    case (Some i)
    then have F: "?F = add_mset c (open_amounts items (used[i := True]))" using step by simp
    obtain s1 s2 where s1: "score_quantity js grp l want (items ! i) (tally_field grp ''items_found'' True s) = Inr s1"
      and s2: "score_category js grp l want (items ! i) s1 = Inr s2"
      and rest: "score_labels gh js h grp items wants (used[i := True]) s2 = Inr (used', s')"
      using run Some by (auto simp: rbind_eq_Inr)
    have "tally_of s2 grp ''items_found'' = bump True (tally_of s grp ''items_found'')"
      using quantity_found [OF s1, of grp] category_found [OF s2, of grp] by (simp add: tally_of_field)
    then show ?thesis
      using Cons.IH [OF rest] Cons.prems(2) F labels by (auto simp: inter_add_left2)
  qed
qed

lemma size_open:
  assumes "length used = length items"
  shows "size (open_amounts items used) = length (filter Not used)"
proof -
  have "length (filter (Not \<circ> snd) (zip items used)) = length (filter Not used)"
    using assms by (induction used items rule: list_induct2) auto
  then show ?thesis unfolding open_amounts_def size_mset length_map .
qed

lemma open_initially: "open_amounts items (map (\<lambda>_. False) items) = mset (map si_amountCents items)"
  unfolding open_amounts_def by (induction items) auto

definition items_of :: "ScanResult option \<Rightarrow> ScannedItem list" where
  "items_of result = (case result of None \<Rightarrow> [] | Some r \<Rightarrow> sr_items r)"

text \<open>C36: Scoring the items of a case pairs labelled with scanned items, each scanned item with one label at
  most, and finds as many labels as any pairing of equal amounts can: the size of the intersection of the two
  multisets of amounts. The scanned items left over are counted in the last miss. Preferring an item of the same name
  never costs a match.\<close>

theorem pairing_is_maximal:
  assumes "score_items gh js h expected grp result s = Inr s'" and "jfind expected ''items'' = Some wants"
  shows "\<exists>cs found. labelled_cents js h (jelements wants) = Inr cs \<and>
     found = size (mset cs \<inter># mset (map si_amountCents (items_of result))) \<and>
     ta_total (tally_of s' grp ''items_found'') = ta_total (tally_of s grp ''items_found'') + int (length cs) \<and>
     ta_correct (tally_of s' grp ''items_found'') = ta_correct (tally_of s grp ''items_found'') + int found \<and>
     (found < length (items_of result) \<longrightarrow>
        last (gs_misses s') = nat_to_string (length (items_of result) - found) @ '' scanned item(s) with no labelled match'')"
proof -
  let ?items = "items_of result" and ?F = "mset (map si_amountCents (items_of result))"
  obtain used s1 where run: "score_labels gh js h grp ?items (jelements wants) (map (\<lambda>_. False) ?items) s = Inr (used, s1)"
    and s': "s' = (if 0 < length (filter Not used)
        then miss (nat_to_string (length (filter Not used)) @ '' scanned item(s) with no labelled match'') s1 else s1)"
    using assms by (auto simp: score_items_def items_of_def Let_def rbind_eq_Inr split: prod.splits)
  from score_labels_found [OF run] obtain cs where cs: "length used = length ?items"
      "labelled_cents js h (jelements wants) = Inr cs" "open_amounts ?items used = ?F - mset cs"
      "ta_total (tally_of s1 grp ''items_found'') = ta_total (tally_of s grp ''items_found'') + int (length (jelements wants))"
      "ta_correct (tally_of s1 grp ''items_found'') = ta_correct (tally_of s grp ''items_found'') + int (size (mset cs \<inter># ?F))"
    unfolding open_initially by auto
  have "length cs = length (jelements wants)"
    using cs(2) by (auto simp: labelled_cents_def rmap_eq_Inr dest: list_all2_lengthD)
  moreover have "length (filter Not used) = length ?items - size (mset cs \<inter># ?F)"
    using size_open [OF cs(1)] by (simp add: cs(3) size_Diff_subset_Int subset_mset.inf.commute [of "mset cs"])
  moreover have "tally_of s' = tally_of s1" by (simp add: s')
  ultimately show ?thesis using cs by (auto simp: s' miss_def)
qed

text \<open>Three labels, of which two have an item of their amount.\<close>

definition sample_json :: nlohmann where
  "sample_json = \<lparr>nl_parse = (\<lambda>_. JDiscarded), nl_parse_what = (\<lambda>_. []), nl_key_what = id, nl_type_what = (\<lambda>op _. op),
     nl_dump = (\<lambda>_. Inr ''v'')\<rparr>"

definition sample_golden :: GoldenHost where
  "sample_golden = \<lparr>gh_read = (\<lambda>_. None), gh_missing = (\<lambda>_. Inr JNull), gh_to_int = (\<lambda>_. 0), gh_to_string = (\<lambda>_. []),
     gh_print = (\<lambda>_ _ _. []), gh_dump2 = (\<lambda>_. Inr [])\<rparr>"

definition no_scores :: Scores where
  "no_scores = \<lparr>gs_tallies = [], gs_currency = [], gs_misses = []\<rparr>"

definition sample_scan :: ScanResult where
  "sample_scan = ScanResult_init\<lparr>sr_kind := ''purchase'', sr_totalCents := 1050, sr_merchant := Some ''Bi-Lo'', sr_items :=
     [ScannedItem_init\<lparr>si_name := Some ''Tea'', si_amountCents := 400\<rparr>, ScannedItem_init\<lparr>si_amountCents := 250\<rparr>,
      ScannedItem_init\<lparr>si_name := Some ''Bun'', si_amountCents := 400\<rparr>]\<rparr>"

definition sample_labels :: json where
  "sample_labels = jobject [(''items'', JArray (map (\<lambda>(name, n). jobject [(''name'', JString name), (''amount'', JUnsigned n)])
     [(''Bun'', 4), (''Jam'', 7), (''Tea'', 4)]))]"

theorem pairing_is_maximal_witness:
  "\<exists>s'. score_items sample_golden sample_json sample_host sample_labels ''receipts'' (Some sample_scan) no_scores = Inr s' \<and>
     ta_total (tally_of s' ''receipts'' ''items_found'') = 3 \<and> ta_correct (tally_of s' ''receipts'' ''items_found'') = 2 \<and>
     last (gs_misses s') = ''1 scanned item(s) with no labelled match''"
proof -
  let ?run = "score_items sample_golden sample_json sample_host sample_labels ''receipts'' (Some sample_scan) no_scores"
  have "isl ?run = False" by code_simp
  then obtain s' where s': "?run = Inr s'" by (cases ?run) auto
  have found: "jfind sample_labels ''items'' = Some (projr (jat sample_json sample_labels ''items''))" by code_simp
  have cs: "labelled_cents sample_json sample_host (jelements (projr (jat sample_json sample_labels ''items''))) = Inr [400, 700, 400]"
    by code_simp
  have "size (mset [400, 700, 400] \<inter># mset (map si_amountCents (items_of (Some sample_scan)))) = 2"
    "length (items_of (Some sample_scan)) = 3" "nat_to_string 1 = ''1''"
    "tally_of no_scores ''receipts'' ''items_found'' = Tally_init" by code_simp+
  with pairing_is_maximal [OF s' found] cs s' show ?thesis by (auto simp: Tally_init_def)
qed

section \<open>Drafts\<close>

lemma jfind_draft:
  "jfind (asExpected r) ''kind'' = Some (JString (sr_kind r))" "jfind (asExpected r) ''total'' = Some (in_units (sr_totalCents r))"
  "jfind (asExpected r) ''currency'' = Some (JString (sr_currency r))"
  "jfind (asExpected r) ''purchase_date'' = Some (orNull (sr_purchaseDate r))"
  "jfind (asExpected r) ''merchant'' = Some (orNull (sr_merchant r))"
  "jfind (asExpected r) ''items'' = Some (JArray (map expected_line (sr_items r)))"
  by (simp_all add: asExpected_def jfind_jobject)

lemma jfind_jset: "jfind (jset j key v) key' = (if key' = key then Some v else jfind j key')" if "distinct (map fst (members j))"
proof -
  have "distinct (map fst ((key, v) # filter (\<lambda>m. fst m \<noteq> key) (members j)))"
    using that by (auto simp: distinct_map_filter)
  then have "jfind (jset j key v) key' = map_of ((key, v) # filter (\<lambda>m. fst m \<noteq> key) (members j)) key'"
    unfolding jset_def by (rule jfind_jobject)
  also have "\<dots> = (if key' = key then Some v else jfind j key')"
    by (auto simp: jfind_def map_of_filter [of "\<lambda>k. k \<noteq> key"])
  finally show ?thesis .
qed

lemma label_cents_draft: "\<bar>n\<bar> < 2 ^ 50 \<Longrightarrow> label_cents js h (in_units n) = Inr n"
  by (simp add: label_cents_def in_units_def as_double_def units_are_cents)

text \<open>The line of a draft, member by member.\<close>

lemma members_jobject_distinct: "distinct (map fst ms) \<Longrightarrow> distinct (map fst (members (jobject ms)))"
  by (simp add: distinct_map)

lemma members_jset_distinct: "distinct (map fst (members j)) \<Longrightarrow> distinct (map fst (members (jset j key v)))"
  unfolding jset_def by (rule members_jobject_distinct) (auto simp: distinct_map_filter)

lemma is_object_jset [simp]: "is_object (jset j key v)"
  by (simp add: jset_def)

lemma jfind_line:
  "jfind (expected_line item) ''name'' = Some (orNull (si_name item))"
  "jfind (expected_line item) ''amount'' = Some (in_units (si_amountCents item))"
  "jfind (expected_line item) ''category'' = Some (orNull (si_category item))"
  "jfind (expected_line item) ''quantity'' = map_option JFloat (si_quantity item)"
  "jfind (expected_line item) ''informational'' = (if si_informational item then Some (JBool True) else None)"
  "is_object (expected_line item)"
  by (simp_all add: expected_line_def Let_def jfind_jset jfind_jobject members_jset_distinct members_jobject_distinct
      del: members_jobject split: option.split)

lemma rbind_total: "\<exists>x. m = Inr x \<Longrightarrow> (\<And>x. m = Inr x \<Longrightarrow> \<exists>y. f x = Inr y) \<Longrightarrow> \<exists>y. rbind m f = Inr y"
  by auto

lemma orNull_cases: "orNull x = (case x of None \<Rightarrow> JNull | Some s \<Rightarrow> JString s)"
  by (simp add: orNull_def split: option.split)

lemma draft_name_total: "\<exists>n. want_name gh js (expected_line item) = Inr n"
  by (cases "si_name item") (simp_all add: want_name_def value_json_def value_or_def jfind_line orNull_def jindex_def)

lemma draft_label_total:
  assumes "\<And>v. \<exists>t. nl_dump js v = Inr t"
  shows "\<exists>l. item_label gh js (expected_line item) = Inr l"
  unfolding item_label_def by (intro rbind_total) (auto simp: value_json_def value_or_def jfind_line jindex_def assms)

lemma draft_quantity_total:
  assumes "\<And>v. \<exists>t. nl_dump js v = Inr t"
  shows "\<exists>s'. score_quantity js grp l (expected_line item) scanned s = Inr s'"
  unfolding score_quantity_def jfind_line
  by (auto simp: as_double_def assms intro!: rbind_total split: option.splits)

lemma draft_category_total:
  assumes "\<And>v. \<exists>t. nl_dump js v = Inr t"
  shows "\<exists>s'. score_category js grp l (expected_line item) scanned s = Inr s'"
  unfolding score_category_def
  by (auto simp: value_bool_def value_json_def value_or_def jfind_line orNull_def assms intro!: rbind_total split: option.splits)

lemma draft_cents: "\<bar>si_amountCents item\<bar> < 2 ^ 50 \<Longrightarrow>
    rbind (jat js (expected_line item) ''amount'') (label_cents js h) = Inr (si_amountCents item)"
  by (simp add: jat_def jfind_line label_cents_draft)

lemma draft_labels_total:
  assumes dump: "\<And>v. \<exists>t. nl_dump js v = Inr t" and "\<forall>item \<in> set its. \<bar>si_amountCents item\<bar> < 2 ^ 50"
  shows "\<exists>y. score_labels gh js h grp items (map expected_line its) used s = Inr y"
  using assms(2)
proof (induction its arbitrary: used s)
  case (Cons item its)
  have amount: "\<exists>x. rbind (jat js (expected_line item) ''amount'') (label_cents js h) = Inr x"
    using draft_cents Cons.prems by fastforce
  have rest: "\<exists>y. score_labels gh js h grp items (map expected_line its) used' s' = Inr y" for used' s'
    using Cons by simp
  show ?case
    unfolding list.map score_labels.simps
    by (rule rbind_total [OF amount], rule rbind_total [OF draft_name_total], rule rbind_total [OF draft_label_total [OF dump]])
       (auto simp del: split_paired_Ex split: option.split
         intro!: rest rbind_total [OF draft_quantity_total [OF dump]] rbind_total [OF draft_category_total [OF dump]])
qed simp

lemma draft_labelled_cents:
  "\<forall>item \<in> set its. \<bar>si_amountCents item\<bar> < 2 ^ 50 \<Longrightarrow>
   labelled_cents js h (map expected_line its) = Inr (map si_amountCents its)"
  by (induction its) (simp_all add: labelled_cents_def draft_cents)

text \<open>Fields that a step of \<open>score_case\<close> does not count.\<close>

lemma score_items_frame:
  assumes "score_items gh js h expected grp result s = Inr s'"
    and "field \<notin> {''items_found'', ''item_quantity'', ''item_category''}"
  shows "tally_of s' grp field = tally_of s grp field" and "gs_currency s' = gs_currency s"
proof -
  have quantity: "tally_of s1 grp field = tally_of s0 grp field \<and> gs_currency s1 = gs_currency s0"
    if "score_quantity js grp l want item s0 = Inr s1" for l want item s0 s1
    using that assms(2)
    by (auto simp: score_quantity_def res_simps tally_of_field split: option.splits if_splits)
  have category: "tally_of s1 grp field = tally_of s0 grp field \<and> gs_currency s1 = gs_currency s0"
    if "score_category js grp l want item s0 = Inr s1" for l want item s0 s1
    using that assms(2) by (auto simp: score_category_def res_simps tally_of_field split: if_splits)
  have labels: "tally_of s1 grp field = tally_of s0 grp field \<and> gs_currency s1 = gs_currency s0"
    if "score_labels gh js h grp items wants used s0 = Inr (used1, s1)" for items wants used used1 s0 s1
    using that
  proof (induction wants arbitrary: used s0)
    case (Cons want wants)
    then show ?case
      using assms(2) quantity category
      by (fastforce simp: res_simps tally_of_field split: option.splits)
  qed simp
  show "tally_of s' grp field = tally_of s grp field" "gs_currency s' = gs_currency s"
    using assms(1) labels
    by (auto simp: score_items_def Let_def res_simps split: option.splits prod.splits if_splits)
qed

definition comparable_merchant :: "ScanResult \<Rightarrow> bool" where
  "comparable_merchant r \<longleftrightarrow> (case sr_merchant r of None \<Rightarrow> True | Some name \<Rightarrow> squash name \<noteq> [])"

lemma has_substr_refl: "has_substr a a"
  by (cases a) simp_all

lemma draft_fields:
  "score_kind js (asExpected r) grp (Some r) s = Inr (tally_field grp ''kind'' True s)"
  "\<bar>sr_totalCents r\<bar> < 2 ^ 50 \<Longrightarrow> score_total gh js h (asExpected r) grp (Some r) s = Inr (tally_field grp ''total'' True s)"
  "score_date js (asExpected r) grp (Some r) s = Inr (tally_field grp ''purchase_date'' True s)"
  "score_currency js (asExpected r) grp (Some r) s =
     Inr (s\<lparr>gs_currency := map_at grp Tally_init (bump True) (gs_currency s)\<rparr>)"
proof -
  show "score_kind js (asExpected r) grp (Some r) s = Inr (tally_field grp ''kind'' True s)"
    by (simp add: score_kind_def jfind_draft if_scanned_def score_def)
  show "score_total gh js h (asExpected r) grp (Some r) s = Inr (tally_field grp ''total'' True s)" if "\<bar>sr_totalCents r\<bar> < 2 ^ 50"
    using that by (simp add: score_total_def jfind_draft if_scanned_def score_def label_cents_draft)
  show "score_date js (asExpected r) grp (Some r) s = Inr (tally_field grp ''purchase_date'' True s)"
    by (cases "sr_purchaseDate r") (simp_all add: score_date_def jfind_draft if_scanned_def score_def orNull_def)
  show "score_currency js (asExpected r) grp (Some r) s =
      Inr (s\<lparr>gs_currency := map_at grp Tally_init (bump True) (gs_currency s)\<rparr>)"
    by (simp add: score_currency_def jfind_draft if_scanned_def)
qed

lemma draft_merchant:
  assumes dump: "\<And>v. \<exists>t. nl_dump js v = Inr t"
  shows "\<exists>ms. score_merchant js (asExpected r) grp (Some r) s =
     Inr (tally_field grp ''merchant'' (comparable_merchant r) s\<lparr>gs_misses := gs_misses s @ ms\<rparr>)"
proof -
  have ok: "score_merchant js (asExpected r) grp (Some r) s =
      score js (asExpected r) grp ''merchant'' (comparable_merchant r) (or_null (sr_merchant r)) s"
    by (cases "sr_merchant r")
       (simp_all add: score_merchant_def jfind_draft if_scanned_def orNull_def comparable_merchant_def got_or_dash_def
         merchantMatches_def has_substr_refl Let_def)
  obtain t where t: "nl_dump js (orNull (sr_merchant r)) = Inr t" using dump by blast
  have "is_object (asExpected r)" by (simp add: asExpected_def)
  then show ?thesis
    unfolding ok score_def Let_def
    by (intro exI [of _ "if comparable_merchant r then []
          else [''merchant expected '' @ t @ '' got '' @ or_null (sr_merchant r)]"])
       (simp add: jat_def jfind_draft t miss_def tally_field_def)
qed



end
