(* ===== verification/Spec2Isabelle.thy ===== *)
theory Spec2Isabelle
  imports Confidential StoredImages Startup ScanOnce Reports GoldenScores
begin

text \<open>
  A personal ledger of receipts: a C++ server (Drogon, Postgres, an S3 bucket) with which users upload photos of
  receipts, enter transactions by hand, edit and categorise them, and a background worker that has the photos read by a
  scan provider (the Claude Messages API). This library models the server from the request handlers down to the
  statements it sends, and proves what keeps users' data correct and apart.

  \<^bold>\<open>How the parts interact.\<close> A request passes the session filter (\<^verbatim>\<open>filters/SessionAuthFilter.cpp\<close>) and reaches a
  controller (\<^verbatim>\<open>controllers/\<close>), which calls a service (\<^verbatim>\<open>receipts/\<close>, \<^verbatim>\<open>auth/\<close>). A service parses the body
  (\<^verbatim>\<open>JsonInput\<close>, \<^verbatim>\<open>LedgerInput\<close>, with the kind table of \<^verbatim>\<open>Kinds.h\<close>), runs SQL statements, most of them in a
  transaction, and puts image bytes into the bucket (\<^verbatim>\<open>storage/\<close>). The worker (\<^verbatim>\<open>scan/ScanWorker.cpp\<close>) wakes up every few
  seconds, re-queues scans that timed out, claims queued receipts up to its concurrency, reads their images, calls the
  provider (\<^verbatim>\<open>scan/AnthropicScanProvider.cpp\<close>) and writes the result under the claim, while requests go on. Uploads pass the
  image normalizer (\<^verbatim>\<open>storage/ImageNormalizer.cpp\<close>) before anything of them is stored. \<^verbatim>\<open>main.cpp\<close> starts it all; a second program,
  \<^verbatim>\<open>tools/golden_harness.cpp\<close>, runs labelled photos through the normalizer and the provider and scores what comes back.

  \<^bold>\<open>The model.\<close> An operation is an action: a function of the \<open>world\<close> (database, sequences, bucket, clock, random
  bytes, faults) that returns a result or an exception and the world it leaves. Every call of the infrastructure asks the
  fault oracle of the world whether it fails, so a theorem about an action holds for every failure at every call. What
  Postgres, libsodium, libvips, the JSON library, the network and the environment compute are the records \<open>host\<close>,
  \<open>nlohmann\<close> and \<open>ApiHost\<close>, arguments of the definitions that use them.

  \<^bold>\<open>Theories, bottom up.\<close>
  \<^item> \<open>RS_Prelude\<close>: exceptions as values, results, C-locale characters, \<open>stoi\<close>, \<open>to_string\<close>. \<open>Double\<close>, \<open>DoubleArith\<close> and \<open>DoubleDiv\<close>: IEEE
    doubles with their roundings, \<open>llround\<close>, division. \<open>Chrono\<close>: calendar dates and day numbers.
  \<^item> \<open>Kinds\<close> (\<^verbatim>\<open>Kinds.h\<close>, \<^verbatim>\<open>ReceiptStates.h\<close>), \<open>JsonInput\<close>, \<open>LedgerInput\<close>: tables, typed field readers, the parsers of manual
    entries and patches. The properties say which inputs are accepted, that every accepted one satisfies the rules of its
    kind, and that a patch changes what it names and is idempotent.
  \<^item> \<open>World\<close>: the tables of \<^verbatim>\<open>db/migrations\<close>, their constraints and ON DELETE rules. \<open>Actions\<close>: the combinators, statements and
    transactions, with weakest preconditions, triples, and the locales \<open>step_preorder\<close> and \<open>step_relation\<close> for relations
    that every action of a component respects.
  \<^item> \<open>Tokens\<close>, \<open>Auth\<close> (\<^verbatim>\<open>auth/\<close>, \<^verbatim>\<open>seeds/\<close>): tokens, rate limiter, registration, sessions, password reset.
  \<^item> \<open>ObjectStore\<close> (\<^verbatim>\<open>storage/\<close>): SigV4 signing and the S3 store; the locale \<open>image_store_contract\<close> is what the services
    need of a store, \<open>s3\<close> its interpretation on the S3 client.
  \<^item> \<open>Normalizer\<close> (\<^verbatim>\<open>ImageNormalizer.cpp\<close>, \<^verbatim>\<open>VipsInit.cpp\<close>): decode, shrink, strip, save, and whose fault an error is.
  \<^item> \<open>ItemService\<close>, \<open>ReferenceData\<close>, \<open>ReceiptService\<close>: one definition per method and statement of the services.
  \<^item> \<open>Nlohmann\<close>, \<open>Prompt\<close>, \<open>Anthropic\<close>: the scan provider: system prompt, output schema, request, reply, retries, rescan.
    \<open>ReplySchema\<close> gives the schema its meaning and reads conforming replies; \<open>ScanCall\<close> adds \<^verbatim>\<open>ScanServices.cpp\<close> and bounds the
    time and the requests of a call.
  \<^item> \<open>ScanWorker\<close>: claims, snapshots, the two ways of writing a result, failure budgets, \<open>tick\<close>. \<open>ScanLane\<close>: the queue, stale
    claims, budgets, totality. \<open>ScanWrites\<close>: what a written result changes.
  \<^item> \<open>Http\<close>: requests, responses, every handler, the route table. \<open>Access\<close>: who gets an answer.
  \<^item> \<open>Tenancy\<close>: the ledger invariant \<open>ledger_ok\<close> and the database changes that keep it. \<open>Views\<close>: what one user has in the tables, and
    which changes leave it alone. \<open>TenantOps\<close>: every service operation keeps the invariant and the views of the other users. \<open>RowSteps\<close>, \<open>Routes\<close>,
    \<open>Backing\<close>, \<open>Pipeline\<close>: step relations (rows keep their identity, image rows have objects, claims stay owned, no row enters the
    scanning state except by a claim) as locales, from the statements to the routes and to the worker's tick.
  \<^item> \<open>Server\<close>: one system, with the invariants of every run. A step is a request, one statement or transaction of a scan
    worker (a reclaim, a claim, the write of a result, the record of a failure) or the environment, and a run is any sequence of
    steps: any number of workers, scans of one tick that overlap, ticks that overlap. \<open>ticks_are_runs\<close> is the refinement:
    whatever \<open>tick\<close> does, requests served in between included, is such a sequence. \<open>ScanOnce\<close>: over any run a claim whose
    result was written stays dead. \<open>Reports\<close>: the reporting views of the schema, and what they promise over every run.
    \<open>Isolation\<close>: requests against the data of other users. \<open>Confidential\<close>: answers against the data of other users. \<open>StoredImages\<close>: what a run adds to the bucket. \<open>Startup\<close>: \<open>main\<close>, up to
    the system it starts.
  \<^item> \<open>Golden\<close>: the golden-set harness, from its arguments to the report and the results file; \<open>GoldenScores\<close>: what its scores mean.

  \<^bold>\<open>What is shown.\<close> Over every run from an empty database, with any requests, scans and failures: the constraints of the schema
  hold, references never leave a user's own data, item categories fit their receipt's kind, every image row has its
  object, no id is reused, no receipt changes its owner, no review is lost; no receipt or item counts twice in the spending and
  income reports, and amounts count with the sign of their direction under categories of their owner. A request changes the data of no user but the one whose
  session it carries, what it is shown does not depend on theirs, and every object in the bucket is a normalized image without metadata. Without a live session a protected route
  changes nothing, and image bytes go to the owner only. Sessions open for the right password, end with logout and
  reset, and attempts are limited. Claims respect the concurrency cap and the order of the queue; a stale claim writes
  nothing, and a claim writes its result at most once; a verify scan overwrites nothing the user entered; failures spend the right budget and run out; no scan
  throws, and a provider call that passed the startup check ends before its receipt would be reclaimed. A reply that conforms to
  the schema parses, an unusable one is a scan error, and printed amounts become exact cents. A server that
  starts is this system with a checked provider. The harness finds as many labelled items as any pairing could, and a scan written out as
  labels scores in full against itself.

  \<^bold>\<open>Bounds.\<close> There is no fuel: loops are structural recursions, the attempts of \<open>applyResult\<close> (two) and the retries of
  \<open>send\<close> are counted as in the code. \<open>int64_t\<close> values are integers whose ranges are checked where the code checks them, JSON numbers are
  64-bit words; what C++ leaves undefined (\<open>llround\<close> out of range, the negated minimum) is a parameter. \<open>printed_amounts_become_cents\<close>
  is for less than 2^50 cents, where one unit in the last place is far below a cent.

  \<^bold>\<open>Not modelled.\<close> The text of HTTP and JSON (Drogon's and nlohmann's parsers), Drogon's own 500 response and CORS, a COMMIT that
  fails inside Drogon's destructor, libvips itself (the parameter \<open>h_vips\<close>; its thread pool changes where the work runs, not what it
  returns), the timing of the poll timer (ticks come at any time), the log, the table \<open>recurring_transactions\<close> and the columns of
  \<open>receipts\<close> that refer to it, which no code uses, and the call counter that \<open>FakeScanProvider\<close> keeps for tests. A request and a
  transaction are one step each for everything else: the row locks that make a transaction one are not modelled, and the statements of
  two requests do not interleave. \<open>tick\<close> itself runs its scans one after the other; what the theorems say of runs covers every other order.
\<close>

end
